theory Spec2Isabelle
  imports Main
begin

section \<open>Data model of \<open>src/app/application.ts\<close>\<close>

text \<open>
  The build orchestrator of the documentation generator (class \<open>Application\<close>) is embedded
  with explicit state passing.  Promises are modelled by their outcome, callbacks by the
  order in which the JavaScript run-to-completion semantics executes them, and everything
  the class does to the outside world (log lines, file writes, graph renderings, listener
  registration) is recorded in the state, most of it in one chronological \<open>trace\<close>.
\<close>

subsection \<open>Symbols\<close>

text \<open>An entry of a module's metadata list: \<open>metaDataItem.name\<close> and \<open>metaDataItem.type\<close>.\<close>

record metaDataItem =
  item_name :: string
  item_type :: string

record ngModule =
  m_name :: string
  m_id :: string
  m_file :: string
  m_declarations :: "metaDataItem list"
  m_bootstrap :: "metaDataItem list"
  m_imports :: "metaDataItem list"
  m_exports :: "metaDataItem list"
  m_providers :: "metaDataItem list"
  m_readme :: "string option"
  m_graph :: "string option"

text \<open>What \<open>dependenciesEngine.getRawModule\<close> returns: only the five relation lists are read.\<close>

record rawModule =
  raw_name :: string
  raw_declarations :: "metaDataItem list"
  raw_bootstrap :: "metaDataItem list"
  raw_imports :: "metaDataItem list"
  raw_exports :: "metaDataItem list"
  raw_providers :: "metaDataItem list"

record component =
  c_name :: string
  c_id :: string
  c_file :: string
  templateUrl :: string
  templateData :: "string option"
  c_readme :: "string option"

text \<open>Directives, injectables, pipes, classes and interfaces: name, id, file, readme.\<close>

record entry =
  e_name :: string
  e_id :: string
  e_file :: string
  e_readme :: "string option"

record miscellaneous =
  misc_variables :: "string list"
  misc_functions :: "string list"
  misc_typealiases :: "string list"
  misc_enumerations :: "string list"

record routeTree =
  children :: "string list"

text \<open>
  The symbol collection held by \<open>dependenciesEngine\<close>.  The fields carry the names of the
  accessors the orchestrator calls; \<open>getRawModule(name)\<close> may find nothing, and the
  orchestrator reads \<open>.declarations\<close> of what it returns without a check.  A crawl result
  has the same named groups.
\<close>

record dependenciesEngine =
  getModules :: "ngModule list"
  getRawModule :: "string \<Rightarrow> rawModule option"
  getComponents :: "component list"
  getDirectives :: "entry list"
  getInjectables :: "entry list"
  getPipes :: "entry list"
  getClasses :: "entry list"
  getInterfaces :: "entry list"
  getMiscellaneous :: miscellaneous
  getRoutes :: "routeTree option"

type_synonym crawlResult = dependenciesEngine

subsection \<open>Pages\<close>

datatype pageType = ROOT | INTERNAL

text \<open>
  The optional backing entry of a page.  The source stores a reference to the object
  \<open>mainData.<section>[i]\<close>, which later steps still mutate (readme, template data, graph);
  the model stores the index \<open>i\<close> into that section.
\<close>

datatype pageData =
    NoData
  | Markdown string
  | ModuleRef nat
  | ComponentRef nat
  | DirectiveRef nat
  | InjectableRef nat
  | PipeRef nat
  | ClassRef nat
  | InterfaceRef nat
  | AdditionalPage string

record page =
  p_path :: "string option"
  p_name :: string
  p_id :: string
  p_filename :: "string option"
  p_context :: string
  p_depth :: "nat option"
  p_pageType :: "pageType option"
  p_data :: pageData

record markdownEntry =
  md_name :: string
  md_uppername :: string

subsection \<open>Configuration\<close>

record mainData =
  md_output :: string
  exportFormat :: string
  md_includes :: string
  includesFolder :: string
  assetsFolder :: string
  disableGraph :: bool
  disableMainGraph :: bool
  disableCoverage :: bool
  serve :: bool
  watch :: bool
  extTheme :: string
  customFavicon :: string
  tsconfig :: string
  documentationMainName :: string
  documentationMainDescription :: string
  readme :: bool
  markdowns :: "markdownEntry list"
  modules :: "ngModule list"
  components :: "component list"
  directives :: "entry list"
  injectables :: "entry list"
  pipes :: "entry list"
  classes :: "entry list"
  interfaces :: "entry list"
  md_miscellaneous :: miscellaneous
  routes :: "routeTree option"
  routesLength :: nat
  additionalPages :: "page list"
  mainGraph :: "string option"

subsection \<open>Observable events\<close>

datatype level = Info | Warn | Error | Debug

text \<open>One document handed to \<open>searchEngine.indexPage\<close>.\<close>

record indexDoc =
  infos :: page
  rawData :: string
  url :: string

datatype event =
    Log level string
  | Stat string nat
  | IndexPage string
  | WriteStart string
  | WriteSettled string bool
  | PersistIndex bool
  | Console string
  | GraphInit string
  | RenderGraph string string string "string option"
  | ReadGraph string string
  | RoutesIndex
  | CopyStart string string
  | ExportStart
  | ServerStart string
  | WatchStart
  | ListenersAdded
  | ListenersRemoved
  | GenerationResolved
  | GenerationRejected
  | ClearUpdatedFiles
  | UnhandledRejection
  | ProcessExit nat

subsection \<open>Promises\<close>

text \<open>
  A promise of the source is modelled by how it ends: fulfilled, rejected with a reason, or
  never settled (\<open>new Promise((resolve, reject) => { })\<close>, or a handler that only logs).
\<close>

datatype outcome = Resolved | Rejected string | Pending

datatype promiseState = Unsettled | Fulfilled | Failed

subsection \<open>Collaborators\<close>

record packageJson =
  pkg_name :: "string option"
  pkg_description :: "string option"

record summaryChild =
  sc_title :: string
  sc_file :: string

record summaryItem =
  s_title :: string
  s_file :: string
  s_children :: "summaryChild list"

text \<open>
  Everything the orchestrator calls but does not define: the engines, the file system, the
  Node \<open>path\<close> and \<open>process\<close> modules, and the constants of \<open>COMPODOC_DEFAULTS\<close>.  A
  promise-returning collaborator is a function to \<open>error + value\<close> (\<open>Inl\<close> the rejection
  reason); one that resolves without a value is a function to \<open>string option\<close>
  (\<open>Some\<close> the rejection reason).  Synchronous collaborators are taken to return.
\<close>

record env =
  cwd :: string
  sep :: string
  moduleDirname :: string \<comment> \<open>\<open>__dirname\<close>\<close>
  extname :: "string \<Rightarrow> string"
  dirname :: "string \<Rightarrow> string"
  resolve :: "string \<Rightarrow> string"
  pathJoin :: "string \<Rightarrow> string"
  strMatch :: "string \<Rightarrow> string \<Rightarrow> bool"
  strReplace :: "string \<Rightarrow> string \<Rightarrow> string \<Rightarrow> string"
  defaultExportFormat :: string
  exportFormatsSupported :: "string list"
  defaultTitle :: string
  hasNeighbourReadmeFile :: "string \<Rightarrow> bool"
  readNeighbourReadmeFile :: "string \<Rightarrow> string"
  marked :: "string \<Rightarrow> string"
  getTraditionalMarkdown :: "string \<Rightarrow> string + string"
  existsSync :: "string \<Rightarrow> bool"
  fileGet :: "string \<Rightarrow> string + string"
  fileWrite :: "string \<Rightarrow> string \<Rightarrow> bool"
  fsCopy :: "string \<Rightarrow> string \<Rightarrow> string option"
  parsePackage :: "string \<Rightarrow> packageJson option"
  parseSummary :: "string \<Rightarrow> summaryItem list option"
  cleanNameWithoutSpaceAndToLowerCase :: "string \<Rightarrow> string"
  findMainSourceFolder :: "string list option \<Rightarrow> string"
  htmlInit :: "string option"
  htmlRender :: "mainData \<Rightarrow> page \<Rightarrow> string"
  generateSearchIndexJson :: "string \<Rightarrow> string option"
  generateRoutesIndex :: "string \<Rightarrow> routeTree option \<Rightarrow> string option"
  coverageCalculate :: outcome
  exportEngine :: "string \<Rightarrow> string option"
  renderGraph :: "string \<Rightarrow> string \<Rightarrow> string \<Rightarrow> string option \<Rightarrow> string option"
  readGraph :: "string \<Rightarrow> string \<Rightarrow> string + string"
  crawl :: "string list option \<Rightarrow> crawlResult"
  engineInit :: "crawlResult \<Rightarrow> dependenciesEngine"
  engineUpdate :: "dependenciesEngine \<Rightarrow> crawlResult \<Rightarrow> dependenciesEngine"
  routerRoutesLength :: nat
  resetRootMarkdownPages :: "page list \<Rightarrow> page list"

subsection \<open>State\<close>

text \<open>
  The fields of the \<open>Application\<close> instance, of its \<open>configuration\<close> (\<open>pages\<close>,
  \<open>mainData\<close>), of its search engine (\<open>searchIndex\<close>, the documents submitted so far), and
  of the process around it: the output files written, the search index file, how many
  times each fatal-error listener is registered, the module-level generation promise,
  and the exit code once \<open>process.exit\<close> was called.
\<close>

record app =
  pages :: "page list"
  mainData :: mainData
  engine :: dependenciesEngine
  files :: "string list option"
  updatedFiles :: "string list"
  watchChangedFiles :: "string list"
  isWatching :: bool
  searchIndex :: "indexDoc list"
  persistedIndex :: "indexDoc list option"
  written :: "(string \<times> string) list"
  unhandledRejectionListeners :: nat
  uncaughtExceptionListeners :: nat
  generationPromise :: promiseState
  exited :: "nat option"
  trace :: "event list"

definition emit :: "event \<Rightarrow> app \<Rightarrow> app" where
  "emit e st = st\<lparr>trace := trace st @ [e]\<rparr>"

definition logger :: "level \<Rightarrow> string \<Rightarrow> app \<Rightarrow> app" where
  "logger l msg st = emit (Log l msg) st"

text \<open>
  Modelled from the spec: \<open>Configuration.addPage\<close>, \<open>addAdditionalPage\<close>, \<open>resetPages\<close> and
  \<open>resetAdditionalPages\<close> are defined in \<open>configuration.ts\<close>, which is not part of the
  sources at hand.  The spec has pages emitted "in stable order ... each group fully emitted
  before the next, item pages within a group in crawl order", and page descriptors "fully
  regenerated on every build": adding appends, resetting empties.
\<close>

definition addPage :: "page \<Rightarrow> app \<Rightarrow> app" where
  "addPage p st = st\<lparr>pages := pages st @ [p]\<rparr>"

definition addAdditionalPage :: "page \<Rightarrow> app \<Rightarrow> app" where
  "addAdditionalPage p st =
     st\<lparr>mainData := (mainData st)\<lparr>additionalPages := additionalPages (mainData st) @ [p]\<rparr>\<rparr>"

definition resetPages :: "app \<Rightarrow> app" where
  "resetPages st = st\<lparr>pages := []\<rparr>"

definition resetAdditionalPages :: "app \<Rightarrow> app" where
  "resetAdditionalPages st = st\<lparr>mainData := (mainData st)\<lparr>additionalPages := []\<rparr>\<rparr>"

section \<open>Page planner\<close>

subsection \<open>Item loops\<close>

text \<open>
  \<open>prepareModules\<close>, \<open>preparePipes\<close>, \<open>prepareClasses\<close>, \<open>prepareInterfaces\<close>,
  \<open>prepareDirectives\<close> and \<open>prepareInjectables\<close> all run the same loop
  \<^verbatim>\<open>if (i < len) { if (hasNeighbourReadmeFile(xs[i].file)) { logger.info(..);
     xs[i].readme = marked(readNeighbourReadmeFile(xs[i].file)); }
     addPage({.. xs[i] ..}); i++; loop(); } else { resolve(); }\<close>
  over their own section.  \<open>loopItems\<close> is that loop, recursing over the items from index
  \<open>i\<close> on; it returns the items as the loop leaves them (the source mutates them in place).
\<close>

fun loopItems ::
  "env \<Rightarrow> ('a \<Rightarrow> string) \<Rightarrow> ('a \<Rightarrow> string) \<Rightarrow> (string \<Rightarrow> 'a \<Rightarrow> 'a) \<Rightarrow> ('a \<Rightarrow> nat \<Rightarrow> page)
     \<Rightarrow> nat \<Rightarrow> 'a list \<Rightarrow> app \<Rightarrow> 'a list \<times> app" where
  "loopItems env fileOf nameOf setReadme mk i [] st = ([], st)"
| "loopItems env fileOf nameOf setReadme mk i (x # xs) st =
     (let (x1, st1) =
            (if hasNeighbourReadmeFile env (fileOf x)
             then (setReadme (marked env (readNeighbourReadmeFile env (fileOf x))) x,
                   logger Info ('' '' @ nameOf x @ '' has a README file, include it'') st)
             else (x, st));
          st2 = addPage (mk x1 i) st1;
          (xs', st3) = loopItems env fileOf nameOf setReadme mk (Suc i) xs st2
      in (x1 # xs', st3))"

definition itemPage :: "string \<Rightarrow> string \<Rightarrow> (nat \<Rightarrow> pageData) \<Rightarrow> entry \<Rightarrow> nat \<Rightarrow> page" where
  "itemPage section ctx ref e i =
     \<lparr> p_path = Some section, p_name = e_name e, p_id = e_id e, p_filename = None,
       p_context = ctx, p_depth = Some 1, p_pageType = Some INTERNAL, p_data = ref i \<rparr>"

definition setEntryReadme :: "string \<Rightarrow> entry \<Rightarrow> entry" where
  "setEntryReadme r e = e\<lparr>e_readme := Some r\<rparr>"

definition loopEntries ::
  "env \<Rightarrow> string \<Rightarrow> string \<Rightarrow> (nat \<Rightarrow> pageData) \<Rightarrow> entry list \<Rightarrow> app \<Rightarrow> entry list \<times> app" where
  "loopEntries env section ctx ref es st =
     loopItems env e_file e_name setEntryReadme (itemPage section ctx ref) 0 es st"

subsection \<open>Modules\<close>

text \<open>The \<open>switch (metaDataItem.type)\<close> of \<open>prepareModules\<close>; \<open>list_ex\<close> is \<open>Array.some\<close>.\<close>

definition keepMetaDataItem :: "dependenciesEngine \<Rightarrow> metaDataItem \<Rightarrow> bool" where
  "keepMetaDataItem eng metaDataItem =
     (if item_type metaDataItem = ''directive''
        then list_ex (\<lambda>directive. e_name directive = item_name metaDataItem) (getDirectives eng)
      else if item_type metaDataItem = ''component''
        then list_ex (\<lambda>component. c_name component = item_name metaDataItem) (getComponents eng)
      else if item_type metaDataItem = ''module''
        then list_ex (\<lambda>module. m_name module = item_name metaDataItem) (getModules eng)
      else if item_type metaDataItem = ''pipe''
        then list_ex (\<lambda>pipe. e_name pipe = item_name metaDataItem) (getPipes eng)
      else True)"

definition keepProvider :: "dependenciesEngine \<Rightarrow> metaDataItem \<Rightarrow> bool" where
  "keepProvider eng provider =
     list_ex (\<lambda>injectable. e_name injectable = item_name provider) (getInjectables eng)"

text \<open>The body of \<open>_modules.map(ngModule => ..)\<close>.\<close>

definition filterModule :: "dependenciesEngine \<Rightarrow> ngModule \<Rightarrow> ngModule" where
  "filterModule eng ngModule =
     ngModule\<lparr> m_declarations := filter (keepMetaDataItem eng) (m_declarations ngModule),
               m_bootstrap := filter (keepMetaDataItem eng) (m_bootstrap ngModule),
               m_imports := filter (keepMetaDataItem eng) (m_imports ngModule),
               m_exports := filter (keepMetaDataItem eng) (m_exports ngModule),
               m_providers := filter (keepProvider eng) (m_providers ngModule) \<rparr>"

definition modulesRootPage :: page where
  "modulesRootPage =
     \<lparr> p_path = None, p_name = ''modules'', p_id = ''modules'', p_filename = None,
       p_context = ''modules'', p_depth = Some 0, p_pageType = Some ROOT, p_data = NoData \<rparr>"

definition modulePage :: "ngModule \<Rightarrow> nat \<Rightarrow> page" where
  "modulePage m i =
     \<lparr> p_path = Some ''modules'', p_name = m_name m, p_id = m_id m, p_filename = None,
       p_context = ''module'', p_depth = Some 1, p_pageType = Some INTERNAL,
       p_data = ModuleRef i \<rparr>"

definition setModuleReadme :: "string \<Rightarrow> ngModule \<Rightarrow> ngModule" where
  "setModuleReadme r m = m\<lparr>m_readme := Some r\<rparr>"

text \<open>
  \<open>prepareModules(someModules?)\<close>.  The filter reads names from the engine only, and no
  step of the orchestrator changes a name, so it does not matter to it that the module
  objects it mutates are the engine's own.  The returned promise always resolves.
\<close>

definition prepareModules :: "env \<Rightarrow> ngModule list option \<Rightarrow> app \<Rightarrow> outcome \<times> app" where
  "prepareModules env someModules st =
     (let st0 = logger Info ''Prepare modules'' st;
          modules0 = (case someModules of Some ms \<Rightarrow> ms | None \<Rightarrow> getModules (engine st0));
          st1 = st0\<lparr>mainData := (mainData st0)\<lparr>modules := map (filterModule (engine st0)) modules0\<rparr>\<rparr>;
          st2 = addPage modulesRootPage st1;
          (ms, st3) = loopItems env m_file m_name setModuleReadme modulePage 0
                        (modules (mainData st2)) st2
      in (Resolved, st3\<lparr>mainData := (mainData st3)\<lparr>modules := ms\<rparr>\<rparr>))"

subsection \<open>Pipes, classes, interfaces, directives, injectables\<close>

definition preparePipes :: "env \<Rightarrow> entry list option \<Rightarrow> app \<Rightarrow> outcome \<times> app" where
  "preparePipes env somePipes st =
     (let st0 = logger Info ''Prepare pipes'' st;
          st1 = st0\<lparr>mainData := (mainData st0)\<lparr>pipes :=
                   (case somePipes of Some xs \<Rightarrow> xs | None \<Rightarrow> getPipes (engine st0))\<rparr>\<rparr>;
          (xs, st2) = loopEntries env ''pipes'' ''pipe'' PipeRef (pipes (mainData st1)) st1
      in (Resolved, st2\<lparr>mainData := (mainData st2)\<lparr>pipes := xs\<rparr>\<rparr>))"

definition prepareClasses :: "env \<Rightarrow> entry list option \<Rightarrow> app \<Rightarrow> outcome \<times> app" where
  "prepareClasses env someClasses st =
     (let st0 = logger Info ''Prepare classes'' st;
          st1 = st0\<lparr>mainData := (mainData st0)\<lparr>classes :=
                   (case someClasses of Some xs \<Rightarrow> xs | None \<Rightarrow> getClasses (engine st0))\<rparr>\<rparr>;
          (xs, st2) = loopEntries env ''classes'' ''class'' ClassRef (classes (mainData st1)) st1
      in (Resolved, st2\<lparr>mainData := (mainData st2)\<lparr>classes := xs\<rparr>\<rparr>))"

definition prepareInterfaces :: "env \<Rightarrow> entry list option \<Rightarrow> app \<Rightarrow> outcome \<times> app" where
  "prepareInterfaces env someInterfaces st =
     (let st0 = logger Info ''Prepare interfaces'' st;
          st1 = st0\<lparr>mainData := (mainData st0)\<lparr>interfaces :=
                   (case someInterfaces of Some xs \<Rightarrow> xs | None \<Rightarrow> getInterfaces (engine st0))\<rparr>\<rparr>;
          (xs, st2) = loopEntries env ''interfaces'' ''interface'' InterfaceRef
                        (interfaces (mainData st1)) st1
      in (Resolved, st2\<lparr>mainData := (mainData st2)\<lparr>interfaces := xs\<rparr>\<rparr>))"

definition prepareDirectives :: "env \<Rightarrow> entry list option \<Rightarrow> app \<Rightarrow> outcome \<times> app" where
  "prepareDirectives env someDirectives st =
     (let st0 = logger Info ''Prepare directives'' st;
          st1 = st0\<lparr>mainData := (mainData st0)\<lparr>directives :=
                   (case someDirectives of Some xs \<Rightarrow> xs | None \<Rightarrow> getDirectives (engine st0))\<rparr>\<rparr>;
          (xs, st2) = loopEntries env ''directives'' ''directive'' DirectiveRef
                        (directives (mainData st1)) st1
      in (Resolved, st2\<lparr>mainData := (mainData st2)\<lparr>directives := xs\<rparr>\<rparr>))"

definition prepareInjectables :: "env \<Rightarrow> entry list option \<Rightarrow> app \<Rightarrow> outcome \<times> app" where
  "prepareInjectables env someInjectables st =
     (let st0 = logger Info ''Prepare injectables'' st;
          st1 = st0\<lparr>mainData := (mainData st0)\<lparr>injectables :=
                   (case someInjectables of Some xs \<Rightarrow> xs | None \<Rightarrow> getInjectables (engine st0))\<rparr>\<rparr>;
          (xs, st2) = loopEntries env ''injectables'' ''injectable'' InjectableRef
                        (injectables (mainData st1)) st1
      in (Resolved, st2\<lparr>mainData := (mainData st2)\<lparr>injectables := xs\<rparr>\<rparr>))"

subsection \<open>Miscellaneous\<close>

definition miscPage :: "string \<Rightarrow> page" where
  "miscPage grp =
     \<lparr> p_path = Some ''miscellaneous'', p_name = grp, p_id = ''miscellaneous-'' @ grp,
       p_filename = None, p_context = ''miscellaneous-'' @ grp, p_depth = Some 1,
       p_pageType = Some INTERNAL, p_data = NoData \<rparr>"

definition prepareMiscellaneous :: "env \<Rightarrow> miscellaneous option \<Rightarrow> app \<Rightarrow> outcome \<times> app" where
  "prepareMiscellaneous env someMisc st =
     (let st0 = logger Info ''Prepare miscellaneous'' st;
          st1 = st0\<lparr>mainData := (mainData st0)\<lparr>md_miscellaneous :=
                   (case someMisc of Some m \<Rightarrow> m | None \<Rightarrow> getMiscellaneous (engine st0))\<rparr>\<rparr>;
          misc = md_miscellaneous (mainData st1);
          st2 = (if misc_functions misc \<noteq> [] then addPage (miscPage ''functions'') st1 else st1);
          st3 = (if misc_variables misc \<noteq> [] then addPage (miscPage ''variables'') st2 else st2);
          st4 = (if misc_typealiases misc \<noteq> [] then addPage (miscPage ''typealiases'') st3 else st3);
          st5 = (if misc_enumerations misc \<noteq> [] then addPage (miscPage ''enumerations'') st4 else st4)
      in (Resolved, st5))"

subsection \<open>Components\<close>

text \<open>
  \<open>handleTemplateurl(component)\<close>: a missing template file is logged and answered with a
  promise that never settles; an unreadable one is logged and rejected with the empty
  string.
\<close>

definition handleTemplateurl :: "env \<Rightarrow> component \<Rightarrow> app \<Rightarrow> outcome \<times> component \<times> app" where
  "handleTemplateurl env component st =
     (let dirname' = dirname env (c_file component);
          templatePath = resolve env (dirname' @ sep env @ templateUrl component)
      in if \<not> existsSync env templatePath
         then (Pending, component,
               logger Error (''Cannot read template for '' @ c_name component) st)
         else (case fileGet env templatePath of
                 Inr data \<Rightarrow> (Resolved, component\<lparr>templateData := Some data\<rparr>, st)
               | Inl err \<Rightarrow> (Rejected [], component, logger Error err st)))"

definition componentPage :: "component \<Rightarrow> nat \<Rightarrow> page" where
  "componentPage c i =
     \<lparr> p_path = Some ''components'', p_name = c_name c, p_id = c_id c, p_filename = None,
       p_context = ''component'', p_depth = Some 1, p_pageType = Some INTERNAL,
       p_data = ComponentRef i \<rparr>"

text \<open>
  The loop of \<open>prepareComponents\<close> (\<open>i <= len - 1\<close> on JavaScript numbers is \<open>i < len\<close>).
  Its two branches differ only in the README being attached; both add the page first and
  then, when \<open>templateUrl.length > 0\<close>, wait for \<open>handleTemplateurl\<close>: on fulfilment the
  loop goes on, on rejection the error is logged and nothing else happens, so neither
  \<open>loop()\<close> nor \<open>mainResolve()\<close> is ever called again.
\<close>

fun loopComponents :: "env \<Rightarrow> nat \<Rightarrow> component list \<Rightarrow> app \<Rightarrow> outcome \<times> component list \<times> app" where
  "loopComponents env i [] st = (Resolved, [], st)"
| "loopComponents env i (c # cs) st =
     (let (c1, st1) =
            (if hasNeighbourReadmeFile env (c_file c)
             then (c\<lparr>c_readme := Some (marked env (readNeighbourReadmeFile env (c_file c)))\<rparr>,
                   logger Info ('' '' @ c_name c @ '' has a README file, include it'') st)
             else (c, st));
          st2 = addPage (componentPage c1 i) st1
      in if templateUrl c1 \<noteq> []
         then (let st3 = logger Info ('' '' @ c_name c1 @ '' has a templateUrl, include it'') st2
               in case handleTemplateurl env c1 st3 of
                    (Resolved, c2, st4) \<Rightarrow>
                      (case loopComponents env (Suc i) cs st4 of
                         (r, cs', st5) \<Rightarrow> (r, c2 # cs', st5))
                  | (Rejected e, c2, st4) \<Rightarrow> (Pending, c2 # cs, logger Error e st4)
                  | (Pending, c2, st4) \<Rightarrow> (Pending, c2 # cs, st4))
         else (case loopComponents env (Suc i) cs st2 of
                 (r, cs', st5) \<Rightarrow> (r, c1 # cs', st5)))"

definition prepareComponents :: "env \<Rightarrow> component list option \<Rightarrow> app \<Rightarrow> outcome \<times> app" where
  "prepareComponents env someComponents st =
     (let st0 = logger Info ''Prepare components'' st;
          st1 = st0\<lparr>mainData := (mainData st0)\<lparr>components :=
                   (case someComponents of Some xs \<Rightarrow> xs | None \<Rightarrow> getComponents (engine st0))\<rparr>\<rparr>;
          (r, cs, st2) = loopComponents env 0 (components (mainData st1)) st1
      in (r, st2\<lparr>mainData := (mainData st2)\<lparr>components := cs\<rparr>\<rparr>))"

subsection \<open>Routes and coverage\<close>

definition routesRootPage :: page where
  "routesRootPage =
     \<lparr> p_path = None, p_name = ''routes'', p_id = ''routes'', p_filename = None,
       p_context = ''routes'', p_depth = Some 0, p_pageType = Some ROOT, p_data = NoData \<rparr>"

text \<open>\<open>prepareRoutes\<close>: \<open>reject()\<close> is called without a reason, here the empty string.\<close>

definition prepareRoutes :: "env \<Rightarrow> app \<Rightarrow> outcome \<times> app" where
  "prepareRoutes env st =
     (let st0 = logger Info ''Process routes'' st;
          st1 = st0\<lparr>mainData := (mainData st0)\<lparr>routes := getRoutes (engine st0)\<rparr>\<rparr>;
          st2 = addPage routesRootPage st1
      in if exportFormat (mainData st2) = defaultExportFormat env
         then (case generateRoutesIndex env (md_output (mainData st2)) (routes (mainData st2)) of
                 None \<Rightarrow> (Resolved, logger Info '' Routes index generated'' (emit RoutesIndex st2))
               | Some e \<Rightarrow> (Rejected [], logger Error e (emit RoutesIndex st2)))
         else (Resolved, st2))"

text \<open>
  \<open>prepareCoverage\<close> hands over to \<open>coverageEngine.calculate\<close>, of which only the outcome of
  the promise it returns is modelled.
\<close>

definition prepareCoverage :: "env \<Rightarrow> app \<Rightarrow> outcome \<times> app" where
  "prepareCoverage env st =
     (coverageCalculate env, logger Info ''Process documentation coverage report'' st)"

section \<open>Process-level handlers and the generation promise\<close>

definition sorryMessage :: string where
  "sorryMessage = ''Sorry, but there was a problem during parsing or generation of the documentation. Please fill an issue on github. (https://github.com/compodoc/compodoc/issues/new)''"

definition processExit :: "nat \<Rightarrow> app \<Rightarrow> app" where
  "processExit code st = (emit (ProcessExit code) st)\<lparr>exited := Some code\<rparr>"

definition unhandledRejectionListener :: "app \<Rightarrow> app" where
  "unhandledRejectionListener st =
     processExit 1 (logger Error sorryMessage (emit (Console ''Unhandled Rejection at:'') st))"

definition uncaughtExceptionListener :: "string \<Rightarrow> app \<Rightarrow> app" where
  "uncaughtExceptionListener err st =
     processExit 1 (logger Error sorryMessage (logger Error err st))"

text \<open>
  A rejected promise nobody handles: Node emits \<open>unhandledRejection\<close>, and the listener
  runs if one is registered (the first one registered exits the process).  What Node
  does by itself when no listener is registered is not modelled.
\<close>

definition unhandledRejection :: "app \<Rightarrow> app" where
  "unhandledRejection st =
     (let st1 = emit UnhandledRejection st
      in if unhandledRejectionListeners st1 > 0 then unhandledRejectionListener st1 else st1)"

text \<open>
  \<open>process.on\<close> appends a registration, also of a function that is registered already;
  \<open>process.removeListener\<close> takes one registration of the function away, if there is one.
\<close>

definition installListeners :: "app \<Rightarrow> app" where
  "installListeners st =
     (emit ListenersAdded st)\<lparr> unhandledRejectionListeners := Suc (unhandledRejectionListeners st),
                              uncaughtExceptionListeners := Suc (uncaughtExceptionListeners st) \<rparr>"

definition endCallback :: "app \<Rightarrow> app" where
  "endCallback st =
     (emit ListenersRemoved st)\<lparr> unhandledRejectionListeners := unhandledRejectionListeners st - 1,
                                uncaughtExceptionListeners := uncaughtExceptionListeners st - 1 \<rparr>"

definition generationPromiseResolve :: "app \<Rightarrow> app" where
  "generationPromiseResolve st =
     (emit GenerationResolved st)\<lparr>generationPromise :=
        (if generationPromise st = Unsettled then Fulfilled else generationPromise st)\<rparr>"

definition generationPromiseReject :: "app \<Rightarrow> app" where
  "generationPromiseReject st =
     (emit GenerationRejected st)\<lparr>generationPromise :=
        (if generationPromise st = Unsettled then Failed else generationPromise st)\<rparr>"

section \<open>Finalization stage\<close>

text \<open>
  \<open>runWatch\<close> marks the application as watching and starts the file watcher; the events
  of the watcher arrive later, through \<open>watcherChange\<close> and \<open>runnerChange\<close> below.
\<close>

definition runWatch :: "env \<Rightarrow> app \<Rightarrow> app" where
  "runWatch env st =
     (let st1 = st\<lparr>isWatching := True\<rparr>;
          st2 = logger Info (''Watching sources in '' @ findMainSourceFolder env (files st1)
                               @ '' folder'') st1
      in emit WatchStart st2)"

definition runWebServer :: "env \<Rightarrow> string \<Rightarrow> app \<Rightarrow> app" where
  "runWebServer env folder st =
     (let st1 = (if \<not> isWatching st then emit (ServerStart folder) st else st)
      in if watch (mainData st1) \<and> \<not> isWatching st1
         then (case files st1 of
                 None \<Rightarrow> processExit 1 (generationPromiseReject
                           (logger Error ''No sources files available, please use -p flag'' st1))
               | Some fs \<Rightarrow> runWatch env st1)
         else if watch (mainData st1) \<and> isWatching st1
         then logger Info (''Already watching sources in '' @ findMainSourceFolder env (files st1)
                             @ '' folder'') st1
         else st1)"

text \<open>
  \<open>onComplete\<close> of \<open>processResources\<close>.  The elapsed time and the theme name, which the
  source appends to the message, are left out of it.
\<close>

definition onComplete :: "env \<Rightarrow> app \<Rightarrow> app" where
  "onComplete env st =
     (let st1 = logger Info (''Documentation generated in '' @ md_output (mainData st)) st
      in if serve (mainData st1)
         then runWebServer env (md_output (mainData st1))
                (logger Info (''Serving documentation from '' @ md_output (mainData st1)) st1)
         else endCallback (generationPromiseResolve st1))"

text \<open>
  \<open>processAssetsFolder\<close> starts a copy whose callback only logs; the callback is placed
  right after the start of the copy.
\<close>

definition processAssetsFolder :: "env \<Rightarrow> app \<Rightarrow> app" where
  "processAssetsFolder env st =
     (let st1 = logger Info ''Copy assets folder'' st;
          folder = assetsFolder (mainData st1)
      in if \<not> existsSync env folder
         then logger Error (''Provided assets folder '' @ folder @ '' did not exist'') st1
         else (let src = resolve env folder;
                   dst = resolve env (md_output (mainData st1) @ sep env @ folder);
                   st2 = emit (CopyStart src dst) st1
               in case fsCopy env src dst of
                    Some err \<Rightarrow> logger Error (''Error during resources copy '' @ err) st2
                  | None \<Rightarrow> st2))"

text \<open>
  \<open>processResources\<close>, from the innermost callback outwards: the copy of the external
  theme, the copy of the custom favicon, the callback of the copy of the bundled resources,
  which chooses between them, and the function itself.
\<close>

definition copyExtTheme :: "env \<Rightarrow> string \<Rightarrow> app \<Rightarrow> app" where
  "copyExtTheme env finalOutput st =
     (let tsrc = resolve env (cwd env @ sep env @ extTheme (mainData st));
          tdst = resolve env (finalOutput @ ''/styles/'');
          st1 = emit (CopyStart tsrc tdst) st
      in case fsCopy env tsrc tdst of
           Some err1 \<Rightarrow> logger Error (''Error during external styling theme copy '' @ err1) st1
         | None \<Rightarrow> onComplete env (logger Info ''External styling theme copy succeeded'' st1))"

definition copyCustomFavicon :: "env \<Rightarrow> string \<Rightarrow> app \<Rightarrow> app" where
  "copyCustomFavicon env finalOutput st =
     (let st1 = logger Info ''Custom favicon supplied'' st;
          fsrc = resolve env (cwd env @ sep env @ customFavicon (mainData st1));
          fdst = resolve env (finalOutput @ ''/images/favicon.ico'');
          st2 = emit (CopyStart fsrc fdst) st1
      in case fsCopy env fsrc fdst of
           Some err \<Rightarrow> logger Error (''Error during resources copy '' @ err) st2
         | None \<Rightarrow> onComplete env st2)"

definition resourcesCopied :: "env \<Rightarrow> string \<Rightarrow> app \<Rightarrow> app" where
  "resourcesCopied env finalOutput st =
     (if extTheme (mainData st) \<noteq> [] then copyExtTheme env finalOutput st
      else if customFavicon (mainData st) \<noteq> [] then copyCustomFavicon env finalOutput st
      else onComplete env st)"

definition processResources :: "env \<Rightarrow> app \<Rightarrow> app" where
  "processResources env st =
     (let st1 = logger Info ''Copy main resources'' st;
          finalOutput = (if strMatch env (md_output (mainData st1)) (cwd env)
                         then md_output (mainData st1)
                         else strReplace env (md_output (mainData st1)) (cwd env) []);
          src = resolve env (moduleDirname env @ ''/../src/resources/'');
          st2 = emit (CopyStart src (resolve env finalOutput)) st1
      in case fsCopy env src (resolve env finalOutput) of
           Some err \<Rightarrow> logger Error (''Error during resources copy '' @ err) st2
         | None \<Rightarrow> resourcesCopied env finalOutput st2)"

section \<open>Render and index stage\<close>

text \<open>A write that \<open>processPage\<close> has started: the promise of \<open>fileEngine.write\<close>.\<close>

record writeJob =
  job_name :: string
  job_path :: string
  job_html :: string

text \<open>\<open>s.lastIndexOf('/') === -1\<close> says that \<open>s\<close> has no slash; \<open>if (page.path)\<close> that the
  path is there and not the empty string.\<close>

definition finalPathOf :: "mainData \<Rightarrow> page \<Rightarrow> string" where
  "finalPathOf md page =
     (let p0 = md_output md;
          p1 = (if CHR ''/'' \<notin> set (md_output md) then p0 @ ''/'' else p0);
          p2 = (case p_path page of
                  Some pth \<Rightarrow> if pth \<noteq> [] then p1 @ pth @ ''/'' else p1
                | None \<Rightarrow> p1)
      in case p_filename page of
           Some fn \<Rightarrow> if fn \<noteq> [] then p2 @ fn @ ''.html'' else p2 @ p_name page @ ''.html''
         | None \<Rightarrow> p2 @ p_name page @ ''.html'')"

text \<open>
  Modelled from the spec: \<open>searchEngine.indexPage\<close> and \<open>generateSearchIndexJson\<close> belong
  to \<open>search.engine.ts\<close>, which is not part of the sources at hand.  The spec gives the
  search-index collaborator as \<open>indexPage({metadata, renderedText, url})\<close> and
  \<open>persist(outputDir) -> Promise\<close>, which "consumes rendered page text, produces a persisted
  index file": \<open>indexPage\<close> adds the document to the documents held in memory, and a
  successful persist writes those documents to the index file.
\<close>

definition indexPage :: "indexDoc \<Rightarrow> app \<Rightarrow> app" where
  "indexPage doc st = (emit (IndexPage (url doc)) st)\<lparr>searchIndex := searchIndex st @ [doc]\<rparr>"

definition persistIndex :: "app \<Rightarrow> app" where
  "persistIndex st = (emit (PersistIndex True) st)\<lparr>persistedIndex := Some (searchIndex st)\<rparr>"

text \<open>
  The synchronous part of \<open>processPage(page)\<close>: render, index, start the write.  The promise
  it returns is the started write with its \<open>catch\<close> handler, settled in \<open>settleWrites\<close>.
\<close>

definition processPage :: "env \<Rightarrow> page \<Rightarrow> app \<Rightarrow> writeJob \<times> app" where
  "processPage env page st =
     (let st1 = logger Info (''Process page '' @ p_name page) st;
          htmlData = htmlRender env (mainData st1) page;
          finalPath = finalPathOf (mainData st1) page;
          st2 = indexPage \<lparr> infos = page, rawData = htmlData, url = finalPath \<rparr> st1;
          st3 = emit (WriteStart finalPath) st2
      in (\<lparr> job_name = p_name page, job_path = finalPath, job_html = htmlData \<rparr>, st3))"

text \<open>\<open>pages.map((page) => this.processPage(page))\<close>.\<close>

fun mapProcessPage :: "env \<Rightarrow> page list \<Rightarrow> app \<Rightarrow> writeJob list \<times> app" where
  "mapProcessPage env [] st = ([], st)"
| "mapProcessPage env (p # ps) st =
     (let (j, st1) = processPage env p st;
          (js, st2) = mapProcessPage env ps st1
      in (j # js, st2))"

datatype phase = MainPages | AdditionalPages

text \<open>
  The \<open>catch\<close> at the end of \<open>Promise.all(..).then(..)\<close>, which runs once, when the first
  page promise rejects (with the empty string, see \<open>processPage\<close>).  \<open>processPages\<close> logs;
  \<open>processAdditionalPages\<close> logs and rejects again, into a promise that nobody holds.
\<close>

definition allRejected :: "phase \<Rightarrow> app \<Rightarrow> app" where
  "allRejected ph st =
     (case ph of
        MainPages \<Rightarrow> logger Error [] st
      | AdditionalPages \<Rightarrow> unhandledRejection (logger Error [] st))"

text \<open>
  The started writes settle one after the other, in the order in which they were started.
  A write that fails runs the \<open>catch\<close> of its \<open>processPage\<close>; the first one that fails also
  rejects the \<open>Promise.all\<close>.  The writes of the other pages are not withdrawn, they go on
  settling unless the process has exited by then.  The flag says whether a write has failed.
\<close>

fun settleWrites :: "env \<Rightarrow> phase \<Rightarrow> bool \<Rightarrow> writeJob list \<Rightarrow> app \<Rightarrow> bool \<times> app" where
  "settleWrites env ph failed [] st = (failed, st)"
| "settleWrites env ph failed (j # js) st =
     (if fileWrite env (job_path j) (job_html j)
      then settleWrites env ph failed js
             ((emit (WriteSettled (job_path j) True) st)
                \<lparr>written := written st @ [(job_path j, job_html j)]\<rparr>)
      else (let st1 = logger Error (''Error during '' @ job_name j @ '' page generation'')
                        (emit (WriteSettled (job_path j) False) st);
                st2 = (if failed then st1 else allRejected ph st1)
            in if exited st2 \<noteq> None then (True, st2)
               else settleWrites env ph True js st2))"

definition finalize :: "env \<Rightarrow> app \<Rightarrow> app" where
  "finalize env st =
     processResources env
       (if assetsFolder (mainData st) \<noteq> [] then processAssetsFolder env st else st)"

definition processAdditionalPagesStart :: "env \<Rightarrow> app \<Rightarrow> writeJob list \<times> app" where
  "processAdditionalPagesStart env st =
     (let st0 = logger Info ''Process additional pages'' st
      in mapProcessPage env (additionalPages (mainData st0)) st0)"

text \<open>
  What \<open>processAdditionalPages\<close> does once its writes settle.  The promise of
  \<open>generateSearchIndexJson\<close> has no rejection handler here and is not returned.
\<close>

definition processAdditionalPagesSettle :: "env \<Rightarrow> writeJob list \<Rightarrow> app \<Rightarrow> app" where
  "processAdditionalPagesSettle env jobs st =
     (case settleWrites env AdditionalPages False jobs st of
        (True, st1) \<Rightarrow> st1
      | (False, st1) \<Rightarrow>
          (case generateSearchIndexJson env (md_output (mainData st1)) of
             None \<Rightarrow> finalize env (persistIndex st1)
           | Some e \<Rightarrow> unhandledRejection (emit (PersistIndex False) st1)))"

definition processAdditionalPages :: "env \<Rightarrow> app \<Rightarrow> app" where
  "processAdditionalPages env st =
     (let (jobs, st1) = processAdditionalPagesStart env st
      in processAdditionalPagesSettle env jobs st1)"

definition processPagesStart :: "env \<Rightarrow> app \<Rightarrow> writeJob list \<times> app" where
  "processPagesStart env st =
     (let st0 = logger Info ''Process pages'' st
      in mapProcessPage env (pages st0) st0)"

definition processPagesSettle :: "env \<Rightarrow> writeJob list \<Rightarrow> app \<Rightarrow> app" where
  "processPagesSettle env jobs st =
     (case settleWrites env MainPages False jobs st of
        (True, st1) \<Rightarrow> st1
      | (False, st1) \<Rightarrow>
          (case generateSearchIndexJson env (md_output (mainData st1)) of
             None \<Rightarrow>
               (let st2 = persistIndex st1
                in if additionalPages (mainData st2) \<noteq> []
                   then processAdditionalPages env st2
                   else finalize env st2)
           | Some e \<Rightarrow> logger Error e (emit (PersistIndex False) st1)))"

text \<open>
  \<open>processPages()\<close> returns after its synchronous part, \<open>processPagesStart\<close>; the rest runs
  from promise callbacks.  \<open>processPages\<close> is the whole of it, for callers that do nothing
  after the call.
\<close>

definition processPages :: "env \<Rightarrow> app \<Rightarrow> app" where
  "processPages env st =
     (let (jobs, st1) = processPagesStart env st
      in processPagesSettle env jobs st1)"

section \<open>Graph stage\<close>

definition hasRelations :: "rawModule \<Rightarrow> bool" where
  "hasRelations rawModule' \<longleftrightarrow>
     raw_declarations rawModule' \<noteq> [] \<or> raw_bootstrap rawModule' \<noteq> [] \<or>
     raw_imports rawModule' \<noteq> [] \<or> raw_exports rawModule' \<noteq> [] \<or>
     raw_providers rawModule' \<noteq> []"

definition moduleGraphPath :: "mainData \<Rightarrow> ngModule \<Rightarrow> string" where
  "moduleGraphPath md m =
     (if CHR ''/'' \<notin> set (md_output md) then md_output md @ ''/'' else md_output md)
       @ ''modules/'' @ m_name m"

datatype loopEnd = Finished | Halted | Threw

text \<open>
  The \<open>loop\<close> of \<open>processGraphs\<close>, one module after the other.  A failed render or read is
  logged, and neither \<open>loop()\<close> nor \<open>processPages()\<close> is called again (\<open>Halted\<close>).  Reading
  \<open>_rawModule.declarations\<close> of a module the engine does not know throws (\<open>Threw\<close>).  The
  list returned holds the modules with the graphs attached so far.
\<close>

fun loopGraphs :: "env \<Rightarrow> ngModule list \<Rightarrow> app \<Rightarrow> loopEnd \<times> ngModule list \<times> app" where
  "loopGraphs env [] st = (Finished, [], st)"
| "loopGraphs env (m # ms) st =
     (let st1 = logger Info (''Process module graph '' @ m_name m) st;
          finalPath = moduleGraphPath (mainData st1) m
      in case getRawModule (engine st1) (m_name m) of
           None \<Rightarrow> (Threw, m # ms, st1)
         | Some rawModule' \<Rightarrow>
             if hasRelations rawModule'
             then (let st2 = emit (RenderGraph (m_file m) finalPath ''f'' (Some (m_name m))) st1
                   in case renderGraph env (m_file m) finalPath ''f'' (Some (m_name m)) of
                        Some errorMessage \<Rightarrow> (Halted, m # ms, logger Error errorMessage st2)
                      | None \<Rightarrow>
                          (let svg = resolve env (finalPath @ sep env @ ''dependencies.svg'');
                               st3 = emit (ReadGraph svg (m_name m)) st2
                           in case readGraph env svg (m_name m) of
                                Inl err \<Rightarrow>
                                  (Halted, m # ms,
                                   logger Error (''Error during graph read: '' @ err) st3)
                              | Inr data \<Rightarrow>
                                  (case loopGraphs env ms st3 of
                                     (r, ms', st4) \<Rightarrow> (r, m\<lparr>m_graph := Some data\<rparr> # ms', st4))))
             else (case loopGraphs env ms st1 of
                     (r, ms', st4) \<Rightarrow> (r, m # ms', st4)))"

datatype pending = PendingWrites "writeJob list" | PendingMainGraph

definition mainGraphPath :: "mainData \<Rightarrow> string" where
  "mainGraphPath md =
     (if CHR ''/'' \<notin> set (md_output md) then md_output md @ ''/'' else md_output md) @ ''graph''"

text \<open>
  The synchronous part of \<open>processGraphs()\<close>: with graphs disabled it is the synchronous part
  of \<open>processPages()\<close>; otherwise the whole-project graph is started.
\<close>

definition processGraphsStart :: "env \<Rightarrow> app \<Rightarrow> pending \<times> app" where
  "processGraphsStart env st =
     (if disableGraph (mainData st)
      then (let (jobs, st1) = processPagesStart env (logger Info ''Graph generation disabled'' st)
            in (PendingWrites jobs, st1))
      else (let st1 = logger Info ''Process main graph'' st;
                finalMainGraphPath = mainGraphPath (mainData st1);
                st2 = emit (GraphInit (resolve env finalMainGraphPath)) st1
            in (PendingMainGraph,
                emit (RenderGraph (tsconfig (mainData st2)) (resolve env finalMainGraphPath)
                        ''p'' None) st2)))"

text \<open>
  The loop over \<open>mainData.modules\<close>, which the source mutates in place, and what follows
  its end: \<open>processPages()\<close> when it came to the end of the list; nothing when it halted;
  an unhandled rejection when it threw, since \<open>loop()\<close> is called from promise callbacks.
\<close>

definition graphLoop :: "env \<Rightarrow> app \<Rightarrow> loopEnd \<times> app" where
  "graphLoop env st =
     (case loopGraphs env (modules (mainData st)) st of
        (r, ms, st1) \<Rightarrow> (r, st1\<lparr>mainData := (mainData st1)\<lparr>modules := ms\<rparr>\<rparr>))"

definition graphLoopThenPages :: "env \<Rightarrow> app \<Rightarrow> app" where
  "graphLoopThenPages env st =
     (case graphLoop env st of
        (Finished, st1) \<Rightarrow> processPages env st1
      | (Halted, st1) \<Rightarrow> st1
      | (Threw, st1) \<Rightarrow> unhandledRejection st1)"

text \<open>
  The callbacks of the whole-project graph: a failed render or read is logged and sets
  \<open>disableMainGraph\<close>; in every case \<open>loop()\<close> is called next.
\<close>

definition mainGraphSettle :: "env \<Rightarrow> app \<Rightarrow> app" where
  "mainGraphSettle env st =
     (let finalMainGraphPath = mainGraphPath (mainData st)
      in case renderGraph env (tsconfig (mainData st)) (resolve env finalMainGraphPath)
                ''p'' None of
           Some err \<Rightarrow>
             (let st1 = logger Error
                  (''Ooops error during main graph generation, moving on next part with main graph disabled : '' @ err) st
              in st1\<lparr>mainData := (mainData st1)\<lparr>disableMainGraph := True\<rparr>\<rparr>)
         | None \<Rightarrow>
             (let svg = resolve env (finalMainGraphPath @ sep env @ ''dependencies.svg'');
                  st1 = emit (ReadGraph svg ''Main graph'') st
              in case readGraph env svg ''Main graph'' of
                   Inr data \<Rightarrow> st1\<lparr>mainData := (mainData st1)\<lparr>mainGraph := Some data\<rparr>\<rparr>
                 | Inl err \<Rightarrow>
                     (let st2 = logger Error (''Error during main graph reading : '' @ err) st1
                      in st2\<lparr>mainData := (mainData st2)\<lparr>disableMainGraph := True\<rparr>\<rparr>)))"

definition processGraphsSettle :: "env \<Rightarrow> pending \<Rightarrow> app \<Rightarrow> app" where
  "processGraphsSettle env pend st =
     (case pend of
        PendingWrites jobs \<Rightarrow> processPagesSettle env jobs st
      | PendingMainGraph \<Rightarrow> graphLoopThenPages env (mainGraphSettle env st))"

definition processGraphs :: "env \<Rightarrow> app \<Rightarrow> app" where
  "processGraphs env st =
     (let (pend, st1) = processGraphsStart env st
      in processGraphsSettle env pend st1)"

section \<open>Preparation steps run in sequence\<close>

text \<open>
  Modelled from the spec: \<open>promiseSequential\<close> comes from \<open>utils/promise-sequential\<close>, which
  is not part of the sources at hand.  The spec has the stages "executed as an ordered
  list of asynchronous steps", "strictly in sequence", "one at a time": each action is
  started when the one before it has fulfilled; a rejection rejects the whole, and an
  action that never settles leaves the whole unsettled.
\<close>

fun promiseSequential :: "(app \<Rightarrow> outcome \<times> app) list \<Rightarrow> app \<Rightarrow> outcome \<times> app" where
  "promiseSequential [] st = (Resolved, st)"
| "promiseSequential (a # as) st =
     (case a st of
        (Resolved, st1) \<Rightarrow> promiseSequential as st1
      | (Rejected e, st1) \<Rightarrow> (Rejected e, st1)
      | (Pending, st1) \<Rightarrow> (Pending, st1))"

subsection \<open>External includes\<close>

definition additionalPage :: "string \<Rightarrow> string \<Rightarrow> string \<Rightarrow> string \<Rightarrow> nat \<Rightarrow> page" where
  "additionalPage title filename pth markedData depth =
     \<lparr> p_path = Some pth, p_name = title, p_id = title, p_filename = Some filename,
       p_context = ''additional-page'', p_depth = Some depth, p_pageType = Some INTERNAL,
       p_data = AdditionalPage markedData \<rparr>"

text \<open>\<open>loopChild\<close>: a child file that cannot be read is logged, and the loops stop there.\<close>

fun loopChild :: "env \<Rightarrow> string \<Rightarrow> summaryChild list \<Rightarrow> app \<Rightarrow> outcome \<times> app" where
  "loopChild env parentTitle [] st = (Resolved, st)"
| "loopChild env parentTitle (c # cs) st =
     (case getTraditionalMarkdown env (md_includes (mainData st) @ sep env @ sc_file c) of
        Inr markedData \<Rightarrow>
          loopChild env parentTitle cs
            (addAdditionalPage
               (additionalPage (sc_title c)
                  (cleanNameWithoutSpaceAndToLowerCase env (sc_title c))
                  (includesFolder (mainData st) @ ''/''
                     @ cleanNameWithoutSpaceAndToLowerCase env parentTitle)
                  markedData 2) st)
      | Inl e \<Rightarrow> (Pending, logger Error e st))"

fun loopSummary :: "env \<Rightarrow> summaryItem list \<Rightarrow> app \<Rightarrow> outcome \<times> app" where
  "loopSummary env [] st = (Resolved, st)"
| "loopSummary env (s # ss) st =
     (case getTraditionalMarkdown env (md_includes (mainData st) @ sep env @ s_file s) of
        Inr markedData \<Rightarrow>
          (let st1 = addAdditionalPage
                       (additionalPage (s_title s)
                          (cleanNameWithoutSpaceAndToLowerCase env (s_title s))
                          (includesFolder (mainData st)) markedData 1) st
           in if s_children s \<noteq> []
              then (case loopChild env (s_title s) (s_children s) st1 of
                      (Resolved, st2) \<Rightarrow> loopSummary env ss st2
                    | (Rejected e, st2) \<Rightarrow> (Rejected e, st2)
                    | (Pending, st2) \<Rightarrow> (Pending, st2))
              else loopSummary env ss st1)
      | Inl e \<Rightarrow> (Pending, logger Error e st))"

text \<open>
  \<open>prepareExternalIncludes\<close>.  \<open>JSON.parse\<close> of a malformed \<open>summary.json\<close> throws inside a
  promise callback: the promise returned stays unsettled and the rejection is unhandled.
\<close>

definition prepareExternalIncludes :: "env \<Rightarrow> app \<Rightarrow> outcome \<times> app" where
  "prepareExternalIncludes env st =
     (let st0 = logger Info ''Adding external markdown files'' st
      in case fileGet env (cwd env @ sep env @ md_includes (mainData st0) @ sep env
                             @ ''summary.json'') of
           Inr summaryData \<Rightarrow>
             (let st1 = logger Info ''Additional documentation: summary.json file found'' st0
              in case parseSummary env summaryData of
                   None \<Rightarrow> (Pending, unhandledRejection st1)
                 | Some parsedSummaryData \<Rightarrow> loopSummary env parsedSummaryData st1)
         | Inl errorMessage \<Rightarrow>
             (Rejected ''Error during Additional documentation generation'',
              logger Error errorMessage st0))"

subsection \<open>Full build\<close>

text \<open>
  \<open>prepareEverything\<close>: the list of actions, as the source builds it before any of them
  runs, and what follows their outcome.  A rejected \<open>exportEngine.export\<close> has no handler.
\<close>

text \<open>
  The tests \<open>routes && routes.children.length > 0\<close> and \<open>variables.length > 0 ||
  functions.length > 0 || typealiases.length > 0 || enumerations.length > 0\<close>.
\<close>

definition hasRoutes :: "dependenciesEngine \<Rightarrow> bool" where
  "hasRoutes eng \<longleftrightarrow> (case getRoutes eng of None \<Rightarrow> False | Some r \<Rightarrow> children r \<noteq> [])"

definition hasMiscellaneous :: "miscellaneous \<Rightarrow> bool" where
  "hasMiscellaneous misc \<longleftrightarrow>
     misc_variables misc \<noteq> [] \<or> misc_functions misc \<noteq> [] \<or>
     misc_typealiases misc \<noteq> [] \<or> misc_enumerations misc \<noteq> []"

definition everythingActions :: "env \<Rightarrow> app \<Rightarrow> (app \<Rightarrow> outcome \<times> app) list" where
  "everythingActions env st =
     [prepareModules env None, prepareComponents env None]
     @ (if getDirectives (engine st) \<noteq> [] then [prepareDirectives env None] else [])
     @ (if getInjectables (engine st) \<noteq> [] then [prepareInjectables env None] else [])
     @ (if hasRoutes (engine st) then [prepareRoutes env] else [])
     @ (if getPipes (engine st) \<noteq> [] then [preparePipes env None] else [])
     @ (if getClasses (engine st) \<noteq> [] then [prepareClasses env None] else [])
     @ (if getInterfaces (engine st) \<noteq> [] then [prepareInterfaces env None] else [])
     @ (if hasMiscellaneous (getMiscellaneous (engine st))
        then [prepareMiscellaneous env None] else [])
     @ (if \<not> disableCoverage (mainData st) then [prepareCoverage env] else [])
     @ (if md_includes (mainData st) \<noteq> [] then [prepareExternalIncludes env] else [])"

definition prepareEverything :: "env \<Rightarrow> app \<Rightarrow> app" where
  "prepareEverything env st =
     (case promiseSequential (everythingActions env st) st of
        (Resolved, st1) \<Rightarrow>
          if exportFormat (mainData st1) \<noteq> defaultExportFormat env
          then (if exportFormat (mainData st1) \<in> set (exportFormatsSupported env)
                then (let st2 = emit ExportStart
                                  (logger Info (''Generating documentation in export format ''
                                                  @ exportFormat (mainData st1)) st1)
                      in case exportEngine env (md_output (mainData st2)) of
                           None \<Rightarrow>
                             logger Info (''Documentation generated in '' @ md_output (mainData st2))
                               (endCallback (generationPromiseResolve st2))
                         | Some e \<Rightarrow> unhandledRejection st2)
                else logger Warn ''Exported format not supported'' st1)
          else processGraphs env st1
      | (Rejected errorMessage, st1) \<Rightarrow> logger Error errorMessage st1
      | (Pending, st1) \<Rightarrow> st1)"

definition printStatistics :: "app \<Rightarrow> app" where
  "printStatistics st =
     (let eng = engine st;
          stat = (\<lambda>label n s. if n > 0 then emit (Stat label n) s else s);
          st1 = logger Info ''Project statistics '' (logger Info ''-------------------'' st);
          st2 = stat ''- module     : '' (length (getModules eng)) st1;
          st3 = stat ''- component  : '' (length (getComponents eng)) st2;
          st4 = stat ''- directive  : '' (length (getDirectives eng)) st3;
          st5 = stat ''- injectable : '' (length (getInjectables eng)) st4;
          st6 = stat ''- pipe       : '' (length (getPipes eng)) st5;
          st7 = stat ''- class      : '' (length (getClasses eng)) st6;
          st8 = stat ''- interface  : '' (length (getInterfaces eng)) st7;
          st9 = stat ''- route      : '' (routesLength (mainData st)) st8
      in logger Info ''-------------------'' st9)"

definition getDependenciesData :: "env \<Rightarrow> app \<Rightarrow> app" where
  "getDependenciesData env st =
     (let st0 = logger Info ''Get dependencies data'' st;
          dependenciesData = crawl env (files st0);
          st1 = st0\<lparr>engine := engineInit env dependenciesData\<rparr>;
          st2 = st1\<lparr>mainData := (mainData st1)\<lparr>routesLength := routerRoutesLength env\<rparr>\<rparr>
      in prepareEverything env (printStatistics st2))"

subsection \<open>Root markdown files and package.json\<close>

text \<open>The five names of \<open>processMarkdowns\<close>, each with its \<open>toUpperCase()\<close>.\<close>

definition markdownNames :: "(string \<times> string) list" where
  "markdownNames =
     [(''readme'', ''README''), (''changelog'', ''CHANGELOG''),
      (''contributing'', ''CONTRIBUTING''), (''license'', ''LICENSE''), (''todo'', ''TODO'')]"

fun loopMarkdowns :: "env \<Rightarrow> (string \<times> string) list \<Rightarrow> app \<Rightarrow> app" where
  "loopMarkdowns env [] st = st"
| "loopMarkdowns env ((nm, upper) # rest) st =
     (case getTraditionalMarkdown env upper of
        Inr readmeData \<Rightarrow>
          (let st1 = addPage
                       \<lparr> p_path = None, p_name = (if nm = ''readme'' then ''index'' else nm),
                         p_id = ''getting-started'', p_filename = None,
                         p_context = ''getting-started'', p_depth = Some 0,
                         p_pageType = Some ROOT, p_data = Markdown readmeData \<rparr> st;
               st2 = (if nm = ''readme''
                      then addPage
                             \<lparr> p_path = None, p_name = ''overview'', p_id = ''overview'',
                               p_filename = None, p_context = ''overview'', p_depth = None,
                               p_pageType = Some ROOT, p_data = NoData \<rparr>
                             (st1\<lparr>mainData := (mainData st1)\<lparr>readme := True\<rparr>\<rparr>)
                      else st1\<lparr>mainData := (mainData st1)\<lparr>markdowns :=
                             markdowns (mainData st1) @ [\<lparr> md_name = nm, md_uppername = upper \<rparr>]\<rparr>\<rparr>)
           in loopMarkdowns env rest (logger Info (upper @ ''.md file found'') st2))
      | Inl errorMessage \<Rightarrow>
          (let st1 = logger Warn (''Continuing without '' @ upper @ ''.md file'')
                       (logger Warn errorMessage st);
               st2 = (if nm = ''readme''
                      then addPage
                             \<lparr> p_path = None, p_name = ''index'', p_id = ''index'',
                               p_filename = None, p_context = ''overview'', p_depth = None,
                               p_pageType = None, p_data = NoData \<rparr> st1
                      else st1)
           in loopMarkdowns env rest st2))"

definition processMarkdowns :: "env \<Rightarrow> app \<Rightarrow> outcome \<times> app" where
  "processMarkdowns env st =
     (Resolved,
      loopMarkdowns env markdownNames
        (logger Info ''Searching README.md, CHANGELOG.md, CONTRIBUTING.md, LICENSE.md, TODO.md files'' st))"

text \<open>
  \<open>processPackageJson\<close>.  \<open>JSON.parse\<close> of a malformed file throws inside a promise
  callback.  The Angular version read from the file is not modelled.
\<close>

definition afterPackageJson :: "env \<Rightarrow> app \<Rightarrow> app" where
  "afterPackageJson env st =
     (case processMarkdowns env st of
        (Resolved, st1) \<Rightarrow> getDependenciesData env st1
      | (Rejected errorMessage, st1) \<Rightarrow> logger Error errorMessage st1
      | (Pending, st1) \<Rightarrow> st1)"

definition processPackageJson :: "env \<Rightarrow> app \<Rightarrow> app" where
  "processPackageJson env st =
     (let st0 = logger Info ''Searching package.json file'' st
      in case fileGet env (cwd env @ sep env @ ''package.json'') of
           Inr packageData \<Rightarrow>
             (case parsePackage env packageData of
                None \<Rightarrow> unhandledRejection st0
              | Some parsedData \<Rightarrow>
                  (let st1 = (case pkg_name parsedData of
                                Some n \<Rightarrow>
                                  if documentationMainName (mainData st0) = defaultTitle env
                                  then st0\<lparr>mainData := (mainData st0)
                                         \<lparr>documentationMainName := n @ '' documentation''\<rparr>\<rparr>
                                  else st0
                              | None \<Rightarrow> st0);
                       st2 = (case pkg_description parsedData of
                                Some d \<Rightarrow> st1\<lparr>mainData := (mainData st1)
                                           \<lparr>documentationMainDescription := d\<rparr>\<rparr>
                              | None \<Rightarrow> st1)
                   in afterPackageJson env (logger Info ''package.json file found'' st2)))
         | Inl errorMessage \<Rightarrow>
             afterPackageJson env
               (logger Error ''Continuing without package.json file''
                  (logger Error errorMessage st0)))"

text \<open>
  \<open>generate()\<close>: the two listeners are registered first.  A rejected \<open>htmlEngine.init()\<close>
  has no handler.
\<close>

definition generate :: "env \<Rightarrow> app \<Rightarrow> app" where
  "generate env st =
     (let st1 = installListeners st;
          out = md_output (mainData st1);
          st2 = (if out = [] \<or> last out \<noteq> CHR ''/''
                 then st1\<lparr>mainData := (mainData st1)\<lparr>md_output := out @ ''/''\<rparr>\<rparr>
                 else st1)
      in if exportFormat (mainData st2) \<noteq> defaultExportFormat env
         then processPackageJson env st2
         else (case htmlInit env of
                 None \<Rightarrow> processPackageJson env st2
               | Some e \<Rightarrow> unhandledRejection st2))"

section \<open>Watch mode\<close>

definition setFiles :: "string list \<Rightarrow> app \<Rightarrow> app" where
  "setFiles fs st = st\<lparr>files := Some fs\<rparr>"

definition setUpdatedFiles :: "string list \<Rightarrow> app \<Rightarrow> app" where
  "setUpdatedFiles fs st = st\<lparr>updatedFiles := fs\<rparr>"

text \<open>\<open>_.forEach\<close> with a callback that sets \<open>result\<close>: a left fold over the files.\<close>

definition hasWatchedFilesTSFiles :: "env \<Rightarrow> app \<Rightarrow> bool" where
  "hasWatchedFilesTSFiles env st =
     foldl (\<lambda>result file. if extname env file = ''.ts'' then True else result)
       False (updatedFiles st)"

definition hasWatchedFilesRootMarkdownFiles :: "env \<Rightarrow> app \<Rightarrow> bool" where
  "hasWatchedFilesRootMarkdownFiles env st =
     foldl (\<lambda>result file.
              if extname env file = ''.md'' \<and> dirname env file = cwd env then True else result)
       False (updatedFiles st)"

definition clearUpdatedFiles :: "app \<Rightarrow> app" where
  "clearUpdatedFiles st = (emit ClearUpdatedFiles st)\<lparr>updatedFiles := [], watchChangedFiles := []\<rparr>"

text \<open>
  \<open>prepareJustAFewThings(diffCrawledData)\<close>.  In the \<open>then\<close> callback \<open>processGraphs()\<close>
  returns after its synchronous part, \<open>clearUpdatedFiles()\<close> runs next, and the promise
  callbacks of \<open>processGraphs\<close> run after that.
\<close>

definition justAFewActions :: "env \<Rightarrow> crawlResult \<Rightarrow> app \<Rightarrow> (app \<Rightarrow> outcome \<times> app) list" where
  "justAFewActions env diffCrawledData st =
     [prepareRoutes env]
     @ (if getModules diffCrawledData \<noteq> [] then [prepareModules env None] else [])
     @ (if getComponents diffCrawledData \<noteq> [] then [prepareComponents env None] else [])
     @ (if getDirectives diffCrawledData \<noteq> [] then [prepareDirectives env None] else [])
     @ (if getInjectables diffCrawledData \<noteq> [] then [prepareInjectables env None] else [])
     @ (if getPipes diffCrawledData \<noteq> [] then [preparePipes env None] else [])
     @ (if getClasses diffCrawledData \<noteq> [] then [prepareClasses env None] else [])
     @ (if getInterfaces diffCrawledData \<noteq> [] then [prepareInterfaces env None] else [])
     @ (if hasMiscellaneous (getMiscellaneous diffCrawledData)
        then [prepareMiscellaneous env None] else [])
     @ (if \<not> disableCoverage (mainData st) then [prepareCoverage env] else [])"

definition prepareJustAFewThings :: "env \<Rightarrow> crawlResult \<Rightarrow> app \<Rightarrow> app" where
  "prepareJustAFewThings env diffCrawledData st =
     (let st0 = resetPages st
      in case promiseSequential (justAFewActions env diffCrawledData st0) st0 of
           (Resolved, st1) \<Rightarrow>
             (let (pend, st2) = processGraphsStart env st1;
                  st3 = clearUpdatedFiles st2
              in processGraphsSettle env pend st3)
         | (Rejected errorMessage, st1) \<Rightarrow> logger Error errorMessage st1
         | (Pending, st1) \<Rightarrow> st1)"

definition getMicroDependenciesData :: "env \<Rightarrow> app \<Rightarrow> app" where
  "getMicroDependenciesData env st =
     (let st0 = logger Info ''Get diff dependencies data'' st;
          dependenciesData = crawl env (Some (updatedFiles st0));
          st1 = st0\<lparr>engine := engineUpdate env (engine st0) dependenciesData\<rparr>
      in prepareJustAFewThings env dependenciesData st1)"

text \<open>
  \<open>rebuildRootMarkdowns\<close> and \<open>rebuildExternalDocumentation\<close>: in the \<open>then\<close> callback
  \<open>processPages()\<close> returns after its synchronous part and \<open>clearUpdatedFiles()\<close> runs next.
\<close>

definition pagesThenClear :: "env \<Rightarrow> (app \<Rightarrow> outcome \<times> app) list \<Rightarrow> app \<Rightarrow> app" where
  "pagesThenClear env actions st =
     (case promiseSequential actions st of
        (Resolved, st1) \<Rightarrow>
          (let (jobs, st2) = processPagesStart env st1;
               st3 = clearUpdatedFiles st2
           in processPagesSettle env jobs st3)
      | (Rejected errorMessage, st1) \<Rightarrow> logger Error errorMessage st1
      | (Pending, st1) \<Rightarrow> st1)"

definition rebuildRootMarkdowns :: "env \<Rightarrow> app \<Rightarrow> app" where
  "rebuildRootMarkdowns env st =
     (let st0 = logger Info
                  ''Regenerating README.md, CHANGELOG.md, CONTRIBUTING.md, LICENSE.md, TODO.md pages'' st;
          st1 = st0\<lparr>pages := resetRootMarkdownPages env (pages st0)\<rparr>
      in pagesThenClear env [processMarkdowns env] st1)"

definition rebuildExternalDocumentation :: "env \<Rightarrow> app \<Rightarrow> app" where
  "rebuildExternalDocumentation env st =
     (let st0 = logger Info ''Rebuild external documentation'' st;
          st1 = resetAdditionalPages st0
      in pagesThenClear env
           (if md_includes (mainData st1) \<noteq> [] then [prepareExternalIncludes env] else []) st1)"

text \<open>
  The \<open>change\<close> handler of the watcher collects the file; \<open>runnerChange\<close> runs when the
  debounce timer fires (the timers themselves are not modelled).
\<close>

definition watcherChange :: "env \<Rightarrow> string \<Rightarrow> app \<Rightarrow> app" where
  "watcherChange env file st =
     (let st1 = logger Debug (''File '' @ file @ '' has been changed'') st
      in if extname env file = ''.ts'' \<or> extname env file = ''.md'' \<or> extname env file = ''.json''
         then st1\<lparr>watchChangedFiles :=
                    watchChangedFiles st1 @ [pathJoin env (cwd env @ sep env @ file)]\<rparr>
         else st1)"

definition runnerChange :: "env \<Rightarrow> app \<Rightarrow> app" where
  "runnerChange env st =
     (let st1 = setUpdatedFiles (watchChangedFiles st) st
      in if hasWatchedFilesTSFiles env st1 then getMicroDependenciesData env st1
         else if hasWatchedFilesRootMarkdownFiles env st1 then rebuildRootMarkdowns env st1
         else rebuildExternalDocumentation env st1)"

definition runnerAddAndRemove :: "env \<Rightarrow> app \<Rightarrow> app" where
  "runnerAddAndRemove env st = generate env st"

section \<open>Notions used in the statements\<close>

subsection \<open>Item loops\<close>

text \<open>What the README step of an item loop does to one item, and what the loop logs.\<close>

definition attachReadme :: "env \<Rightarrow> ('a \<Rightarrow> string) \<Rightarrow> (string \<Rightarrow> 'a \<Rightarrow> 'a) \<Rightarrow> 'a \<Rightarrow> 'a" where
  "attachReadme env fileOf setReadme x =
     (if hasNeighbourReadmeFile env (fileOf x)
      then setReadme (marked env (readNeighbourReadmeFile env (fileOf x))) x else x)"

definition readmeLogs :: "env \<Rightarrow> ('a \<Rightarrow> string) \<Rightarrow> ('a \<Rightarrow> string) \<Rightarrow> 'a list \<Rightarrow> event list" where
  "readmeLogs env fileOf nameOf xs =
     concat (map (\<lambda>x. if hasNeighbourReadmeFile env (fileOf x)
                       then [Log Info ('' '' @ nameOf x @ '' has a README file, include it'')]
                       else []) xs)"

subsection \<open>Module references\<close>

text \<open>
  The kinds the \<open>switch\<close> of \<open>prepareModules\<close> has a case for; and, in the words of the
  spec, a reference being valid: "a same-named, same-kind entry exists in the collection".
\<close>

definition knownKind :: "string \<Rightarrow> bool" where
  "knownKind k \<longleftrightarrow> k = ''directive'' \<or> k = ''component'' \<or> k = ''module'' \<or> k = ''pipe''"

definition hasEntryOfKind :: "dependenciesEngine \<Rightarrow> metaDataItem \<Rightarrow> bool" where
  "hasEntryOfKind eng it =
     (if item_type it = ''directive'' then list_ex (\<lambda>x. e_name x = item_name it) (getDirectives eng)
      else if item_type it = ''component'' then list_ex (\<lambda>x. c_name x = item_name it) (getComponents eng)
      else if item_type it = ''module'' then list_ex (\<lambda>x. m_name x = item_name it) (getModules eng)
      else if item_type it = ''pipe'' then list_ex (\<lambda>x. e_name x = item_name it) (getPipes eng)
      else if item_type it = ''injectable'' then list_ex (\<lambda>x. e_name x = item_name it) (getInjectables eng)
      else if item_type it = ''class'' then list_ex (\<lambda>x. e_name x = item_name it) (getClasses eng)
      else if item_type it = ''interface'' then list_ex (\<lambda>x. e_name x = item_name it) (getInterfaces eng)
      else False)"

definition relationItems :: "ngModule \<Rightarrow> metaDataItem list" where
  "relationItems m = m_declarations m @ m_bootstrap m @ m_imports m @ m_exports m"

definition referencesValid :: "dependenciesEngine \<Rightarrow> ngModule \<Rightarrow> bool" where
  "referencesValid eng m \<longleftrightarrow>
     list_all (hasEntryOfKind eng) (relationItems m) \<and>
     list_all (\<lambda>p. list_ex (\<lambda>x. e_name x = item_name p) (getInjectables eng)) (m_providers m)"

subsection \<open>Events by stage\<close>

text \<open>
  The stage of the pipeline an event belongs to, and the events a run has added to the
  trace of the state it started from.
\<close>

datatype stage =
  Logging | Preparation | GraphStage | RenderStart | RenderSettle | IndexPersist
  | Finalization | Fatal | Watching

fun stageOf :: "event \<Rightarrow> stage" where
  "stageOf (Log l msg) = Logging"
| "stageOf (Stat label n) = Logging"
| "stageOf (Console msg) = Fatal"
| "stageOf UnhandledRejection = Fatal"
| "stageOf (ProcessExit code) = Fatal"
| "stageOf ListenersAdded = Preparation"
| "stageOf RoutesIndex = Preparation"
| "stageOf (GraphInit p) = GraphStage"
| "stageOf (RenderGraph f out mode nm) = GraphStage"
| "stageOf (ReadGraph p nm) = GraphStage"
| "stageOf (IndexPage u) = RenderStart"
| "stageOf (WriteStart p) = RenderStart"
| "stageOf (WriteSettled p ok) = RenderSettle"
| "stageOf (PersistIndex ok) = IndexPersist"
| "stageOf (CopyStart s d) = Finalization"
| "stageOf ExportStart = Finalization"
| "stageOf (ServerStart folder) = Finalization"
| "stageOf WatchStart = Finalization"
| "stageOf ListenersRemoved = Finalization"
| "stageOf GenerationResolved = Finalization"
| "stageOf GenerationRejected = Finalization"
| "stageOf ClearUpdatedFiles = Watching"

text \<open>
  \<open>appends P st st'\<close>: the trace of \<open>st'\<close> is the trace of \<open>st\<close> followed by events that all
  satisfy \<open>P\<close>; \<open>inStages S\<close> holds of the events of the stages in \<open>S\<close>.
\<close>

definition appends :: "(event \<Rightarrow> bool) \<Rightarrow> app \<Rightarrow> app \<Rightarrow> bool" where
  "appends P st st' \<longleftrightarrow> (\<exists>T. trace st' = trace st @ T \<and> list_all P T)"

definition inStages :: "stage set \<Rightarrow> event \<Rightarrow> bool" where
  "inStages S e \<longleftrightarrow> stageOf e \<in> S"

text \<open>The stages after the graph stage, with logging and fatal errors.\<close>

definition laterStages :: "stage set" where
  "laterStages = {Logging, RenderStart, RenderSettle, IndexPersist, Finalization, Fatal}"

definition newEvents :: "app \<Rightarrow> app \<Rightarrow> event list" where
  "newEvents st st' = drop (length (trace st)) (trace st')"

subsection \<open>Render stage\<close>

text \<open>
  For a page under a given \<open>mainData\<close>: the document \<open>processPage\<close> submits to the search
  index, the write it starts, the events of its synchronous part, and whether the file
  write fails.
\<close>

definition docOf :: "env \<Rightarrow> mainData \<Rightarrow> page \<Rightarrow> indexDoc" where
  "docOf env md p = \<lparr> infos = p, rawData = htmlRender env md p, url = finalPathOf md p \<rparr>"

definition jobOf :: "env \<Rightarrow> mainData \<Rightarrow> page \<Rightarrow> writeJob" where
  "jobOf env md p =
     \<lparr> job_name = p_name p, job_path = finalPathOf md p, job_html = htmlRender env md p \<rparr>"

definition pageStartEvents :: "mainData \<Rightarrow> page \<Rightarrow> event list" where
  "pageStartEvents md p =
     [Log Info (''Process page '' @ p_name p), IndexPage (finalPathOf md p),
      WriteStart (finalPathOf md p)]"

definition writeFails :: "env \<Rightarrow> mainData \<Rightarrow> page \<Rightarrow> bool" where
  "writeFails env md p \<longleftrightarrow> \<not> fileWrite env (finalPathOf md p) (htmlRender env md p)"

text \<open>In the words of the spec: the persisted search index contains the content of a page.\<close>

definition persistedContains :: "app \<Rightarrow> string \<Rightarrow> bool" where
  "persistedContains st pageName \<longleftrightarrow>
     (case persistedIndex st of
        None \<Rightarrow> False
      | Some docs \<Rightarrow> list_ex (\<lambda>d. p_name (infos d) = pageName) docs)"

subsection \<open>Graph stage\<close>

text \<open>
  For a module, under a given output path and collection: whether the loop of
  \<open>processGraphs\<close> calls the renderer for it (its raw record has a non-empty relation list);
  whether the loop gets past it (nothing to render, or render and read both succeed); whether
  its render or its read fails; the call of the renderer; and the events and the graph
  that a module the loop gets past leaves.
\<close>

definition rendersGraph :: "dependenciesEngine \<Rightarrow> ngModule \<Rightarrow> bool" where
  "rendersGraph eng m \<longleftrightarrow>
     (case getRawModule eng (m_name m) of None \<Rightarrow> False | Some raw \<Rightarrow> hasRelations raw)"

definition graphSvg :: "env \<Rightarrow> mainData \<Rightarrow> ngModule \<Rightarrow> string" where
  "graphSvg env md m = resolve env (moduleGraphPath md m @ sep env @ ''dependencies.svg'')"

definition moduleGraphSucceeds :: "env \<Rightarrow> mainData \<Rightarrow> dependenciesEngine \<Rightarrow> ngModule \<Rightarrow> bool" where
  "moduleGraphSucceeds env md eng m \<longleftrightarrow>
     (case getRawModule eng (m_name m) of
        None \<Rightarrow> False
      | Some raw \<Rightarrow>
          \<not> hasRelations raw \<or>
          (renderGraph env (m_file m) (moduleGraphPath md m) ''f'' (Some (m_name m)) = None \<and>
           \<not> isl (readGraph env (graphSvg env md m) (m_name m))))"

definition moduleGraphFails :: "env \<Rightarrow> mainData \<Rightarrow> dependenciesEngine \<Rightarrow> ngModule \<Rightarrow> bool" where
  "moduleGraphFails env md eng m \<longleftrightarrow>
     rendersGraph eng m \<and>
     (renderGraph env (m_file m) (moduleGraphPath md m) ''f'' (Some (m_name m)) \<noteq> None \<or>
      isl (readGraph env (graphSvg env md m) (m_name m)))"

text \<open>
  The modules of a list that the loop reaches: those it gets past, up to and including the
  first one it does not get past.
\<close>

definition reachedModules :: "env \<Rightarrow> mainData \<Rightarrow> dependenciesEngine \<Rightarrow> ngModule list \<Rightarrow> ngModule list" where
  "reachedModules env md eng ms =
     takeWhile (moduleGraphSucceeds env md eng) ms
       @ take 1 (dropWhile (moduleGraphSucceeds env md eng) ms)"

definition moduleRenderEvent :: "mainData \<Rightarrow> ngModule \<Rightarrow> event" where
  "moduleRenderEvent md m =
     RenderGraph (m_file m) (moduleGraphPath md m) ''f'' (Some (m_name m))"

definition mainRenderEvent :: "env \<Rightarrow> mainData \<Rightarrow> event" where
  "mainRenderEvent env md = RenderGraph (tsconfig md) (resolve env (mainGraphPath md)) ''p'' None"

fun isRenderGraph :: "event \<Rightarrow> bool" where
  "isRenderGraph (RenderGraph f out mode nm) = True"
| "isRenderGraph e = False"

definition moduleGraphEvents :: "env \<Rightarrow> mainData \<Rightarrow> dependenciesEngine \<Rightarrow> ngModule \<Rightarrow> event list" where
  "moduleGraphEvents env md eng m =
     Log Info (''Process module graph '' @ m_name m)
     # (if rendersGraph eng m
        then [moduleRenderEvent md m, ReadGraph (graphSvg env md m) (m_name m)] else [])"

definition withGraph :: "env \<Rightarrow> mainData \<Rightarrow> dependenciesEngine \<Rightarrow> ngModule \<Rightarrow> ngModule" where
  "withGraph env md eng m =
     (if rendersGraph eng m
      then (case readGraph env (graphSvg env md m) (m_name m) of
              Inr data \<Rightarrow> m\<lparr>m_graph := Some data\<rparr>
            | Inl err \<Rightarrow> m)
      else m)"

text \<open>The error logged for a module whose render or read fails.\<close>

definition moduleGraphError :: "env \<Rightarrow> mainData \<Rightarrow> ngModule \<Rightarrow> string" where
  "moduleGraphError env md m =
     (case renderGraph env (m_file m) (moduleGraphPath md m) ''f'' (Some (m_name m)) of
        Some errorMessage \<Rightarrow> errorMessage
      | None \<Rightarrow>
          (case readGraph env (graphSvg env md m) (m_name m) of
             Inl err \<Rightarrow> ''Error during graph read: '' @ err
           | Inr data \<Rightarrow> []))"

text \<open>Whether the whole-project graph fails, at the render or at the read.\<close>

definition mainGraphFails :: "env \<Rightarrow> mainData \<Rightarrow> bool" where
  "mainGraphFails env md \<longleftrightarrow>
     renderGraph env (tsconfig md) (resolve env (mainGraphPath md)) ''p'' None \<noteq> None \<or>
     isl (readGraph env (resolve env (mainGraphPath md @ sep env @ ''dependencies.svg''))
              ''Main graph'')"

text \<open>The events of the synchronous part of \<open>processGraphs\<close> with graphs enabled.\<close>

definition graphStart :: "env \<Rightarrow> mainData \<Rightarrow> event list" where
  "graphStart env md =
     [Log Info ''Process main graph'', GraphInit (resolve env (mainGraphPath md)),
      mainRenderEvent env md]"


subsection \<open>Components and their templates\<close>

text \<open>
  For a component: the path \<open>handleTemplateurl\<close> reads; whether the loop of
  \<open>prepareComponents\<close> gets past the component (no \<open>templateUrl\<close>, or the file exists and is
  read); the component as the loop leaves it then; the events of that; and what is logged
  when the template cannot be resolved.
\<close>

definition templatePathOf :: "env \<Rightarrow> component \<Rightarrow> string" where
  "templatePathOf env c = resolve env (dirname env (c_file c) @ sep env @ templateUrl c)"

definition templateResolves :: "env \<Rightarrow> component \<Rightarrow> bool" where
  "templateResolves env c \<longleftrightarrow>
     templateUrl c = [] \<or>
     (existsSync env (templatePathOf env c) \<and> \<not> isl (fileGet env (templatePathOf env c)))"

definition withReadme :: "env \<Rightarrow> component \<Rightarrow> component" where
  "withReadme env c =
     (if hasNeighbourReadmeFile env (c_file c)
      then c\<lparr>c_readme := Some (marked env (readNeighbourReadmeFile env (c_file c)))\<rparr> else c)"

definition preparedComponent :: "env \<Rightarrow> component \<Rightarrow> component" where
  "preparedComponent env c =
     (if templateUrl c = [] then withReadme env c
      else (case fileGet env (templatePathOf env c) of
              Inr data \<Rightarrow> (withReadme env c)\<lparr>templateData := Some data\<rparr>
            | Inl err \<Rightarrow> withReadme env c))"

definition componentEvents :: "env \<Rightarrow> component \<Rightarrow> event list" where
  "componentEvents env c =
     (if hasNeighbourReadmeFile env (c_file c)
      then [Log Info ('' '' @ c_name c @ '' has a README file, include it'')] else [])
     @ (if templateUrl c \<noteq> []
        then [Log Info ('' '' @ c_name c @ '' has a templateUrl, include it'')] else [])"

definition templateErrors :: "env \<Rightarrow> component \<Rightarrow> event list" where
  "templateErrors env c =
     (if \<not> existsSync env (templatePathOf env c)
      then [Log Error (''Cannot read template for '' @ c_name c)]
      else (case fileGet env (templatePathOf env c) of
              Inl err \<Rightarrow> [Log Error err, Log Error []]
            | Inr data \<Rightarrow> []))"

subsection \<open>The planned pages\<close>

text \<open>
  The pages that the preparation steps of a full build add for a collection, section by
  section, in the order of \<open>prepareEverything\<close>.
\<close>

definition indexed :: "('a \<Rightarrow> nat \<Rightarrow> page) \<Rightarrow> nat \<Rightarrow> 'a list \<Rightarrow> page list" where
  "indexed mk i xs = map (\<lambda>(j, x). mk x j) (enumerate i xs)"

definition modulePages :: "ngModule list \<Rightarrow> page list" where
  "modulePages ms = indexed modulePage 0 ms"

definition componentPages :: "component list \<Rightarrow> page list" where
  "componentPages cs = indexed componentPage 0 cs"

definition entryPages :: "string \<Rightarrow> string \<Rightarrow> (nat \<Rightarrow> pageData) \<Rightarrow> entry list \<Rightarrow> page list" where
  "entryPages section ctx ref es = indexed (itemPage section ctx ref) 0 es"

definition miscPages :: "miscellaneous \<Rightarrow> page list" where
  "miscPages misc =
     (if misc_functions misc \<noteq> [] then [miscPage ''functions''] else [])
     @ (if misc_variables misc \<noteq> [] then [miscPage ''variables''] else [])
     @ (if misc_typealiases misc \<noteq> [] then [miscPage ''typealiases''] else [])
     @ (if misc_enumerations misc \<noteq> [] then [miscPage ''enumerations''] else [])"

definition plannedPages :: "dependenciesEngine \<Rightarrow> page list" where
  "plannedPages eng =
     modulesRootPage # modulePages (getModules eng)
     @ componentPages (getComponents eng)
     @ entryPages ''directives'' ''directive'' DirectiveRef (getDirectives eng)
     @ entryPages ''injectables'' ''injectable'' InjectableRef (getInjectables eng)
     @ (if hasRoutes eng then [routesRootPage] else [])
     @ entryPages ''pipes'' ''pipe'' PipeRef (getPipes eng)
     @ entryPages ''classes'' ''class'' ClassRef (getClasses eng)
     @ entryPages ''interfaces'' ''interface'' InterfaceRef (getInterfaces eng)
     @ miscPages (getMiscellaneous eng)"

text \<open>
  \<open>planned st ps evs\<close>: the state \<open>st\<close> with the pages \<open>ps\<close> added and the events \<open>evs\<close>
  appended.  \<open>plans a P\<close>: the step \<open>a\<close> leaves the collection alone and, when it resolves, has added
  the pages \<open>P\<close> of the collection to the page list.
\<close>

definition planned :: "app \<Rightarrow> page list \<Rightarrow> event list \<Rightarrow> app" where
  "planned st ps evs = st\<lparr>pages := pages st @ ps, trace := trace st @ evs\<rparr>"

definition plans :: "(app \<Rightarrow> outcome \<times> app) \<Rightarrow> (dependenciesEngine \<Rightarrow> page list) \<Rightarrow> bool" where
  "plans a P \<longleftrightarrow>
     (\<forall>st. engine (snd (a st)) = engine st \<and>
           (fst (a st) = Resolved \<longrightarrow> pages (snd (a st)) = pages st @ P (engine st)))"

text \<open>
  \<open>prepares st st'\<close>: from \<open>st\<close> to \<open>st'\<close> only pages, \<open>mainData\<close> and the exit code may have
  changed, and the events added are log lines, events of the preparation, or those of a
  fatal error.
\<close>

definition prepares :: "app \<Rightarrow> app \<Rightarrow> bool" where
  "prepares st st' \<longleftrightarrow>
     appends (inStages {Logging, Preparation, Fatal}) st st' \<and>
     engine st' = engine st \<and> files st' = files st \<and>
     updatedFiles st' = updatedFiles st \<and> watchChangedFiles st' = watchChangedFiles st \<and>
     isWatching st' = isWatching st \<and> searchIndex st' = searchIndex st \<and>
     persistedIndex st' = persistedIndex st \<and> written st' = written st \<and>
     unhandledRejectionListeners st' = unhandledRejectionListeners st \<and>
     uncaughtExceptionListeners st' = uncaughtExceptionListeners st \<and>
     generationPromise st' = generationPromise st"

text \<open>\<open>preparation a\<close>: the step \<open>a\<close> is a preparation step, from every state.\<close>

definition preparation :: "(app \<Rightarrow> outcome \<times> app) \<Rightarrow> bool" where
  "preparation a \<longleftrightarrow> (\<forall>st. prepares st (snd (a st)))"

subsection \<open>Watch rebuilds\<close>

text \<open>
  \<open>clearsBetween st st'\<close>, of a run from \<open>st\<close> to \<open>st'\<close>: no write has settled, the search
  index has not been persisted and no finalization step has run before the changed files
  are cleared; no preparation step runs after that; and if they are never cleared, they
  are left as they were.
\<close>

definition clearsBetween :: "app \<Rightarrow> app \<Rightarrow> bool" where
  "clearsBetween st st' \<longleftrightarrow>
     (\<forall>e\<in>set (takeWhile (\<lambda>e. e \<noteq> ClearUpdatedFiles) (newEvents st st')).
        stageOf e \<notin> {RenderSettle, IndexPersist, Finalization}) \<and>
     (\<forall>e\<in>set (dropWhile (\<lambda>e. e \<noteq> ClearUpdatedFiles) (newEvents st st')).
        stageOf e \<noteq> Preparation) \<and>
     (ClearUpdatedFiles \<notin> set (newEvents st st') \<longrightarrow>
        updatedFiles st' = updatedFiles st \<and> watchChangedFiles st' = watchChangedFiles st)"

section \<open>Example inputs\<close>

text \<open>
  A small environment and state on which the definitions can be run.  \<open>extnameExample\<close>
  and \<open>dirnameExample\<close> read the extension after the last dot and the directory before the
  last slash, which is what \<open>path.extname\<close> and \<open>path.dirname\<close> give on the paths used here.
\<close>

definition extnameExample :: "string \<Rightarrow> string" where
  "extnameExample f =
     (if CHR ''.'' \<in> set f then CHR ''.'' # rev (takeWhile (\<lambda>c. c \<noteq> CHR ''.'') (rev f)) else [])"

definition dirnameExample :: "string \<Rightarrow> string" where
  "dirnameExample f = rev (drop 1 (dropWhile (\<lambda>c. c \<noteq> CHR ''/'') (rev f)))"

definition emptyEngine :: dependenciesEngine where
  "emptyEngine =
     \<lparr> getModules = [], getRawModule = (\<lambda>n. None), getComponents = [], getDirectives = [],
       getInjectables = [], getPipes = [], getClasses = [], getInterfaces = [],
       getMiscellaneous = \<lparr> misc_variables = [], misc_functions = [], misc_typealiases = [],
                            misc_enumerations = [] \<rparr>,
       getRoutes = None \<rparr>"

definition exampleEnv :: env where
  "exampleEnv =
     \<lparr> cwd = ''/proj'', sep = ''/'', moduleDirname = ''/tool/dist'',
       extname = extnameExample, dirname = dirnameExample,
       resolve = (\<lambda>p. p), pathJoin = (\<lambda>p. p),
       strMatch = (\<lambda>s pat. False), strReplace = (\<lambda>s pat by. s),
       defaultExportFormat = ''html'', exportFormatsSupported = [''json''],
       defaultTitle = ''Application documentation'',
       hasNeighbourReadmeFile = (\<lambda>f. False), readNeighbourReadmeFile = (\<lambda>f. []),
       marked = (\<lambda>s. s),
       getTraditionalMarkdown = (\<lambda>f. Inl (''Error during '' @ f @ '' read'')),
       existsSync = (\<lambda>p. False), fileGet = (\<lambda>p. Inl (''Error during '' @ p @ '' read'')),
       fileWrite = (\<lambda>p html. True), fsCopy = (\<lambda>s d. None),
       parsePackage = (\<lambda>s. None), parseSummary = (\<lambda>s. None),
       cleanNameWithoutSpaceAndToLowerCase = (\<lambda>s. s),
       findMainSourceFolder = (\<lambda>fs. ''src''),
       htmlInit = None, htmlRender = (\<lambda>md p. ''<html>'' @ p_name p @ ''</html>''),
       generateSearchIndexJson = (\<lambda>out. None), generateRoutesIndex = (\<lambda>out r. None),
       coverageCalculate = Resolved, exportEngine = (\<lambda>out. None),
       renderGraph = (\<lambda>f out mode nm. None), readGraph = (\<lambda>p nm. Inr ''<svg/>''),
       crawl = (\<lambda>fs. emptyEngine), engineInit = (\<lambda>c. c), engineUpdate = (\<lambda>e c. e),
       routerRoutesLength = 0, resetRootMarkdownPages = (\<lambda>ps. ps) \<rparr>"

definition exampleMainData :: mainData where
  "exampleMainData =
     \<lparr> md_output = ''out/'', exportFormat = ''html'', md_includes = [], includesFolder = [],
       assetsFolder = [], disableGraph = False, disableMainGraph = False,
       disableCoverage = True, serve = False, watch = False, extTheme = [],
       customFavicon = [], tsconfig = ''tsconfig.json'',
       documentationMainName = ''Application documentation'',
       documentationMainDescription = [], readme = False, markdowns = [], modules = [],
       components = [], directives = [], injectables = [], pipes = [], classes = [],
       interfaces = [],
       md_miscellaneous = \<lparr> misc_variables = [], misc_functions = [], misc_typealiases = [],
                            misc_enumerations = [] \<rparr>,
       routes = None, routesLength = 0, additionalPages = [], mainGraph = None \<rparr>"

definition exampleApp :: app where
  "exampleApp =
     \<lparr> pages = [], mainData = exampleMainData, engine = emptyEngine, files = Some [],
       updatedFiles = [], watchChangedFiles = [], isWatching = False, searchIndex = [],
       persistedIndex = None, written = [], unhandledRejectionListeners = 0,
       uncaughtExceptionListeners = 0, generationPromise = Unsettled, exited = None,
       trace = [] \<rparr>"

definition exampleModule :: "string \<Rightarrow> metaDataItem list \<Rightarrow> ngModule" where
  "exampleModule n decls =
     \<lparr> m_name = n, m_id = ''module-'' @ n, m_file = ''src/'' @ n @ ''.ts'',
       m_declarations = decls, m_bootstrap = [], m_imports = [], m_exports = [],
       m_providers = [], m_readme = None, m_graph = None \<rparr>"

definition staleEngine :: dependenciesEngine where
  "staleEngine =
     emptyEngine\<lparr> getModules :=
       [exampleModule ''AppModule''
          [\<lparr> item_name = ''HomeComponent'', item_type = ''component'' \<rparr>,
           \<lparr> item_name = ''GoneService'', item_type = ''injectable'' \<rparr>]],
       getComponents :=
         [\<lparr> c_name = ''HomeComponent'', c_id = ''component-Home'', c_file = ''src/home.ts'',
            templateUrl = [], templateData = None, c_readme = None \<rparr>] \<rparr>"

text \<open>The scenario of the spec: page \<open>routes\<close> fails to write, page \<open>modules\<close> succeeds.\<close>

definition routesWriteFails :: env where
  "routesWriteFails = exampleEnv\<lparr>fileWrite := (\<lambda>p html. p \<noteq> ''out/routes.html'')\<rparr>"

definition twoPages :: app where
  "twoPages = exampleApp\<lparr>pages := [modulesRootPage, routesRootPage]\<rparr>"


text \<open>
  Two scenarios of the graph stage: a module without relations followed by one with a
  declaration; and two modules with a declaration each, where the renderer fails on the
  first.
\<close>

definition rawOf :: "string \<Rightarrow> metaDataItem list \<Rightarrow> rawModule" where
  "rawOf n decls =
     \<lparr> raw_name = n, raw_declarations = decls, raw_bootstrap = [], raw_imports = [],
       raw_exports = [], raw_providers = [] \<rparr>"

definition homeDeclaration :: metaDataItem where
  "homeDeclaration = \<lparr> item_name = ''HomeComponent'', item_type = ''component'' \<rparr>"

definition graphEngine :: dependenciesEngine where
  "graphEngine =
     emptyEngine\<lparr> getRawModule :=
       (\<lambda>n. if n = ''EmptyModule'' then Some (rawOf n []) else Some (rawOf n [homeDeclaration])) \<rparr>"

definition emptyAndApp :: app where
  "emptyAndApp =
     exampleApp\<lparr> engine := graphEngine,
                 mainData := exampleMainData\<lparr>modules :=
                   [exampleModule ''EmptyModule'' [], exampleModule ''AppModule'' [homeDeclaration]]\<rparr> \<rparr>"

definition appAndShared :: app where
  "appAndShared =
     exampleApp\<lparr> engine := graphEngine,
                 mainData := exampleMainData\<lparr>modules :=
                   [exampleModule ''AppModule'' [homeDeclaration],
                    exampleModule ''SharedModule'' [homeDeclaration]]\<rparr> \<rparr>"

definition appRenderFails :: env where
  "appRenderFails =
     exampleEnv\<lparr>renderGraph :=
       (\<lambda>f out mode nm. if nm = Some ''AppModule'' then Some ''dot: not found'' else None)\<rparr>"


text \<open>
  Two scenarios of the page planner: a component whose template file is missing, followed
  by a component without a template; and a project with one module, one pipe and routes.
\<close>

definition homeComponent :: component where
  "homeComponent =
     \<lparr> c_name = ''HomeComponent'', c_id = ''component-Home'', c_file = ''src/home.ts'',
       templateUrl = ''./home.html'', templateData = None, c_readme = None \<rparr>"

definition aboutComponent :: component where
  "aboutComponent =
     \<lparr> c_name = ''AboutComponent'', c_id = ''component-About'', c_file = ''src/about.ts'',
       templateUrl = [], templateData = None, c_readme = None \<rparr>"

definition twoComponents :: app where
  "twoComponents =
     exampleApp\<lparr>engine := emptyEngine\<lparr>getComponents := [homeComponent, aboutComponent]\<rparr>\<rparr>"

definition datePipe :: entry where
  "datePipe = \<lparr> e_name = ''DatePipe'', e_id = ''pipe-Date'', e_file = ''src/date.ts'', e_readme = None \<rparr>"

definition smallProject :: app where
  "smallProject =
     exampleApp\<lparr>engine := emptyEngine\<lparr> getModules := [exampleModule ''AppModule'' []],
                                       getPipes := [datePipe],
                                       getRoutes := Some \<lparr> children = [''home''] \<rparr> \<rparr>\<rparr>"

text \<open>
  Two scenarios of the watch mode: a changed file of the external documentation with
  two pages to render and no include folder; and the same with an include folder whose
  \<open>summary.json\<close> cannot be read.
\<close>

definition docsChanged :: app where
  "docsChanged =
     twoPages\<lparr> updatedFiles := [''/proj/docs/guide.json''],
               watchChangedFiles := [''/proj/docs/guide.json''] \<rparr>"

definition docsUnreadable :: app where
  "docsUnreadable = docsChanged\<lparr>mainData := exampleMainData\<lparr>md_includes := ''docs''\<rparr>\<rparr>"

section \<open>The item loops\<close>

lemma loopItems_fst:
  "fst (loopItems env fileOf nameOf setReadme mk i xs st) = map (attachReadme env fileOf setReadme) xs"
  by (induction xs arbitrary: i st) (simp_all add: attachReadme_def split_beta Let_def)

lemma loopItems_snd:
  "snd (loopItems env fileOf nameOf setReadme mk i xs st) =
     st\<lparr> pages := pages st @ map (\<lambda>(j, x). mk (attachReadme env fileOf setReadme x) j) (enumerate i xs),
         trace := trace st @ readmeLogs env fileOf nameOf xs \<rparr>"
proof (induction xs arbitrary: i st)
  case Nil
  show ?case by (simp add: readmeLogs_def)
next
  case (Cons x xs)
  show ?case
    by (simp add: Cons.IH split_beta Let_def attachReadme_def readmeLogs_def addPage_def
        logger_def emit_def)
qed

section \<open>Module references after \<open>prepareModules\<close>\<close>

lemma attach_module_lists:
  "m_declarations (attachReadme env m_file setModuleReadme m) = m_declarations m"
  "m_bootstrap (attachReadme env m_file setModuleReadme m) = m_bootstrap m"
  "m_imports (attachReadme env m_file setModuleReadme m) = m_imports m"
  "m_exports (attachReadme env m_file setModuleReadme m) = m_exports m"
  "m_providers (attachReadme env m_file setModuleReadme m) = m_providers m"
  by (simp_all add: attachReadme_def setModuleReadme_def)

lemma relationItems_attach:
  "relationItems (attachReadme env m_file setModuleReadme m) = relationItems m"
  by (simp add: relationItems_def attach_module_lists)

lemma relationItems_filterModule:
  "relationItems (filterModule eng m) = filter (keepMetaDataItem eng) (relationItems m)"
  by (simp add: relationItems_def filterModule_def)

lemma providers_filterModule:
  "m_providers (filterModule eng m) = filter (keepProvider eng) (m_providers m)"
  by (simp add: filterModule_def)

lemma prepareModules_engine: "engine (snd (prepareModules env someModules st)) = engine st"
  by (simp add: prepareModules_def Let_def split_beta loopItems_snd addPage_def logger_def emit_def)

lemma prepareModules_modules:
  "modules (mainData (snd (prepareModules env someModules st))) =
     map (\<lambda>m. attachReadme env m_file setModuleReadme (filterModule (engine st) m))
       (case someModules of Some ms \<Rightarrow> ms | None \<Rightarrow> getModules (engine st))"
  by (simp add: prepareModules_def Let_def split_beta loopItems_fst addPage_def logger_def emit_def
      comp_def split: option.split)

lemma keepMetaDataItem_known:
  "keepMetaDataItem eng it \<Longrightarrow> knownKind (item_type it) \<Longrightarrow> hasEntryOfKind eng it"
  by (auto simp: keepMetaDataItem_def knownKind_def hasEntryOfKind_def)

lemma keepMetaDataItem_other: "\<not> knownKind (item_type it) \<Longrightarrow> keepMetaDataItem eng it"
  by (simp add: keepMetaDataItem_def knownKind_def)

text \<open>
  C8 (amended).  After \<open>prepareModules\<close>, whatever the collection and whichever modules
  are prepared: every reference left in a module's declarations, bootstrap, imports or
  exports whose kind is directive, component, module or pipe has a same-named entry of that
  kind in the collection, and every provider left has a same-named injectable.  (A
  reference of any other kind is kept without a look at the collection.)
\<close>

theorem prepareModules_retained_references:
  assumes "m \<in> set (modules (mainData (snd (prepareModules env someModules st))))"
  shows "(\<forall>it \<in> set (relationItems m).
            knownKind (item_type it) \<longrightarrow> hasEntryOfKind (engine (snd (prepareModules env someModules st))) it) \<and>
         (\<forall>p \<in> set (m_providers m).
            \<exists>x \<in> set (getInjectables (engine (snd (prepareModules env someModules st)))). e_name x = item_name p)"
proof -
  let ?eng = "engine st"
  from assms obtain m0 where m: "m = attachReadme env m_file setModuleReadme (filterModule ?eng m0)"
    by (auto simp: prepareModules_modules)
  have items: "relationItems m = filter (keepMetaDataItem ?eng) (relationItems m0)"
    by (simp add: m relationItems_attach relationItems_filterModule)
  have provs: "m_providers m = filter (keepProvider ?eng) (m_providers m0)"
    by (simp add: m attach_module_lists providers_filterModule)
  show ?thesis
    by (auto simp: prepareModules_engine items provs keepMetaDataItem_known keepProvider_def list_ex_iff)
qed

theorem prepareModules_retained_references_witness:
  "exampleModule ''AppModule''
          [\<lparr> item_name = ''HomeComponent'', item_type = ''component'' \<rparr>,
           \<lparr> item_name = ''GoneService'', item_type = ''injectable'' \<rparr>]
     \<in> set (modules (mainData (snd (prepareModules exampleEnv None (exampleApp\<lparr>engine := staleEngine\<rparr>))))) \<and>
   hasEntryOfKind staleEngine \<lparr> item_name = ''HomeComponent'', item_type = ''component'' \<rparr>"
proof -
  let ?m = "exampleModule ''AppModule''
          [\<lparr> item_name = ''HomeComponent'', item_type = ''component'' \<rparr>,
           \<lparr> item_name = ''GoneService'', item_type = ''injectable'' \<rparr>]"
  have mem: "?m \<in> set (modules (mainData (snd (prepareModules exampleEnv None (exampleApp\<lparr>engine := staleEngine\<rparr>)))))"
    by (simp add: prepareModules_modules staleEngine_def emptyEngine_def exampleApp_def exampleEnv_def
       attachReadme_def filterModule_def exampleModule_def keepMetaDataItem_def keepProvider_def)
  have eng: "engine (snd (prepareModules exampleEnv None (exampleApp\<lparr>engine := staleEngine\<rparr>))) = staleEngine"
    by (simp add: prepareModules_engine)
  from prepareModules_retained_references [OF mem] show ?thesis
    using mem by (simp add: eng relationItems_def exampleModule_def knownKind_def)
qed

text \<open>
  C8 as stated fails: a declaration of kind \<open>injectable\<close> naming a service that the
  collection does not hold stays in the module's declarations.
\<close>

theorem prepareModules_keeps_unknown_reference:
  "\<not> list_all (referencesValid staleEngine)
       (modules (mainData (snd (prepareModules exampleEnv None (exampleApp\<lparr>engine := staleEngine\<rparr>)))))"
  by (simp add: prepareModules_modules staleEngine_def emptyEngine_def exampleApp_def exampleEnv_def
       attachReadme_def filterModule_def exampleModule_def keepMetaDataItem_def keepProvider_def
       referencesValid_def relationItems_def hasEntryOfKind_def)

section \<open>Choice of the rebuild path\<close>

lemma foldl_flag:
  "foldl (\<lambda>result file. if P file then True else result) b xs \<longleftrightarrow> b \<or> (\<exists>f\<in>set xs. P f)"
  by (induction xs arbitrary: b) auto

lemma hasWatchedFilesTSFiles_iff:
  "hasWatchedFilesTSFiles env st \<longleftrightarrow> (\<exists>f\<in>set (updatedFiles st). extname env f = ''.ts'')"
  by (simp add: hasWatchedFilesTSFiles_def foldl_flag)

lemma hasWatchedFilesRootMarkdownFiles_iff:
  "hasWatchedFilesRootMarkdownFiles env st \<longleftrightarrow>
     (\<exists>f\<in>set (updatedFiles st). extname env f = ''.md'' \<and> dirname env f = cwd env)"
  by (simp add: hasWatchedFilesRootMarkdownFiles_def foldl_flag)

text \<open>
  C5.  When the content-change timer fires, \<open>runnerChange\<close> takes the accumulated changed
  files and runs the micro-rebuild if one of them has the extension \<open>.ts\<close>; otherwise the
  root-markdown rebuild if one of them is a \<open>.md\<close> file whose directory is the working
  directory; otherwise the rebuild of the external documentation.
\<close>

theorem runnerChange_priority:
  "runnerChange env st =
     (if \<exists>f\<in>set (watchChangedFiles st). extname env f = ''.ts''
      then getMicroDependenciesData env (st\<lparr>updatedFiles := watchChangedFiles st\<rparr>)
      else if \<exists>f\<in>set (watchChangedFiles st). extname env f = ''.md'' \<and> dirname env f = cwd env
      then rebuildRootMarkdowns env (st\<lparr>updatedFiles := watchChangedFiles st\<rparr>)
      else rebuildExternalDocumentation env (st\<lparr>updatedFiles := watchChangedFiles st\<rparr>))"
  by (simp add: runnerChange_def Let_def setUpdatedFiles_def hasWatchedFilesTSFiles_iff
      hasWatchedFilesRootMarkdownFiles_iff)

lemma ext1: "extnameExample ''/proj/src/a.ts'' = ''.ts''"
  by (simp add: extnameExample_def)
lemma ext2: "extnameExample ''/proj/README.md'' = ''.md''"
  by (simp add: extnameExample_def)
lemma ext3: "extnameExample ''/proj/docs/summary.json'' = ''.json''"
  by (simp add: extnameExample_def)
lemma dir2: "dirnameExample ''/proj/README.md'' = ''/proj''"
  by (simp add: dirnameExample_def)

theorem runnerChange_priority_witness:
  "runnerChange exampleEnv (exampleApp\<lparr>watchChangedFiles := [''/proj/src/a.ts'', ''/proj/README.md'']\<rparr>)
     = getMicroDependenciesData exampleEnv
         (exampleApp\<lparr>watchChangedFiles := [''/proj/src/a.ts'', ''/proj/README.md''],
                     updatedFiles := [''/proj/src/a.ts'', ''/proj/README.md'']\<rparr>) \<and>
   runnerChange exampleEnv (exampleApp\<lparr>watchChangedFiles := [''/proj/README.md'']\<rparr>)
     = rebuildRootMarkdowns exampleEnv
         (exampleApp\<lparr>watchChangedFiles := [''/proj/README.md''],
                     updatedFiles := [''/proj/README.md'']\<rparr>) \<and>
   runnerChange exampleEnv (exampleApp\<lparr>watchChangedFiles := [''/proj/docs/summary.json'']\<rparr>)
     = rebuildExternalDocumentation exampleEnv
         (exampleApp\<lparr>watchChangedFiles := [''/proj/docs/summary.json''],
                     updatedFiles := [''/proj/docs/summary.json'']\<rparr>)"
  using runnerChange_priority [of exampleEnv "exampleApp\<lparr>watchChangedFiles := [''/proj/src/a.ts'', ''/proj/README.md'']\<rparr>"]
        runnerChange_priority [of exampleEnv "exampleApp\<lparr>watchChangedFiles := [''/proj/README.md'']\<rparr>"]
        runnerChange_priority [of exampleEnv "exampleApp\<lparr>watchChangedFiles := [''/proj/docs/summary.json'']\<rparr>"]
  by (simp add: exampleEnv_def ext1 ext2 ext3 dir2)


section \<open>Traces\<close>

lemma inStages_simps [simp]:
  "inStages S (Log l msg) \<longleftrightarrow> Logging \<in> S"
  "inStages S (Stat label n) \<longleftrightarrow> Logging \<in> S"
  "inStages S (Console msg) \<longleftrightarrow> Fatal \<in> S"
  "inStages S UnhandledRejection \<longleftrightarrow> Fatal \<in> S"
  "inStages S (ProcessExit code) \<longleftrightarrow> Fatal \<in> S"
  "inStages S ListenersAdded \<longleftrightarrow> Preparation \<in> S"
  "inStages S RoutesIndex \<longleftrightarrow> Preparation \<in> S"
  "inStages S (GraphInit p) \<longleftrightarrow> GraphStage \<in> S"
  "inStages S (RenderGraph f out mode nm) \<longleftrightarrow> GraphStage \<in> S"
  "inStages S (ReadGraph p lbl) \<longleftrightarrow> GraphStage \<in> S"
  "inStages S (IndexPage u) \<longleftrightarrow> RenderStart \<in> S"
  "inStages S (WriteStart p) \<longleftrightarrow> RenderStart \<in> S"
  "inStages S (WriteSettled p ok) \<longleftrightarrow> RenderSettle \<in> S"
  "inStages S (PersistIndex ok) \<longleftrightarrow> IndexPersist \<in> S"
  "inStages S (CopyStart s d) \<longleftrightarrow> Finalization \<in> S"
  "inStages S ExportStart \<longleftrightarrow> Finalization \<in> S"
  "inStages S (ServerStart folder) \<longleftrightarrow> Finalization \<in> S"
  "inStages S WatchStart \<longleftrightarrow> Finalization \<in> S"
  "inStages S ListenersRemoved \<longleftrightarrow> Finalization \<in> S"
  "inStages S GenerationResolved \<longleftrightarrow> Finalization \<in> S"
  "inStages S GenerationRejected \<longleftrightarrow> Finalization \<in> S"
  "inStages S ClearUpdatedFiles \<longleftrightarrow> Watching \<in> S"
  by (simp_all add: inStages_def)

lemma inStages_mono: "inStages S e \<Longrightarrow> S \<subseteq> S' \<Longrightarrow> inStages S' e"
  by (auto simp: inStages_def)

lemma appends_refl [simp]: "appends P st st"
  by (simp add: appends_def)

lemma appends_trans: "appends P st st1 \<Longrightarrow> appends P st1 st2 \<Longrightarrow> appends P st st2"
  by (auto simp: appends_def)

lemma appends_mono: "appends P st st' \<Longrightarrow> (\<And>e. P e \<Longrightarrow> Q e) \<Longrightarrow> appends Q st st'"
  by (auto simp: appends_def list_all_iff)

lemma appends_emit: "P e \<Longrightarrow> appends P st st' \<Longrightarrow> appends P st (emit e st')"
  by (auto simp: appends_def emit_def)

lemma appends_logger: "P (Log l msg) \<Longrightarrow> appends P st st' \<Longrightarrow> appends P st (logger l msg st')"
  by (simp add: logger_def appends_emit)

lemma appends_update [simp]:
  "appends P st (st'\<lparr>pages := a1\<rparr>) = appends P st st'"
  "appends P st (st'\<lparr>mainData := a2\<rparr>) = appends P st st'"
  "appends P st (st'\<lparr>engine := a3\<rparr>) = appends P st st'"
  "appends P st (st'\<lparr>files := a4\<rparr>) = appends P st st'"
  "appends P st (st'\<lparr>updatedFiles := a5\<rparr>) = appends P st st'"
  "appends P st (st'\<lparr>watchChangedFiles := a6\<rparr>) = appends P st st'"
  "appends P st (st'\<lparr>isWatching := a7\<rparr>) = appends P st st'"
  "appends P st (st'\<lparr>searchIndex := a8\<rparr>) = appends P st st'"
  "appends P st (st'\<lparr>persistedIndex := a9\<rparr>) = appends P st st'"
  "appends P st (st'\<lparr>written := a10\<rparr>) = appends P st st'"
  "appends P st (st'\<lparr>unhandledRejectionListeners := a11\<rparr>) = appends P st st'"
  "appends P st (st'\<lparr>uncaughtExceptionListeners := a12\<rparr>) = appends P st st'"
  "appends P st (st'\<lparr>generationPromise := a13\<rparr>) = appends P st st'"
  "appends P st (st'\<lparr>exited := a14\<rparr>) = appends P st st'"
  by (simp_all add: appends_def)

lemma appends_update_left [simp]:
  "appends P (st\<lparr>pages := a1\<rparr>) st' = appends P st st'"
  "appends P (st\<lparr>mainData := a2\<rparr>) st' = appends P st st'"
  "appends P (st\<lparr>engine := a3\<rparr>) st' = appends P st st'"
  "appends P (st\<lparr>files := a4\<rparr>) st' = appends P st st'"
  "appends P (st\<lparr>updatedFiles := a5\<rparr>) st' = appends P st st'"
  "appends P (st\<lparr>watchChangedFiles := a6\<rparr>) st' = appends P st st'"
  "appends P (st\<lparr>isWatching := a7\<rparr>) st' = appends P st st'"
  "appends P (st\<lparr>searchIndex := a8\<rparr>) st' = appends P st st'"
  "appends P (st\<lparr>persistedIndex := a9\<rparr>) st' = appends P st st'"
  "appends P (st\<lparr>written := a10\<rparr>) st' = appends P st st'"
  "appends P (st\<lparr>unhandledRejectionListeners := a11\<rparr>) st' = appends P st st'"
  "appends P (st\<lparr>uncaughtExceptionListeners := a12\<rparr>) st' = appends P st st'"
  "appends P (st\<lparr>generationPromise := a13\<rparr>) st' = appends P st st'"
  "appends P (st\<lparr>exited := a14\<rparr>) st' = appends P st st'"
  by (simp_all add: appends_def)

lemma appends_trace: "appends P st (st'\<lparr>trace := trace st' @ T\<rparr>) \<longleftrightarrow> appends P st st' \<and> list_all P T" if "appends P st st'"
  using that by (auto simp: appends_def)

lemma appends_append: "appends P st st' \<Longrightarrow> list_all P T \<Longrightarrow> appends P st (st'\<lparr>trace := trace st' @ T\<rparr>)"
  by (auto simp: appends_def)

lemma appends_newEvents:
  "appends P st st' \<Longrightarrow> trace st' = trace st @ newEvents st st' \<and> list_all P (newEvents st st')"
  by (auto simp: appends_def newEvents_def)

lemma appends_mem: "appends P st st' \<Longrightarrow> e \<in> set (trace st) \<Longrightarrow> e \<in> set (trace st')"
  by (auto simp: appends_def)

lemma newEvents_trans:
  "appends P st st1 \<Longrightarrow> appends Q st1 st2 \<Longrightarrow> newEvents st st2 = newEvents st st1 @ newEvents st1 st2"
  by (auto simp: appends_def newEvents_def)

lemma appends_stages_mono:
  "appends (inStages S) st st' \<Longrightarrow> S \<subseteq> S' \<Longrightarrow> appends (inStages S') st st'"
  by (erule appends_mono) (rule inStages_mono)

lemma appends_unhandledRejection:
  "Fatal \<in> S \<Longrightarrow> Logging \<in> S \<Longrightarrow> appends (inStages S) st st'
     \<Longrightarrow> appends (inStages S) st (unhandledRejection st')"
  by (simp add: unhandledRejection_def unhandledRejectionListener_def processExit_def Let_def
      appends_emit appends_logger)

lemma appends_allRejected:
  "appends (inStages {Logging, RenderSettle, Fatal}) st st'
     \<Longrightarrow> appends (inStages {Logging, RenderSettle, Fatal}) st (allRejected ph st')"
  by (cases ph) (simp_all add: allRejected_def appends_unhandledRejection appends_logger)

lemma appends_settleWrites:
  "appends (inStages {Logging, RenderSettle, Fatal}) st (snd (settleWrites env ph failed js st))"
proof (induction js arbitrary: failed st)
  case Nil
  show ?case by simp
next
  case (Cons j js)
  let ?P = "inStages {Logging, RenderSettle, Fatal}"
  let ?ok = "(emit (WriteSettled (job_path j) True) st)\<lparr>written := written st @ [(job_path j, job_html j)]\<rparr>"
  let ?ko = "logger Error (''Error during '' @ job_name j @ '' page generation'')
               (emit (WriteSettled (job_path j) False) st)"
  have ok: "appends ?P st ?ok" by (simp add: appends_emit)
  have ko: "appends ?P st ?ko" by (simp add: appends_emit appends_logger)
  have ar: "appends ?P st (allRejected ph ?ko)" by (rule appends_allRejected [OF ko])
  show ?case
  proof (cases "fileWrite env (job_path j) (job_html j)")
    case True
    then show ?thesis using appends_trans [OF ok Cons.IH] by simp
  next
    case False
    then show ?thesis
      using ko ar appends_trans [OF ko Cons.IH] appends_trans [OF ar Cons.IH]
      by (simp add: Let_def)
  qed
qed

lemma settleWrites_main_alive:
  "exited st = None \<Longrightarrow> exited (snd (settleWrites env MainPages failed js st)) = None"
proof (induction js arbitrary: failed st)
  case Nil
  then show ?case by simp
next
  case (Cons j js)
  then show ?case
    by (simp add: Let_def allRejected_def logger_def emit_def)
qed

lemma appends_settleWrites_main:
  "appends (inStages {Logging, RenderSettle}) st (snd (settleWrites env MainPages failed js st))"
proof (induction js arbitrary: failed st)
  case Nil
  show ?case by simp
next
  case (Cons j js)
  let ?P = "inStages {Logging, RenderSettle}"
  let ?ok = "(emit (WriteSettled (job_path j) True) st)\<lparr>written := written st @ [(job_path j, job_html j)]\<rparr>"
  let ?ko = "logger Error (''Error during '' @ job_name j @ '' page generation'')
               (emit (WriteSettled (job_path j) False) st)"
  have ok: "appends ?P st ?ok" by (simp add: appends_emit)
  have ko: "appends ?P st ?ko" by (simp add: appends_emit appends_logger)
  have ar: "appends ?P st (allRejected MainPages ?ko)"
    using ko by (simp add: allRejected_def appends_logger)
  show ?case
  proof (cases "fileWrite env (job_path j) (job_html j)")
    case True
    then show ?thesis using appends_trans [OF ok Cons.IH] by simp
  next
    case False
    then show ?thesis
      using ko ar appends_trans [OF ko Cons.IH] appends_trans [OF ar Cons.IH]
      by (simp add: Let_def)
  qed
qed

lemma newEvents_mem_trans:
  "appends P st st1 \<Longrightarrow> appends Q st1 st2
     \<Longrightarrow> e \<in> set (newEvents st st1) \<or> e \<in> set (newEvents st1 st2)
     \<Longrightarrow> e \<in> set (newEvents st st2)"
  by (auto simp: appends_def newEvents_def)

text \<open>What one failing or succeeding write leaves in the trace, whatever follows.\<close>

lemma settleWrites_main_head:
  assumes "exited st = None"
  shows "WriteSettled (job_path k) (fileWrite env (job_path k) (job_html k))
           \<in> set (newEvents st (snd (settleWrites env MainPages failed (k # js) st))) \<and>
         (\<not> fileWrite env (job_path k) (job_html k) \<longrightarrow>
            Log Error (''Error during '' @ job_name k @ '' page generation'')
              \<in> set (newEvents st (snd (settleWrites env MainPages failed (k # js) st))) \<and>
            (\<not> failed \<longrightarrow>
               Log Error [] \<in> set (newEvents st (snd (settleWrites env MainPages failed (k # js) st)))))"
proof (cases "fileWrite env (job_path k) (job_html k)")
  case True
  let ?ok = "(emit (WriteSettled (job_path k) True) st)\<lparr>written := written st @ [(job_path k, job_html k)]\<rparr>"
  have a: "appends (inStages {Logging, RenderSettle}) st ?ok" by (simp add: appends_emit)
  have "WriteSettled (job_path k) True \<in> set (newEvents st ?ok)" by (simp add: newEvents_def emit_def)
  from newEvents_mem_trans [OF a appends_settleWrites_main [where env = env and failed = failed and js = js], OF disjI1, OF this]
    True show ?thesis by simp
next
  case False
  let ?ko = "logger Error (''Error during '' @ job_name k @ '' page generation'')
               (emit (WriteSettled (job_path k) False) st)"
  let ?st2 = "if failed then ?ko else allRejected MainPages ?ko"
  have alive: "exited ?st2 = None"
    using assms by (simp add: allRejected_def logger_def emit_def)
  have a: "appends (inStages {Logging, RenderSettle}) st ?st2"
    by (simp add: allRejected_def appends_logger appends_emit)
  have m1: "WriteSettled (job_path k) False \<in> set (newEvents st ?st2)"
    by (simp add: newEvents_def allRejected_def logger_def emit_def)
  have m2: "Log Error (''Error during '' @ job_name k @ '' page generation'') \<in> set (newEvents st ?st2)"
    by (simp add: newEvents_def allRejected_def logger_def emit_def)
  have m3: "\<not> failed \<Longrightarrow> Log Error [] \<in> set (newEvents st ?st2)"
    by (simp add: newEvents_def allRejected_def logger_def emit_def)
  have eq: "settleWrites env MainPages failed (k # js) st = settleWrites env MainPages True js ?st2"
    using False alive by (simp add: Let_def split: if_splits)
  note lift = newEvents_mem_trans [OF a appends_settleWrites_main [where env = env and failed = True and js = js], OF disjI1]
  show ?thesis
    using False lift [OF m1] lift [OF m2] lift [OF m3]
    unfolding eq by simp
qed

lemma settleWrites_main_tail:
  assumes "exited st = None"
  shows "\<exists>failed' st1. exited st1 = None \<and> appends (inStages {Logging, RenderSettle}) st st1 \<and>
           settleWrites env MainPages failed (k # js) st = settleWrites env MainPages failed' js st1"
proof (cases "fileWrite env (job_path k) (job_html k)")
  case True
  let ?ok = "(emit (WriteSettled (job_path k) True) st)\<lparr>written := written st @ [(job_path k, job_html k)]\<rparr>"
  have "exited ?ok = None" using assms by (simp add: emit_def)
  moreover have "appends (inStages {Logging, RenderSettle}) st ?ok" by (simp add: appends_emit)
  moreover have "settleWrites env MainPages failed (k # js) st = settleWrites env MainPages failed js ?ok"
    using True by simp
  ultimately show ?thesis by blast
next
  case False
  let ?ko = "logger Error (''Error during '' @ job_name k @ '' page generation'')
               (emit (WriteSettled (job_path k) False) st)"
  let ?st2 = "if failed then ?ko else allRejected MainPages ?ko"
  have alive: "exited ?st2 = None"
    using assms by (simp add: allRejected_def logger_def emit_def)
  have a: "appends (inStages {Logging, RenderSettle}) st ?st2"
    by (simp add: allRejected_def appends_logger appends_emit)
  have "settleWrites env MainPages failed (k # js) st = settleWrites env MainPages True js ?st2"
    using False alive by (simp add: Let_def split: if_splits)
  with alive a show ?thesis by blast
qed

lemma settleWrites_main_each:
  assumes "exited st = None" "j \<in> set js"
  shows "WriteSettled (job_path j) (fileWrite env (job_path j) (job_html j))
           \<in> set (newEvents st (snd (settleWrites env MainPages failed js st))) \<and>
         (\<not> fileWrite env (job_path j) (job_html j) \<longrightarrow>
            Log Error (''Error during '' @ job_name j @ '' page generation'')
              \<in> set (newEvents st (snd (settleWrites env MainPages failed js st))))"
  using assms
proof (induction js arbitrary: failed st)
  case Nil
  then show ?case by simp
next
  case (Cons k js)
  show ?case
  proof (cases "j = k")
    case True
    then show ?thesis using settleWrites_main_head [OF Cons.prems(1), of k env failed js] by blast
  next
    case False
    with Cons.prems have mem: "j \<in> set js" by simp
    from settleWrites_main_tail [OF Cons.prems(1), of env failed k js]
    obtain failed' st1 where alive: "exited st1 = None"
      and a: "appends (inStages {Logging, RenderSettle}) st st1"
      and eq: "settleWrites env MainPages failed (k # js) st = settleWrites env MainPages failed' js st1"
      by blast
    note lift = newEvents_mem_trans [OF a appends_settleWrites_main [where env = env and failed = failed' and js = js], OF disjI2]
    from Cons.IH [OF alive mem, of failed'] show ?thesis
      unfolding eq by (auto intro: lift)
  qed
qed

lemma settleWrites_main_aggregate:
  assumes "exited st = None" "\<exists>j\<in>set js. \<not> fileWrite env (job_path j) (job_html j)"
  shows "Log Error [] \<in> set (newEvents st (snd (settleWrites env MainPages False js st)))"
  using assms
proof (induction js arbitrary: st)
  case Nil
  then show ?case by simp
next
  case (Cons k js)
  show ?case
  proof (cases "fileWrite env (job_path k) (job_html k)")
    case True
    let ?ok = "(emit (WriteSettled (job_path k) True) st)\<lparr>written := written st @ [(job_path k, job_html k)]\<rparr>"
    have alive: "exited ?ok = None" using Cons.prems(1) by (simp add: emit_def)
    have a: "appends (inStages {Logging, RenderSettle}) st ?ok" by (simp add: appends_emit)
    from True Cons.prems(2) have ex: "\<exists>j\<in>set js. \<not> fileWrite env (job_path j) (job_html j)" by auto
    note lift = newEvents_mem_trans [OF a appends_settleWrites_main [where env = env and failed = False and js = js], OF disjI2]
    from lift [OF Cons.IH [OF alive ex]] True show ?thesis by simp
  next
    case False
    then show ?thesis using settleWrites_main_head [OF Cons.prems(1), of k env False js] by blast
  qed
qed

lemma newEvents_self [simp]: "newEvents st st = []"
  by (simp add: newEvents_def)

lemma newEvents_append [simp]: "newEvents st (st\<lparr>trace := trace st @ T\<rparr>) = T"
  by (simp add: newEvents_def)

lemma newEvents_update [simp]:
  "newEvents st (st'\<lparr>searchIndex := a\<rparr>) = newEvents st st'"
  "newEvents (st\<lparr>searchIndex := a\<rparr>) st' = newEvents st st'"
  by (simp_all add: newEvents_def)


section \<open>Render and index stage\<close>

lemma processPage_eq:
  "processPage env p st =
     (jobOf env (mainData st) p,
      st\<lparr> searchIndex := searchIndex st @ [docOf env (mainData st) p],
          trace := trace st @ pageStartEvents (mainData st) p \<rparr>)"
  by (simp add: processPage_def Let_def jobOf_def docOf_def pageStartEvents_def indexPage_def
      logger_def emit_def)

lemma mapProcessPage_eq:
  "mapProcessPage env ps st =
     (map (jobOf env (mainData st)) ps,
      st\<lparr> searchIndex := searchIndex st @ map (docOf env (mainData st)) ps,
          trace := trace st @ concat (map (pageStartEvents (mainData st)) ps) \<rparr>)"
proof (induction ps arbitrary: st)
  case Nil
  show ?case by simp
next
  case (Cons p ps)
  show ?case by (simp add: Cons.IH processPage_eq)
qed

lemma processPagesStart_eq:
  "processPagesStart env st =
     (map (jobOf env (mainData st)) (pages st),
      st\<lparr> searchIndex := searchIndex st @ map (docOf env (mainData st)) (pages st),
          trace := trace st @ Log Info ''Process pages''
                     # concat (map (pageStartEvents (mainData st)) (pages st)) \<rparr>)"
  by (simp add: processPagesStart_def Let_def mapProcessPage_eq logger_def emit_def)

text \<open>settleWrites leaves everything but the written files, the trace and the exit code.\<close>

lemma unhandledRejection_frame:
  "searchIndex (unhandledRejection st) = searchIndex st"
  "persistedIndex (unhandledRejection st) = persistedIndex st"
  "mainData (unhandledRejection st) = mainData st"
  "pages (unhandledRejection st) = pages st"
  "generationPromise (unhandledRejection st) = generationPromise st"
  "unhandledRejectionListeners (unhandledRejection st) = unhandledRejectionListeners st"
  "uncaughtExceptionListeners (unhandledRejection st) = uncaughtExceptionListeners st"
  by (simp_all add: unhandledRejection_def unhandledRejectionListener_def processExit_def
      logger_def emit_def Let_def)

lemma allRejected_frame:
  "searchIndex (allRejected ph st) = searchIndex st"
  "persistedIndex (allRejected ph st) = persistedIndex st"
  "mainData (allRejected ph st) = mainData st"
  "pages (allRejected ph st) = pages st"
  "generationPromise (allRejected ph st) = generationPromise st"
  "unhandledRejectionListeners (allRejected ph st) = unhandledRejectionListeners st"
  "uncaughtExceptionListeners (allRejected ph st) = uncaughtExceptionListeners st"
  by (simp_all add: allRejected_def unhandledRejection_frame logger_def emit_def split: phase.split)

lemma settleWrites_frame:
  "searchIndex (snd (settleWrites env ph failed js st)) = searchIndex st \<and>
   persistedIndex (snd (settleWrites env ph failed js st)) = persistedIndex st \<and>
   mainData (snd (settleWrites env ph failed js st)) = mainData st \<and>
   pages (snd (settleWrites env ph failed js st)) = pages st \<and>
   generationPromise (snd (settleWrites env ph failed js st)) = generationPromise st \<and>
   unhandledRejectionListeners (snd (settleWrites env ph failed js st)) = unhandledRejectionListeners st \<and>
   uncaughtExceptionListeners (snd (settleWrites env ph failed js st)) = uncaughtExceptionListeners st"
proof (induction js arbitrary: failed st)
  case Nil
  show ?case by simp
next
  case (Cons j js)
  show ?case
    by (simp add: Cons.IH Let_def allRejected_frame logger_def emit_def)
qed

lemma settleWrites_failed:
  "fst (settleWrites env ph failed js st) \<longleftrightarrow>
     failed \<or> (\<exists>j\<in>set js. \<not> fileWrite env (job_path j) (job_html j))"
proof (induction js arbitrary: failed st)
  case Nil
  show ?case by simp
next
  case (Cons j js)
  show ?case by (auto simp: Cons.IH Let_def)
qed

lemma fp1: "finalPathOf exampleMainData modulesRootPage = ''out/modules.html''"
  by (simp add: finalPathOf_def exampleMainData_def modulesRootPage_def)

lemma fp2: "finalPathOf exampleMainData routesRootPage = ''out/routes.html''"
  by (simp add: finalPathOf_def exampleMainData_def routesRootPage_def)

lemma rootPage_names:
  "p_name modulesRootPage = ''modules''" "p_name routesRootPage = ''routes''"
  by (simp_all add: modulesRootPage_def routesRootPage_def)

lemma twoPages_fails:
  "writeFails routesWriteFails (mainData twoPages) routesRootPage"
  "\<not> writeFails routesWriteFails (mainData twoPages) modulesRootPage"
  by (simp_all add: writeFails_def routesWriteFails_def twoPages_def exampleApp_def fp1 fp2)


text \<open>
  C10.  \<open>processPage\<close> logs, submits the rendered page to the search index and only then
  starts the write; the document is in the index when \<open>processPage\<close> returns, it is still
  there when the writes have settled, whether they succeeded or not, and what
  \<open>processPage\<close> leaves does not depend on the outcome of \<open>fileEngine.write\<close>.
\<close>

theorem processPage_indexes_before_write:
  "newEvents st (snd (processPage env p st)) =
     [Log Info (''Process page '' @ p_name p), IndexPage (finalPathOf (mainData st) p),
      WriteStart (finalPathOf (mainData st) p)] \<and>
   searchIndex (snd (processPage env p st)) = searchIndex st @ [docOf env (mainData st) p] \<and>
   searchIndex (snd (settleWrites env ph failed (fst (processPage env p st) # jobs)
                       (snd (processPage env p st))))
     = searchIndex st @ [docOf env (mainData st) p] \<and>
   snd (processPage (env\<lparr>fileWrite := w\<rparr>) p st) = snd (processPage env p st)"
  by (simp add: processPage_eq settleWrites_frame pageStartEvents_def docOf_def newEvents_def
      del: settleWrites.simps)

theorem processPage_indexes_before_write_witness:
  "writeFails routesWriteFails (mainData twoPages) routesRootPage \<and>
   map (\<lambda>e. stageOf e) (newEvents twoPages (snd (processPage routesWriteFails routesRootPage twoPages)))
     = [Logging, RenderStart, RenderStart] \<and>
   map url (searchIndex (snd (settleWrites routesWriteFails MainPages False
                                [fst (processPage routesWriteFails routesRootPage twoPages)]
                                (snd (processPage routesWriteFails routesRootPage twoPages)))))
     = [''out/routes.html'']"
  using processPage_indexes_before_write [of twoPages routesWriteFails routesRootPage MainPages False "[]"
          "fileWrite routesWriteFails"] twoPages_fails(1)
  by (simp del: settleWrites.simps) (simp add: docOf_def twoPages_def exampleApp_def fp2)

lemma processPages_failure_state:
  assumes "\<exists>p\<in>set (pages st). writeFails env (mainData st) p"
  shows "processPages env st
           = snd (settleWrites env MainPages False (map (jobOf env (mainData st)) (pages st))
                    (snd (processPagesStart env st)))"
proof -
  have "fst (settleWrites env MainPages False (map (jobOf env (mainData st)) (pages st))
               (snd (processPagesStart env st)))"
    using assms by (auto simp: settleWrites_failed writeFails_def jobOf_def)
  then show ?thesis
    by (simp add: processPages_def processPagesSettle_def processPagesStart_eq split_beta)
qed

lemma appends_processPagesStart:
  "appends (inStages {Logging, RenderStart}) st (snd (processPagesStart env st))"
  by (simp add: processPagesStart_eq appends_def list_all_iff pageStartEvents_def)


text \<open>
  C1 (amended).  When the write of at least one page fails in \<open>processPages\<close> (the process
  running): every page of the list has been rendered and submitted to the search index,
  the write of every page settles (the failure of one does not stop the others), each
  failed write is logged with the name of its page, and the failure is logged once more for
  the whole step; nothing else happens: no event of the index, finalization or any other
  later stage, the search index file is left as it was, the generation promise and the
  listeners are untouched.
\<close>

theorem processPages_write_failure:
  assumes "exited st = None"
      and "\<exists>p\<in>set (pages st). writeFails env (mainData st) p"
  shows "searchIndex (processPages env st) = searchIndex st @ map (docOf env (mainData st)) (pages st) \<and>
         (\<forall>p\<in>set (pages st).
            WriteSettled (finalPathOf (mainData st) p) (\<not> writeFails env (mainData st) p)
              \<in> set (newEvents st (processPages env st)) \<and>
            (writeFails env (mainData st) p \<longrightarrow>
               Log Error (''Error during '' @ p_name p @ '' page generation'')
                 \<in> set (newEvents st (processPages env st)))) \<and>
         Log Error [] \<in> set (newEvents st (processPages env st)) \<and>
         list_all (inStages {Logging, RenderStart, RenderSettle}) (newEvents st (processPages env st)) \<and>
         persistedIndex (processPages env st) = persistedIndex st \<and>
         generationPromise (processPages env st) = generationPromise st \<and>
         unhandledRejectionListeners (processPages env st) = unhandledRejectionListeners st \<and>
         uncaughtExceptionListeners (processPages env st) = uncaughtExceptionListeners st"
proof -
  let ?md = "mainData st"
  let ?jobs = "map (jobOf env ?md) (pages st)"
  let ?st1 = "snd (processPagesStart env st)"
  let ?st' = "snd (settleWrites env MainPages False ?jobs ?st1)"
  have eq: "processPages env st = ?st'" by (rule processPages_failure_state [OF assms(2)])
  have alive: "exited ?st1 = None" using assms(1) by (simp add: processPagesStart_eq)
  have a1: "appends (inStages {Logging, RenderStart, RenderSettle}) st ?st1"
    by (rule appends_stages_mono [OF appends_processPagesStart]) simp
  have a2: "appends (inStages {Logging, RenderStart, RenderSettle}) ?st1 ?st'"
    by (rule appends_stages_mono [OF appends_settleWrites_main]) simp
  note lift = newEvents_mem_trans [OF a1 a2, OF disjI2]
  have idx: "searchIndex ?st' = searchIndex st @ map (docOf env ?md) (pages st)"
    by (simp add: settleWrites_frame processPagesStart_eq)
  have each: "WriteSettled (finalPathOf ?md p) (\<not> writeFails env ?md p) \<in> set (newEvents st ?st') \<and>
              (writeFails env ?md p \<longrightarrow>
                 Log Error (''Error during '' @ p_name p @ '' page generation'') \<in> set (newEvents st ?st'))"
    if "p \<in> set (pages st)" for p
  proof -
    from that have "jobOf env ?md p \<in> set ?jobs" by simp
    from settleWrites_main_each [OF alive this, of env False]
    show ?thesis by (auto simp: jobOf_def writeFails_def intro: lift)
  qed
  have ex: "\<exists>j\<in>set ?jobs. \<not> fileWrite env (job_path j) (job_html j)"
    using assms(2) by (auto simp: writeFails_def jobOf_def)
  have agg: "Log Error [] \<in> set (newEvents st ?st')"
    by (rule lift [OF settleWrites_main_aggregate [OF alive ex]])
  have stages: "list_all (inStages {Logging, RenderStart, RenderSettle}) (newEvents st ?st')"
    using appends_newEvents [OF appends_trans [OF a1 a2]] by simp
  have frame: "persistedIndex ?st' = persistedIndex st" "generationPromise ?st' = generationPromise st"
    "unhandledRejectionListeners ?st' = unhandledRejectionListeners st"
    "uncaughtExceptionListeners ?st' = uncaughtExceptionListeners st"
    by (simp_all add: settleWrites_frame processPagesStart_eq)
  show ?thesis
    unfolding eq using idx each agg stages frame by blast
qed

theorem processPages_write_failure_witness:
  "exited twoPages = None \<and> writeFails routesWriteFails (mainData twoPages) routesRootPage \<and>
   \<not> writeFails routesWriteFails (mainData twoPages) modulesRootPage \<and>
   map (\<lambda>d. p_name (infos d)) (searchIndex (processPages routesWriteFails twoPages)) = [''modules'', ''routes''] \<and>
   WriteSettled ''out/modules.html'' True \<in> set (newEvents twoPages (processPages routesWriteFails twoPages)) \<and>
   WriteSettled ''out/routes.html'' False \<in> set (newEvents twoPages (processPages routesWriteFails twoPages)) \<and>
   Log Error ''Error during routes page generation'' \<in> set (newEvents twoPages (processPages routesWriteFails twoPages)) \<and>
   persistedIndex (processPages routesWriteFails twoPages) = None"
proof -
  have alive: "exited twoPages = None" by (simp add: twoPages_def exampleApp_def)
  have ex: "\<exists>p\<in>set (pages twoPages). writeFails routesWriteFails (mainData twoPages) p"
    using twoPages_fails(1) by (simp add: twoPages_def)
  have pg: "pages twoPages = [modulesRootPage, routesRootPage]" by (simp add: twoPages_def)
  have md: "mainData twoPages = exampleMainData" by (simp add: twoPages_def exampleApp_def)
  have si: "searchIndex twoPages = []" "persistedIndex twoPages = None"
    by (simp_all add: twoPages_def exampleApp_def)
  from processPages_write_failure [OF alive ex] twoPages_fails alive
  show ?thesis
    by (simp add: pg si docOf_def md fp1 fp2 rootPage_names)
qed


text \<open>
  C1 as stated fails on the scenario of the spec: the write of \<open>routes\<close> fails, that of
  \<open>modules\<close> succeeds, and the persisted search index does not contain \<open>modules\<close> (it is
  not written at all).
\<close>

theorem processPages_failure_persists_nothing:
  "\<not> writeFails routesWriteFails (mainData twoPages) modulesRootPage \<and>
   writeFails routesWriteFails (mainData twoPages) routesRootPage \<and>
   \<not> persistedContains (processPages routesWriteFails twoPages) ''modules''"
proof -
  have ex: "\<exists>p\<in>set (pages twoPages). writeFails routesWriteFails (mainData twoPages) p"
    using twoPages_fails(1) by (simp add: twoPages_def)
  have "persistedIndex (processPages routesWriteFails twoPages) = None"
    by (simp add: processPages_failure_state [OF ex] settleWrites_frame processPagesStart_eq)
       (simp add: twoPages_def exampleApp_def)
  then show ?thesis using twoPages_fails by (simp add: persistedContains_def)
qed


section \<open>Events of the later stages\<close>

lemma appends_processExit:
  "Fatal \<in> S \<Longrightarrow> appends (inStages S) st st' \<Longrightarrow> appends (inStages S) st (processExit code st')"
  by (simp add: processExit_def appends_emit)

lemma appends_endCallback:
  "Finalization \<in> S \<Longrightarrow> appends (inStages S) st st' \<Longrightarrow> appends (inStages S) st (endCallback st')"
  by (simp add: endCallback_def appends_emit)

lemma appends_generationPromiseResolve:
  "Finalization \<in> S \<Longrightarrow> appends (inStages S) st st'
     \<Longrightarrow> appends (inStages S) st (generationPromiseResolve st')"
  by (simp add: generationPromiseResolve_def appends_emit)

lemma appends_generationPromiseReject:
  "Finalization \<in> S \<Longrightarrow> appends (inStages S) st st'
     \<Longrightarrow> appends (inStages S) st (generationPromiseReject st')"
  by (simp add: generationPromiseReject_def appends_emit)

lemma appends_runWatch:
  "{Logging, Finalization} \<subseteq> S \<Longrightarrow> appends (inStages S) st st'
     \<Longrightarrow> appends (inStages S) st (runWatch env st')"
  by (simp add: runWatch_def Let_def appends_emit appends_logger)

lemma appends_runWebServer:
  "{Logging, Finalization, Fatal} \<subseteq> S \<Longrightarrow> appends (inStages S) st st'
     \<Longrightarrow> appends (inStages S) st (runWebServer env folder st')"
  by (simp add: runWebServer_def Let_def appends_emit appends_logger appends_runWatch
      appends_processExit appends_generationPromiseReject split: option.split)

lemma appends_onComplete:
  "{Logging, Finalization, Fatal} \<subseteq> S \<Longrightarrow> appends (inStages S) st st'
     \<Longrightarrow> appends (inStages S) st (onComplete env st')"
  by (simp add: onComplete_def Let_def appends_emit appends_logger appends_runWebServer
      appends_endCallback appends_generationPromiseResolve)

lemma appends_processAssetsFolder:
  "{Logging, Finalization} \<subseteq> S \<Longrightarrow> appends (inStages S) st st'
     \<Longrightarrow> appends (inStages S) st (processAssetsFolder env st')"
  by (simp add: processAssetsFolder_def Let_def appends_emit appends_logger split: option.split)

lemma appends_copyExtTheme:
  "{Logging, Finalization, Fatal} \<subseteq> S \<Longrightarrow> appends (inStages S) st st'
     \<Longrightarrow> appends (inStages S) st (copyExtTheme env fo st')"
  by (simp add: copyExtTheme_def Let_def appends_emit appends_logger appends_onComplete
      split: option.split)

lemma appends_copyCustomFavicon:
  "{Logging, Finalization, Fatal} \<subseteq> S \<Longrightarrow> appends (inStages S) st st'
     \<Longrightarrow> appends (inStages S) st (copyCustomFavicon env fo st')"
  by (simp add: copyCustomFavicon_def Let_def appends_emit appends_logger appends_onComplete
      split: option.split)

lemma appends_resourcesCopied:
  "{Logging, Finalization, Fatal} \<subseteq> S \<Longrightarrow> appends (inStages S) st st'
     \<Longrightarrow> appends (inStages S) st (resourcesCopied env fo st')"
  by (simp add: resourcesCopied_def appends_copyExtTheme appends_copyCustomFavicon
      appends_onComplete)

lemma appends_processResources:
  "{Logging, Finalization, Fatal} \<subseteq> S \<Longrightarrow> appends (inStages S) st st'
     \<Longrightarrow> appends (inStages S) st (processResources env st')"
  by (simp add: processResources_def Let_def appends_emit appends_logger appends_resourcesCopied
      split: option.split)

lemma appends_finalize:
  "{Logging, Finalization, Fatal} \<subseteq> S \<Longrightarrow> appends (inStages S) st st'
     \<Longrightarrow> appends (inStages S) st (finalize env st')"
  by (simp add: finalize_def appends_processResources appends_processAssetsFolder)

lemma appends_persistIndex:
  "IndexPersist \<in> S \<Longrightarrow> appends (inStages S) st st' \<Longrightarrow> appends (inStages S) st (persistIndex st')"
  by (simp add: persistIndex_def appends_emit)

lemma appends_mapProcessPage:
  "{Logging, RenderStart} \<subseteq> S \<Longrightarrow> appends (inStages S) st st'
     \<Longrightarrow> appends (inStages S) st (snd (mapProcessPage env ps st'))"
  by (auto simp: mapProcessPage_eq appends_def list_all_iff pageStartEvents_def)

lemma appends_settleWrites_cont:
  assumes "{Logging, RenderSettle, Fatal} \<subseteq> S" "appends (inStages S) st st'"
  shows "appends (inStages S) st (snd (settleWrites env ph failed js st'))"
  by (rule appends_trans [OF assms(2) appends_stages_mono [OF appends_settleWrites assms(1)]])

lemma appends_processAdditionalPages:
  assumes "laterStages \<subseteq> S" "appends (inStages S) st st'"
  shows "appends (inStages S) st (processAdditionalPages env st')"
proof -
  from assms(1) have s: "{Logging, RenderStart} \<subseteq> S" "{Logging, RenderSettle, Fatal} \<subseteq> S"
    "{Logging, Finalization, Fatal} \<subseteq> S" "IndexPersist \<in> S" "Fatal \<in> S" "Logging \<in> S"
    by (auto simp: laterStages_def)
  let ?st1 = "snd (processAdditionalPagesStart env st')"
  have a1: "appends (inStages S) st ?st1"
    by (simp add: processAdditionalPagesStart_def Let_def appends_mapProcessPage [OF s(1)]
        appends_logger s assms(2))
  have a2: "appends (inStages S) st (snd (settleWrites env AdditionalPages False js ?st1))" for js
    by (rule appends_settleWrites_cont [OF s(2) a1])
  show ?thesis
    using a2 s
    by (simp add: processAdditionalPages_def processAdditionalPagesSettle_def split_beta
        appends_finalize appends_persistIndex appends_unhandledRejection appends_emit
        split: option.split bool.split prod.split)
qed

lemma appends_processPagesSettle:
  assumes "laterStages \<subseteq> S" "appends (inStages S) st st'"
  shows "appends (inStages S) st (processPagesSettle env jobs st')"
proof -
  from assms(1) have s: "{Logging, RenderStart} \<subseteq> S" "{Logging, RenderSettle, Fatal} \<subseteq> S"
    "{Logging, Finalization, Fatal} \<subseteq> S" "IndexPersist \<in> S" "Fatal \<in> S" "Logging \<in> S"
    by (auto simp: laterStages_def)
  have a2: "appends (inStages S) st (snd (settleWrites env MainPages False jobs st'))"
    by (rule appends_settleWrites_cont [OF s(2) assms(2)])
  show ?thesis
    using a2 s assms(1)
    by (simp add: processPagesSettle_def split_beta Let_def
        appends_finalize appends_persistIndex appends_processAdditionalPages appends_emit
        appends_logger split: option.split bool.split prod.split)
qed

lemma appends_processPages:
  assumes "laterStages \<subseteq> S" "appends (inStages S) st st'"
  shows "appends (inStages S) st (processPages env st')"
proof -
  from assms(1) have s: "{Logging, RenderStart} \<subseteq> S" "Logging \<in> S"
    by (auto simp: laterStages_def)
  have a1: "appends (inStages S) st (snd (processPagesStart env st'))"
    by (simp add: processPagesStart_def Let_def appends_mapProcessPage [OF s(1)] appends_logger s assms(2))
  show ?thesis
    by (simp add: processPages_def split_beta appends_processPagesSettle [OF assms(1) a1])
qed

lemma mainData_finalization [simp]:
  "mainData (processExit code st) = mainData st"
  "mainData (endCallback st) = mainData st"
  "mainData (generationPromiseResolve st) = mainData st"
  "mainData (generationPromiseReject st) = mainData st"
  "mainData (runWatch env st) = mainData st"
  "mainData (persistIndex st) = mainData st"
  "mainData (logger l msg st) = mainData st"
  "mainData (emit e st) = mainData st"
  by (simp_all add: processExit_def endCallback_def generationPromiseResolve_def
      generationPromiseReject_def runWatch_def persistIndex_def logger_def emit_def Let_def)

lemma mainData_runWebServer [simp]: "mainData (runWebServer env folder st) = mainData st"
  by (simp add: runWebServer_def Let_def split: option.split)

lemma mainData_onComplete [simp]: "mainData (onComplete env st) = mainData st"
  by (simp add: onComplete_def Let_def)

lemma mainData_processAssetsFolder [simp]: "mainData (processAssetsFolder env st) = mainData st"
  by (simp add: processAssetsFolder_def Let_def split: option.split)

lemma mainData_copyExtTheme [simp]: "mainData (copyExtTheme env fo st) = mainData st"
  by (simp add: copyExtTheme_def Let_def split: option.split)

lemma mainData_copyCustomFavicon [simp]: "mainData (copyCustomFavicon env fo st) = mainData st"
  by (simp add: copyCustomFavicon_def Let_def split: option.split)

lemma mainData_resourcesCopied [simp]: "mainData (resourcesCopied env fo st) = mainData st"
  by (simp add: resourcesCopied_def)

lemma mainData_processResources [simp]: "mainData (processResources env st) = mainData st"
  by (simp add: processResources_def Let_def split: option.split)


lemma mainData_finalize [simp]: "mainData (finalize env st) = mainData st"
  by (simp add: finalize_def)

lemma mainData_processAdditionalPages [simp]: "mainData (processAdditionalPages env st) = mainData st"
  by (simp add: processAdditionalPages_def processAdditionalPagesSettle_def
      processAdditionalPagesStart_def Let_def split_beta mapProcessPage_eq settleWrites_frame
      unhandledRejection_frame split: option.split bool.split prod.split)

lemma mainData_processPagesSettle [simp]: "mainData (processPagesSettle env jobs st) = mainData st"
  by (simp add: processPagesSettle_def Let_def split_beta settleWrites_frame
      split: option.split bool.split prod.split)

lemma mainData_processPages [simp]: "mainData (processPages env st) = mainData st"
  by (simp add: processPages_def split_beta processPagesStart_eq)

section \<open>Graph stage\<close>

lemma graph_notions_output:
  assumes "md_output md' = md_output md"
  shows "moduleGraphPath md' m = moduleGraphPath md m"
    and "graphSvg env md' m = graphSvg env md m"
    and "moduleGraphSucceeds env md' eng m = moduleGraphSucceeds env md eng m"
    and "moduleGraphFails env md' eng m = moduleGraphFails env md eng m"
    and "moduleRenderEvent md' m = moduleRenderEvent md m"
    and "moduleGraphEvents env md' eng m = moduleGraphEvents env md eng m"
    and "withGraph env md' eng m = withGraph env md eng m"
    and "moduleGraphError env md' m = moduleGraphError env md m"
proof -
  show p: "moduleGraphPath md' m = moduleGraphPath md m"
    using assms by (simp add: moduleGraphPath_def)
  show s: "graphSvg env md' m = graphSvg env md m"
    by (simp add: graphSvg_def p)
  show "moduleGraphSucceeds env md' eng m = moduleGraphSucceeds env md eng m"
    by (simp add: moduleGraphSucceeds_def p s split: option.split)
  show "moduleGraphFails env md' eng m = moduleGraphFails env md eng m"
    by (simp add: moduleGraphFails_def p s)
  show r: "moduleRenderEvent md' m = moduleRenderEvent md m"
    by (simp add: moduleRenderEvent_def p)
  show "moduleGraphEvents env md' eng m = moduleGraphEvents env md eng m"
    by (simp add: moduleGraphEvents_def r s)
  show "withGraph env md' eng m = withGraph env md eng m"
    by (simp add: withGraph_def s split: sum.split)
  show "moduleGraphError env md' m = moduleGraphError env md m"
    by (simp add: moduleGraphError_def p s split: option.split sum.split)
qed

lemma loopGraphs_step_past:
  assumes "moduleGraphSucceeds env (mainData st) (engine st) m"
  shows "loopGraphs env (m # ms) st =
           (case loopGraphs env ms
                   (st\<lparr>trace := trace st @ moduleGraphEvents env (mainData st) (engine st) m\<rparr>) of
              (r, ms', st') \<Rightarrow> (r, withGraph env (mainData st) (engine st) m # ms', st'))"
proof (cases "getRawModule (engine st) (m_name m)")
  case None
  with assms show ?thesis by (simp add: moduleGraphSucceeds_def)
next
  case (Some raw)
  show ?thesis
  proof (cases "hasRelations raw")
    case False
    with Some show ?thesis
      by (simp add: Let_def logger_def emit_def moduleGraphEvents_def withGraph_def rendersGraph_def)
  next
    case True
    with Some assms obtain data where
      r: "renderGraph env (m_file m) (moduleGraphPath (mainData st) m) ''f'' (Some (m_name m)) = None"
      and d: "readGraph env (graphSvg env (mainData st) m) (m_name m) = Inr data"
      by (cases "readGraph env (graphSvg env (mainData st) m) (m_name m)")
         (auto simp: moduleGraphSucceeds_def)
    from d have d': "readGraph env (resolve env (moduleGraphPath (mainData st) m @ sep env @ ''dependencies.svg'')) (m_name m) = Inr data"
      by (simp add: graphSvg_def)
    show ?thesis
      using Some True r d d'
      by (simp add: Let_def logger_def emit_def moduleGraphEvents_def withGraph_def rendersGraph_def
          moduleRenderEvent_def graphSvg_def)
  qed
qed

lemma loopGraphs_past:
  assumes "\<forall>m\<in>set ms1. moduleGraphSucceeds env (mainData st) (engine st) m"
  shows "loopGraphs env (ms1 @ rest) st =
           (case loopGraphs env rest
                   (st\<lparr>trace := trace st @ concat (map (moduleGraphEvents env (mainData st) (engine st)) ms1)\<rparr>) of
              (r, ms', st') \<Rightarrow> (r, map (withGraph env (mainData st) (engine st)) ms1 @ ms', st'))"
  using assms
proof (induction ms1 arbitrary: st)
  case Nil
  show ?case by simp
next
  case (Cons m ms1)
  let ?st1 = "st\<lparr>trace := trace st @ moduleGraphEvents env (mainData st) (engine st) m\<rparr>"
  from Cons.prems have m: "moduleGraphSucceeds env (mainData st) (engine st) m" by simp
  from Cons.prems have rest: "\<forall>x\<in>set ms1. moduleGraphSucceeds env (mainData ?st1) (engine ?st1) x"
    by simp
  show ?case
    unfolding append_Cons loopGraphs_step_past [OF m] Cons.IH [OF rest]
    by (simp add: split_beta)
qed

lemma loopGraphs_step_fail:
  assumes "moduleGraphFails env (mainData st) (engine st) m"
  shows "\<exists>T. loopGraphs env (m # ms) st = (Halted, m # ms, st\<lparr>trace := trace st @ T\<rparr>) \<and>
             list_all (inStages {Logging, GraphStage}) T \<and>
             filter isRenderGraph T = [moduleRenderEvent (mainData st) m] \<and>
             T \<noteq> [] \<and> last T = Log Error (moduleGraphError env (mainData st) m)"
proof -
  from assms obtain raw where raw: "getRawModule (engine st) (m_name m) = Some raw" "hasRelations raw"
    by (auto simp: moduleGraphFails_def rendersGraph_def split: option.splits)
  show ?thesis
  proof (cases "renderGraph env (m_file m) (moduleGraphPath (mainData st) m) ''f'' (Some (m_name m))")
    case (Some errorMessage)
    with raw show ?thesis
      by (intro exI [of _ "[Log Info (''Process module graph '' @ m_name m),
                            moduleRenderEvent (mainData st) m, Log Error errorMessage]"])
         (simp add: Let_def logger_def emit_def moduleGraphError_def moduleRenderEvent_def)
  next
    case None
    with assms obtain err where
      d: "readGraph env (graphSvg env (mainData st) m) (m_name m) = Inl err"
      by (cases "readGraph env (graphSvg env (mainData st) m) (m_name m)")
         (auto simp: moduleGraphFails_def)
    from d have d': "readGraph env (resolve env (moduleGraphPath (mainData st) m @ sep env @ ''dependencies.svg'')) (m_name m) = Inl err"
      by (simp add: graphSvg_def)
    show ?thesis
      using raw None d d'
      by (intro exI [of _ "[Log Info (''Process module graph '' @ m_name m),
                            moduleRenderEvent (mainData st) m,
                            ReadGraph (graphSvg env (mainData st) m) (m_name m),
                            Log Error (''Error during graph read: '' @ err)]"])
         (simp add: Let_def logger_def emit_def moduleGraphError_def moduleRenderEvent_def
            graphSvg_def)
  qed
qed

lemma moduleGraphEvents_stages:
  "list_all (inStages {Logging, GraphStage}) (concat (map (moduleGraphEvents env md eng) ms))"
  by (induction ms) (simp_all add: moduleGraphEvents_def moduleRenderEvent_def)

lemma moduleGraphEvents_renders:
  "filter isRenderGraph (concat (map (moduleGraphEvents env md eng) ms))
     = map (moduleRenderEvent md) (filter (rendersGraph eng) ms)"
  by (induction ms) (simp_all add: moduleGraphEvents_def moduleRenderEvent_def)

text \<open>The whole-project graph.\<close>

lemma processGraphsStart_enabled:
  assumes "\<not> disableGraph (mainData st)"
  shows "processGraphsStart env st =
           (PendingMainGraph,
            st\<lparr>trace := trace st @ [Log Info ''Process main graph'',
                                     GraphInit (resolve env (mainGraphPath (mainData st))),
                                     mainRenderEvent env (mainData st)]\<rparr>)"
  using assms by (simp add: processGraphsStart_def Let_def logger_def emit_def mainRenderEvent_def)

lemma mainGraphSettle_eq:
  "\<exists>T mg. mainGraphSettle env st =
             st\<lparr>mainData := (mainData st)\<lparr>disableMainGraph :=
                                 (disableMainGraph (mainData st) \<or> mainGraphFails env (mainData st)),
                               mainGraph := mg\<rparr>,
                trace := trace st @ T\<rparr> \<and>
           list_all (inStages {Logging, GraphStage}) T \<and> filter isRenderGraph T = []"
proof (cases "renderGraph env (tsconfig (mainData st)) (resolve env (mainGraphPath (mainData st))) ''p'' None")
  case (Some err)
  then show ?thesis
    by (intro exI [of _ "[Log Error (''Ooops error during main graph generation, moving on next part with main graph disabled : '' @ err)]"]
          exI [of _ "mainGraph (mainData st)"])
       (simp add: mainGraphSettle_def Let_def logger_def emit_def mainGraphFails_def)
next
  case None
  let ?svg = "resolve env (mainGraphPath (mainData st) @ sep env @ ''dependencies.svg'')"
  show ?thesis
  proof (cases "readGraph env ?svg ''Main graph''")
    case (Inl err)
    with None show ?thesis
      by (intro exI [of _ "[ReadGraph ?svg ''Main graph'', Log Error (''Error during main graph reading : '' @ err)]"]
            exI [of _ "mainGraph (mainData st)"])
         (simp add: mainGraphSettle_def Let_def logger_def emit_def mainGraphFails_def)
  next
    case (Inr data)
    with None show ?thesis
      by (intro exI [of _ "[ReadGraph ?svg ''Main graph'']"] exI [of _ "Some data"])
         (simp add: mainGraphSettle_def Let_def logger_def emit_def mainGraphFails_def)
  qed
qed

lemma no_graph_events:
  "list_all (inStages S) T \<Longrightarrow> GraphStage \<notin> S \<Longrightarrow> filter isRenderGraph T = []"
proof (induction T)
  case Nil
  show ?case by simp
next
  case (Cons e T)
  then show ?case by (cases e) (auto simp: inStages_def)
qed

lemma processGraphs_reduce:
  assumes en: "\<not> disableGraph (mainData st)"
      and ms: "modules (mainData st) = ms1 @ rest"
      and ok: "\<forall>m\<in>set ms1. moduleGraphSucceeds env (mainData st) (engine st) m"
  shows "\<exists>T mg stX.
           list_all (inStages {Logging, GraphStage}) T \<and> filter isRenderGraph T = [] \<and>
           stX = st\<lparr>mainData := (mainData st)\<lparr>disableMainGraph :=
                                 (disableMainGraph (mainData st) \<or> mainGraphFails env (mainData st)),
                               mainGraph := mg\<rparr>,
                    trace := trace st @ graphStart env (mainData st) @ T
                               @ concat (map (moduleGraphEvents env (mainData st) (engine st)) ms1)\<rparr> \<and>
           processGraphs env st =
             (case loopGraphs env rest stX of
                (r, ms', st') \<Rightarrow>
                  (let st2 = st'\<lparr>mainData := (mainData st')
                               \<lparr>modules := map (withGraph env (mainData st) (engine st)) ms1 @ ms'\<rparr>\<rparr>
                   in case r of Finished \<Rightarrow> processPages env st2
                      | Halted \<Rightarrow> st2
                      | Threw \<Rightarrow> unhandledRejection st2))"
proof -
  let ?st1 = "st\<lparr>trace := trace st @ graphStart env (mainData st)\<rparr>"
  have start: "processGraphsStart env st = (PendingMainGraph, ?st1)"
    by (simp add: processGraphsStart_enabled [OF en] graphStart_def)
  from mainGraphSettle_eq [of env ?st1] obtain T mg where
    settle: "mainGraphSettle env ?st1 =
               ?st1\<lparr>mainData := (mainData ?st1)\<lparr>disableMainGraph :=
                                    (disableMainGraph (mainData ?st1) \<or> mainGraphFails env (mainData ?st1)),
                                  mainGraph := mg\<rparr>,
                    trace := trace ?st1 @ T\<rparr>"
    and T: "list_all (inStages {Logging, GraphStage}) T" "filter isRenderGraph T = []"
    by blast
  let ?md2 = "(mainData st)\<lparr>disableMainGraph :=
                 (disableMainGraph (mainData st) \<or> mainGraphFails env (mainData st)),
               mainGraph := mg\<rparr>"
  let ?st2 = "st\<lparr>mainData := ?md2, trace := trace st @ graphStart env (mainData st) @ T\<rparr>"
  have st2: "mainGraphSettle env ?st1 = ?st2" by (simp add: settle)
  have out: "md_output ?md2 = md_output (mainData st)" by simp
  have ok2: "\<forall>m\<in>set ms1. moduleGraphSucceeds env (mainData ?st2) (engine ?st2) m"
    using ok by (simp add: graph_notions_output(3) [OF out])
  have ev: "moduleGraphEvents env (mainData ?st2) (engine ?st2) = moduleGraphEvents env (mainData st) (engine st)"
    by (rule ext) (simp add: graph_notions_output(6) [OF out])
  have wg: "withGraph env (mainData ?st2) (engine ?st2) = withGraph env (mainData st) (engine st)"
    by (rule ext) (simp add: graph_notions_output(7) [OF out])
  let ?stX = "st\<lparr>mainData := ?md2,
                  trace := trace st @ graphStart env (mainData st) @ T
                             @ concat (map (moduleGraphEvents env (mainData st) (engine st)) ms1)\<rparr>"
  have loop: "loopGraphs env (ms1 @ rest) ?st2 =
                (case loopGraphs env rest ?stX of
                   (r, ms', st') \<Rightarrow> (r, map (withGraph env (mainData st) (engine st)) ms1 @ ms', st'))"
    unfolding loopGraphs_past [OF ok2] ev wg by simp
  have "processGraphs env st =
          (case loopGraphs env rest ?stX of
             (r, ms', st') \<Rightarrow>
               (let st2 = st'\<lparr>mainData := (mainData st')
                            \<lparr>modules := map (withGraph env (mainData st) (engine st)) ms1 @ ms'\<rparr>\<rparr>
                in case r of Finished \<Rightarrow> processPages env st2
                   | Halted \<Rightarrow> st2
                   | Threw \<Rightarrow> unhandledRejection st2))"
    by (simp add: processGraphs_def start processGraphsSettle_def graphLoopThenPages_def
        graphLoop_def st2 ms loop split_beta Let_def split: loopEnd.split)
  with T show ?thesis by blast
qed

lemma newEvents_ext: "trace st' = trace st @ T \<Longrightarrow> newEvents st st' = T"
  by (simp add: newEvents_def)

lemma newEvents_via:
  "trace st1 = trace st @ T \<Longrightarrow> appends P st1 st2 \<Longrightarrow> newEvents st st2 = T @ newEvents st1 st2"
  by (auto simp: appends_def newEvents_def)

lemma emptyAndApp_succeeds:
  "\<forall>m\<in>set [exampleModule ''EmptyModule'' [], exampleModule ''AppModule'' [homeDeclaration]].
     moduleGraphSucceeds exampleEnv (mainData emptyAndApp) (engine emptyAndApp) m"
  by (simp add: moduleGraphSucceeds_def emptyAndApp_def graphEngine_def exampleModule_def
      exampleEnv_def rawOf_def hasRelations_def)

lemma emptyAndApp_renders:
  "\<not> rendersGraph (engine emptyAndApp) (exampleModule ''EmptyModule'' [])"
  "rendersGraph (engine emptyAndApp) (exampleModule ''AppModule'' [homeDeclaration])"
  by (simp_all add: rendersGraph_def emptyAndApp_def graphEngine_def exampleModule_def rawOf_def
      hasRelations_def)

lemma appAndShared_fails:
  "moduleGraphFails appRenderFails (mainData appAndShared) (engine appAndShared)
     (exampleModule ''AppModule'' [homeDeclaration])"
  by (simp add: moduleGraphFails_def rendersGraph_def appAndShared_def graphEngine_def
      exampleModule_def rawOf_def hasRelations_def appRenderFails_def homeDeclaration_def)

lemma appAndShared_renders:
  "rendersGraph (engine appAndShared) (exampleModule ''SharedModule'' [homeDeclaration])"
  by (simp add: rendersGraph_def appAndShared_def graphEngine_def exampleModule_def rawOf_def
      hasRelations_def homeDeclaration_def)

lemma moduleGraph_cases:
  "moduleGraphSucceeds env md eng m \<or> moduleGraphFails env md eng m \<or>
   getRawModule eng (m_name m) = None"
  by (auto simp: moduleGraphSucceeds_def moduleGraphFails_def rendersGraph_def split: option.splits)

lemma loopGraphs_step_throw:
  assumes "getRawModule (engine st) (m_name m) = None"
  shows "loopGraphs env (m # ms) st =
           (Threw, m # ms, st\<lparr>trace := trace st @ [Log Info (''Process module graph '' @ m_name m)]\<rparr>)"
  using assms by (simp add: Let_def logger_def emit_def)

lemma processGraphs_renders_upto:
  assumes en: "\<not> disableGraph (mainData st)"
      and ms: "modules (mainData st) = ms1 @ rest"
      and ok: "\<forall>m\<in>set ms1. moduleGraphSucceeds env (mainData st) (engine st) m"
      and rest: "rest = [] \<or> \<not> moduleGraphSucceeds env (mainData st) (engine st) (hd rest)"
  shows "filter isRenderGraph (newEvents st (processGraphs env st)) =
           mainRenderEvent env (mainData st)
           # map (moduleRenderEvent (mainData st))
               (filter (rendersGraph (engine st)) (ms1 @ take 1 rest)) \<and>
         disableMainGraph (mainData (processGraphs env st)) =
           (disableMainGraph (mainData st) \<or> mainGraphFails env (mainData st))"
proof -
  from processGraphs_reduce [OF en ms ok] obtain T mg stX where
    T: "list_all (inStages {Logging, GraphStage}) T" "filter isRenderGraph T = []"
    and stX: "stX = st\<lparr>mainData := (mainData st)\<lparr>disableMainGraph :=
                                 (disableMainGraph (mainData st) \<or> mainGraphFails env (mainData st)),
                               mainGraph := mg\<rparr>,
                    trace := trace st @ graphStart env (mainData st) @ T
                               @ concat (map (moduleGraphEvents env (mainData st) (engine st)) ms1)\<rparr>"
    and run: "processGraphs env st =
             (case loopGraphs env rest stX of
                (r, ms', st') \<Rightarrow>
                  (let st2 = st'\<lparr>mainData := (mainData st')
                               \<lparr>modules := map (withGraph env (mainData st) (engine st)) ms1 @ ms'\<rparr>\<rparr>
                   in case r of Finished \<Rightarrow> processPages env st2
                      | Halted \<Rightarrow> st2
                      | Threw \<Rightarrow> unhandledRejection st2))"
    by blast
  let ?pre = "graphStart env (mainData st) @ T
                @ concat (map (moduleGraphEvents env (mainData st) (engine st)) ms1)"
  have pre: "filter isRenderGraph ?pre =
               mainRenderEvent env (mainData st)
               # map (moduleRenderEvent (mainData st)) (filter (rendersGraph (engine st)) ms1)"
    by (simp add: graphStart_def mainRenderEvent_def T moduleGraphEvents_renders)
  have trX: "trace stX = trace st @ ?pre" by (simp add: stX)
  show ?thesis
  proof (cases rest)
    case Nil
    let ?st2 = "stX\<lparr>mainData := (mainData stX)
                  \<lparr>modules := map (withGraph env (mainData st) (engine st)) ms1\<rparr>\<rparr>"
    have r: "processGraphs env st = processPages env ?st2" by (simp add: run Nil)
    have a: "appends (inStages laterStages) ?st2 (processPages env ?st2)"
      by (rule appends_processPages) simp_all
    have later: "filter isRenderGraph (newEvents ?st2 (processPages env ?st2)) = []"
      by (rule no_graph_events [OF conjunct2 [OF appends_newEvents [OF a]]]) (simp add: laterStages_def)
    have tr2: "trace ?st2 = trace st @ ?pre" by (simp add: stX)
    have "newEvents st (processPages env ?st2) = ?pre @ newEvents ?st2 (processPages env ?st2)"
      by (rule newEvents_via [OF tr2 a])
    then show ?thesis
      unfolding r using pre later by (simp add: Nil stX)
  next
    case (Cons m ms2)
    with rest have nok: "\<not> moduleGraphSucceeds env (mainData st) (engine st) m" by simp
    have out: "md_output (mainData stX) = md_output (mainData st)" by (simp add: stX)
    have eng: "engine stX = engine st" by (simp add: stX)
    show ?thesis
    proof (cases "moduleGraphFails env (mainData st) (engine st) m")
      case True
      then have fX: "moduleGraphFails env (mainData stX) (engine stX) m"
        by (simp add: graph_notions_output(4) [OF out] eng)
      from loopGraphs_step_fail [OF fX, of ms2] obtain T2 where
        l: "loopGraphs env (m # ms2) stX = (Halted, m # ms2, stX\<lparr>trace := trace stX @ T2\<rparr>)"
        and T2: "filter isRenderGraph T2 = [moduleRenderEvent (mainData stX) m]"
        by blast
      have rg: "rendersGraph (engine st) m" using True by (simp add: moduleGraphFails_def)
      have re: "moduleRenderEvent (mainData stX) m = moduleRenderEvent (mainData st) m"
        by (rule graph_notions_output(5) [OF out])
      have res: "processGraphs env st =
                   (stX\<lparr>trace := trace stX @ T2\<rparr>)\<lparr>mainData := (mainData stX)
                      \<lparr>modules := map (withGraph env (mainData st) (engine st)) ms1 @ m # ms2\<rparr>\<rparr>"
        unfolding run Cons l by simp
      have "newEvents st (processGraphs env st) = ?pre @ T2"
        by (rule newEvents_ext) (simp add: res trX)
      moreover have "disableMainGraph (mainData (processGraphs env st)) =
             (disableMainGraph (mainData st) \<or> mainGraphFails env (mainData st))"
        unfolding res by (simp add: stX)
      ultimately show ?thesis
        using pre T2 rg by (simp add: Cons re)
    next
      case False
      with nok moduleGraph_cases [of env "mainData st" "engine st" m]
      have none: "getRawModule (engine st) (m_name m) = None" by blast
      then have noneX: "getRawModule (engine stX) (m_name m) = None" by (simp add: eng)
      let ?T2 = "[Log Info (''Process module graph '' @ m_name m)]"
      let ?st2 = "(stX\<lparr>trace := trace stX @ ?T2\<rparr>)\<lparr>mainData := (mainData stX)
                      \<lparr>modules := map (withGraph env (mainData st) (engine st)) ms1 @ m # ms2\<rparr>\<rparr>"
      have res: "processGraphs env st = unhandledRejection ?st2"
        unfolding run Cons loopGraphs_step_throw [OF noneX] by simp
      have a: "appends (inStages {Logging, Fatal}) ?st2 (unhandledRejection ?st2)"
        by (rule appends_unhandledRejection) simp_all
      have later: "filter isRenderGraph (newEvents ?st2 (unhandledRejection ?st2)) = []"
        by (rule no_graph_events [OF conjunct2 [OF appends_newEvents [OF a]]]) simp
      have tr2: "trace ?st2 = trace st @ (?pre @ ?T2)" by (simp add: stX)
      have new: "newEvents st (unhandledRejection ?st2) = (?pre @ ?T2) @ newEvents ?st2 (unhandledRejection ?st2)"
        by (rule newEvents_via [OF tr2 a])
      have rg: "\<not> rendersGraph (engine st) m" using none by (simp add: rendersGraph_def)
      have "disableMainGraph (mainData (processGraphs env st)) =
             (disableMainGraph (mainData st) \<or> mainGraphFails env (mainData st))"
        unfolding res by (simp add: unhandledRejection_frame stX)
      then show ?thesis
        unfolding res new using pre later rg by (simp add: Cons)
    qed
  qed
qed

lemma processGraphs_halted:
  assumes en: "\<not> disableGraph (mainData st)"
      and ms: "modules (mainData st) = ms1 @ m # ms2"
      and ok: "\<forall>x\<in>set ms1. moduleGraphSucceeds env (mainData st) (engine st) x"
      and f: "moduleGraphFails env (mainData st) (engine st) m"
  shows "\<exists>T md'. processGraphs env st = st\<lparr>mainData := md', trace := trace st @ T\<rparr> \<and>
                 T \<noteq> [] \<and> last T = Log Error (moduleGraphError env (mainData st) m) \<and>
                 list_all (inStages {Logging, GraphStage}) T"
proof -
  from processGraphs_reduce [OF en ms ok] obtain T mg stX where
    T: "list_all (inStages {Logging, GraphStage}) T"
    and stX: "stX = st\<lparr>mainData := (mainData st)\<lparr>disableMainGraph :=
                                 (disableMainGraph (mainData st) \<or> mainGraphFails env (mainData st)),
                               mainGraph := mg\<rparr>,
                    trace := trace st @ graphStart env (mainData st) @ T
                               @ concat (map (moduleGraphEvents env (mainData st) (engine st)) ms1)\<rparr>"
    and run: "processGraphs env st =
             (case loopGraphs env (m # ms2) stX of
                (r, ms', st') \<Rightarrow>
                  (let st2 = st'\<lparr>mainData := (mainData st')
                               \<lparr>modules := map (withGraph env (mainData st) (engine st)) ms1 @ ms'\<rparr>\<rparr>
                   in case r of Finished \<Rightarrow> processPages env st2
                      | Halted \<Rightarrow> st2
                      | Threw \<Rightarrow> unhandledRejection st2))"
    by blast
  let ?pre = "graphStart env (mainData st) @ T
                @ concat (map (moduleGraphEvents env (mainData st) (engine st)) ms1)"
  have out: "md_output (mainData stX) = md_output (mainData st)" by (simp add: stX)
  have eng: "engine stX = engine st" by (simp add: stX)
  from f have fX: "moduleGraphFails env (mainData stX) (engine stX) m"
    by (simp add: graph_notions_output(4) [OF out] eng)
  from loopGraphs_step_fail [OF fX, of ms2] obtain T2 where
    l: "loopGraphs env (m # ms2) stX = (Halted, m # ms2, stX\<lparr>trace := trace stX @ T2\<rparr>)"
    and T2: "list_all (inStages {Logging, GraphStage}) T2" "T2 \<noteq> []"
      "last T2 = Log Error (moduleGraphError env (mainData stX) m)"
    by blast
  have er: "moduleGraphError env (mainData stX) m = moduleGraphError env (mainData st) m"
    by (rule graph_notions_output(8) [OF out])
  have res: "processGraphs env st =
               st\<lparr>mainData := (mainData stX)
                    \<lparr>modules := map (withGraph env (mainData st) (engine st)) ms1 @ m # ms2\<rparr>,
                  trace := trace st @ (?pre @ T2)\<rparr>"
    unfolding run l by (simp add: stX)
  have pre: "list_all (inStages {Logging, GraphStage}) ?pre"
    by (simp add: graphStart_def mainRenderEvent_def T moduleGraphEvents_stages)
  have "?pre @ T2 \<noteq> []" "last (?pre @ T2) = Log Error (moduleGraphError env (mainData st) m)"
    "list_all (inStages {Logging, GraphStage}) (?pre @ T2)"
    using pre T2 by (simp_all add: er)
  with res show ?thesis by blast
qed

lemma stage_not_fatal:
  assumes "list_all (inStages {Logging, GraphStage}) T"
  shows "UnhandledRejection \<notin> set T" "GenerationRejected \<notin> set T" "ProcessExit c \<notin> set T"
  using assms by (auto simp: list_all_iff inStages_def)

lemma installed_graph_facts:
  "\<not> disableGraph (mainData (installListeners appAndShared))"
  "modules (mainData (installListeners appAndShared)) =
     [] @ exampleModule ''AppModule'' [homeDeclaration]
        # [exampleModule ''SharedModule'' [homeDeclaration]]"
  "mainData (installListeners appAndShared) = mainData appAndShared"
  "engine (installListeners appAndShared) = engine appAndShared"
  "trace (installListeners appAndShared) = [ListenersAdded]"
  "generationPromise (installListeners appAndShared) = Unsettled"
  "exited (installListeners appAndShared) = None"
  "unhandledRejectionListeners (installListeners appAndShared) = 1"
  by (simp_all add: installListeners_def emit_def appAndShared_def exampleApp_def exampleMainData_def)

text \<open>
  C7 (amended).  With graphs enabled, the renderer is called once for the whole project,
  first, whether or not that render or the read after it fails; after that it is called
  once, in the order of the list, for each module with a non-empty relation list in its raw
  record among the modules that the loop reaches, and for no other module.  The loop
  reaches the modules up to and including the first one it does not get past: a module
  whose render or read fails, or a module without a raw record in the collection.  After
  the stage the whole-project graph is marked disabled exactly if it was so before or its
  render or read failed.
\<close>

theorem processGraphs_renders:
  assumes en: "\<not> disableGraph (mainData st)"
  shows "filter isRenderGraph (newEvents st (processGraphs env st)) =
           mainRenderEvent env (mainData st)
           # map (moduleRenderEvent (mainData st))
               (filter (rendersGraph (engine st))
                  (reachedModules env (mainData st) (engine st) (modules (mainData st)))) \<and>
         disableMainGraph (mainData (processGraphs env st)) =
           (disableMainGraph (mainData st) \<or> mainGraphFails env (mainData st))"
proof -
  let ?P = "moduleGraphSucceeds env (mainData st) (engine st)"
  have ms: "modules (mainData st) = takeWhile ?P (modules (mainData st)) @ dropWhile ?P (modules (mainData st))"
    by simp
  have ok: "\<forall>m\<in>set (takeWhile ?P (modules (mainData st))). ?P m"
    by (auto dest: set_takeWhileD)
  have rest: "dropWhile ?P (modules (mainData st)) = [] \<or> \<not> ?P (hd (dropWhile ?P (modules (mainData st))))"
    using hd_dropWhile [of ?P "modules (mainData st)"] by blast
  show ?thesis
    unfolding reachedModules_def by (rule processGraphs_renders_upto [OF en ms ok rest])
qed

theorem processGraphs_renders_witness:
  "\<not> disableGraph (mainData emptyAndApp) \<and>
   filter isRenderGraph (newEvents emptyAndApp (processGraphs exampleEnv emptyAndApp)) =
     [RenderGraph ''tsconfig.json'' ''out/graph'' ''p'' None,
      RenderGraph ''src/AppModule.ts'' ''out/modules/AppModule'' ''f'' (Some ''AppModule'')]"
proof -
  have en: "\<not> disableGraph (mainData emptyAndApp)"
    by (simp add: emptyAndApp_def exampleMainData_def)
  have ms: "modules (mainData emptyAndApp) =
              [exampleModule ''EmptyModule'' [], exampleModule ''AppModule'' [homeDeclaration]]"
    by (simp add: emptyAndApp_def)
  have reached: "reachedModules exampleEnv (mainData emptyAndApp) (engine emptyAndApp)
                   (modules (mainData emptyAndApp)) =
                 [exampleModule ''EmptyModule'' [], exampleModule ''AppModule'' [homeDeclaration]]"
    unfolding ms reachedModules_def using emptyAndApp_succeeds by simp
  have m: "mainRenderEvent exampleEnv (mainData emptyAndApp) = RenderGraph ''tsconfig.json'' ''out/graph'' ''p'' None"
    by (simp add: mainRenderEvent_def emptyAndApp_def exampleMainData_def exampleEnv_def mainGraphPath_def)
  have r: "moduleRenderEvent (mainData emptyAndApp) (exampleModule ''AppModule'' [homeDeclaration])
             = RenderGraph ''src/AppModule.ts'' ''out/modules/AppModule'' ''f'' (Some ''AppModule'')"
    by (simp add: moduleRenderEvent_def emptyAndApp_def exampleMainData_def exampleModule_def
        moduleGraphPath_def)
  from processGraphs_renders [OF en, of exampleEnv] en show ?thesis
    unfolding reached by (simp add: emptyAndApp_renders m r)
qed

text \<open>
  C7 as stated fails: two modules have a declaration each, the render of the first fails,
  and the renderer is never called for the second.
\<close>

theorem processGraphs_skips_after_failure:
  "rendersGraph (engine appAndShared) (exampleModule ''SharedModule'' [homeDeclaration]) \<and>
   moduleRenderEvent (mainData appAndShared) (exampleModule ''SharedModule'' [homeDeclaration])
     \<notin> set (newEvents appAndShared (processGraphs appRenderFails appAndShared))"
proof -
  have en: "\<not> disableGraph (mainData appAndShared)"
    by (simp add: appAndShared_def exampleMainData_def)
  have ms: "modules (mainData appAndShared) =
              [] @ [exampleModule ''AppModule'' [homeDeclaration],
                    exampleModule ''SharedModule'' [homeDeclaration]]"
    by (simp add: appAndShared_def)
  have rA: "rendersGraph (engine appAndShared) (exampleModule ''AppModule'' [homeDeclaration])"
    using appAndShared_fails by (simp add: moduleGraphFails_def)
  have f: "[exampleModule ''AppModule'' [homeDeclaration],
            exampleModule ''SharedModule'' [homeDeclaration]] = [] \<or>
           \<not> moduleGraphSucceeds appRenderFails (mainData appAndShared) (engine appAndShared)
             (hd [exampleModule ''AppModule'' [homeDeclaration],
                  exampleModule ''SharedModule'' [homeDeclaration]])"
    using appAndShared_fails
    by (auto simp: moduleGraphFails_def moduleGraphSucceeds_def rendersGraph_def split: option.splits)
  let ?ev = "moduleRenderEvent (mainData appAndShared) (exampleModule ''SharedModule'' [homeDeclaration])"
  have "filter isRenderGraph (newEvents appAndShared (processGraphs appRenderFails appAndShared)) =
          [mainRenderEvent appRenderFails (mainData appAndShared),
           moduleRenderEvent (mainData appAndShared) (exampleModule ''AppModule'' [homeDeclaration])]"
    using processGraphs_renders_upto [OF en ms _ f] rA by simp
  moreover have "?ev \<noteq> mainRenderEvent appRenderFails (mainData appAndShared)"
    by (simp add: moduleRenderEvent_def mainRenderEvent_def)
  moreover have "?ev \<noteq> moduleRenderEvent (mainData appAndShared) (exampleModule ''AppModule'' [homeDeclaration])"
    by (simp add: moduleRenderEvent_def exampleModule_def)
  ultimately have "?ev \<notin> set (filter isRenderGraph (newEvents appAndShared (processGraphs appRenderFails appAndShared)))"
    by simp
  moreover have "isRenderGraph ?ev" by (simp add: moduleRenderEvent_def)
  ultimately have "?ev \<notin> set (newEvents appAndShared (processGraphs appRenderFails appAndShared))"
    by (simp del: filter_set)
  then show ?thesis using appAndShared_renders by simp
qed

text \<open>
  C3 (amended).  With graphs enabled, when the loop reaches a module (it got past every
  module before it) and the render or the read of that module's graph fails, the error is
  logged and it is the last thing that happens: the renderer is called for no later
  module, the run adds no event of a later stage, no page is rendered, indexed or written
  and the search index is not persisted.  Nothing is passed on: no promise is rejected,
  the generation promise, the exit code and the process-level listeners are as they were.
\<close>

theorem processGraphs_module_failure:
  assumes en: "\<not> disableGraph (mainData st)"
      and ms: "modules (mainData st) = ms1 @ m # ms2"
      and ok: "\<forall>x\<in>set ms1. moduleGraphSucceeds env (mainData st) (engine st) x"
      and f: "moduleGraphFails env (mainData st) (engine st) m"
  shows "newEvents st (processGraphs env st) \<noteq> [] \<and>
         last (newEvents st (processGraphs env st)) = Log Error (moduleGraphError env (mainData st) m) \<and>
         list_all (inStages {Logging, GraphStage}) (newEvents st (processGraphs env st)) \<and>
         filter isRenderGraph (newEvents st (processGraphs env st)) =
           mainRenderEvent env (mainData st)
           # map (moduleRenderEvent (mainData st)) (filter (rendersGraph (engine st)) (ms1 @ [m])) \<and>
         UnhandledRejection \<notin> set (newEvents st (processGraphs env st)) \<and>
         GenerationRejected \<notin> set (newEvents st (processGraphs env st)) \<and>
         pages (processGraphs env st) = pages st \<and>
         searchIndex (processGraphs env st) = searchIndex st \<and>
         written (processGraphs env st) = written st \<and>
         persistedIndex (processGraphs env st) = persistedIndex st \<and>
         generationPromise (processGraphs env st) = generationPromise st \<and>
         unhandledRejectionListeners (processGraphs env st) = unhandledRejectionListeners st \<and>
         uncaughtExceptionListeners (processGraphs env st) = uncaughtExceptionListeners st \<and>
         exited (processGraphs env st) = exited st"
proof -
  from processGraphs_halted [OF en ms ok f] obtain T md' where
    res: "processGraphs env st = st\<lparr>mainData := md', trace := trace st @ T\<rparr>"
    and T: "T \<noteq> []" "last T = Log Error (moduleGraphError env (mainData st) m)"
      "list_all (inStages {Logging, GraphStage}) T"
    by blast
  have new: "newEvents st (processGraphs env st) = T"
    by (rule newEvents_ext) (simp add: res)
  from f have nok: "m # ms2 = [] \<or> \<not> moduleGraphSucceeds env (mainData st) (engine st) (hd (m # ms2))"
    by (auto simp: moduleGraphFails_def moduleGraphSucceeds_def rendersGraph_def split: option.splits)
  have calls: "filter isRenderGraph (newEvents st (processGraphs env st)) =
           mainRenderEvent env (mainData st)
           # map (moduleRenderEvent (mainData st)) (filter (rendersGraph (engine st)) (ms1 @ [m]))"
    using processGraphs_renders_upto [OF en ms ok nok] by simp
  have frame: "pages (processGraphs env st) = pages st"
    "searchIndex (processGraphs env st) = searchIndex st"
    "written (processGraphs env st) = written st"
    "persistedIndex (processGraphs env st) = persistedIndex st"
    "generationPromise (processGraphs env st) = generationPromise st"
    "unhandledRejectionListeners (processGraphs env st) = unhandledRejectionListeners st"
    "uncaughtExceptionListeners (processGraphs env st) = uncaughtExceptionListeners st"
    "exited (processGraphs env st) = exited st"
    unfolding res by simp_all
  show ?thesis
    using calls [unfolded new] stage_not_fatal(1,2) [OF T(3)] T frame unfolding new by simp
qed

theorem processGraphs_module_failure_witness:
  "moduleGraphFails appRenderFails (mainData appAndShared) (engine appAndShared)
     (exampleModule ''AppModule'' [homeDeclaration]) \<and>
   last (newEvents appAndShared (processGraphs appRenderFails appAndShared)) = Log Error ''dot: not found'' \<and>
   list_all (inStages {Logging, GraphStage}) (newEvents appAndShared (processGraphs appRenderFails appAndShared)) \<and>
   GenerationRejected \<notin> set (newEvents appAndShared (processGraphs appRenderFails appAndShared)) \<and>
   searchIndex (processGraphs appRenderFails appAndShared) = [] \<and>
   persistedIndex (processGraphs appRenderFails appAndShared) = None \<and>
   generationPromise (processGraphs appRenderFails appAndShared) = Unsettled"
proof -
  have en: "\<not> disableGraph (mainData appAndShared)"
    by (simp add: appAndShared_def exampleMainData_def)
  have ms: "modules (mainData appAndShared) =
              [] @ exampleModule ''AppModule'' [homeDeclaration]
                 # [exampleModule ''SharedModule'' [homeDeclaration]]"
    by (simp add: appAndShared_def)
  have e: "moduleGraphError appRenderFails (mainData appAndShared)
             (exampleModule ''AppModule'' [homeDeclaration]) = ''dot: not found''"
    by (simp add: moduleGraphError_def appRenderFails_def exampleModule_def)
  have s: "searchIndex appAndShared = []" "persistedIndex appAndShared = None"
    "generationPromise appAndShared = Unsettled"
    by (simp_all add: appAndShared_def exampleApp_def)
  from processGraphs_module_failure [OF en ms _ appAndShared_fails] appAndShared_fails
  show ?thesis by (simp add: e s)
qed

text \<open>
  C3 as stated fails: in a build with the process-level listeners installed, the render of
  the first module's graph fails; the generation promise is left unsettled, the process
  does not exit, no rejection reaches the listeners, and they stay installed.
\<close>

theorem processGraphs_failure_not_propagated:
  "moduleGraphFails appRenderFails (mainData appAndShared) (engine appAndShared)
     (exampleModule ''AppModule'' [homeDeclaration]) \<and>
   generationPromise (processGraphs appRenderFails (installListeners appAndShared)) = Unsettled \<and>
   exited (processGraphs appRenderFails (installListeners appAndShared)) = None \<and>
   unhandledRejectionListeners (processGraphs appRenderFails (installListeners appAndShared)) = 1 \<and>
   UnhandledRejection \<notin> set (trace (processGraphs appRenderFails (installListeners appAndShared))) \<and>
   GenerationRejected \<notin> set (trace (processGraphs appRenderFails (installListeners appAndShared)))"
proof -
  let ?st = "installListeners appAndShared"
  have f: "moduleGraphFails appRenderFails (mainData ?st) (engine ?st)
             (exampleModule ''AppModule'' [homeDeclaration])"
    using appAndShared_fails by (simp add: installed_graph_facts(3,4))
  have ok: "\<forall>x\<in>set []. moduleGraphSucceeds appRenderFails (mainData ?st) (engine ?st) x" by simp
  from processGraphs_halted [OF installed_graph_facts(1,2) ok f] obtain T md' where
    res: "processGraphs appRenderFails ?st = ?st\<lparr>mainData := md', trace := trace ?st @ T\<rparr>"
    and T: "list_all (inStages {Logging, GraphStage}) T"
    by blast
  show ?thesis
    unfolding res using stage_not_fatal [OF T] appAndShared_fails
    by (simp add: installed_graph_facts(5-8))
qed

section \<open>Page planner\<close>


lemma indexed_simps [simp]:
  "indexed mk i [] = []"
  "indexed mk i (x # xs) = mk x i # indexed mk (Suc i) xs"
  by (simp_all add: indexed_def)

lemma indexed_append: "indexed mk i (xs @ ys) = indexed mk i xs @ indexed mk (i + length xs) ys"
  by (induction xs arbitrary: i) simp_all

lemma indexed_cong: "(\<And>x j. x \<in> set xs \<Longrightarrow> mk x j = mk' x j) \<Longrightarrow> indexed mk i xs = indexed mk' i xs"
  by (induction xs arbitrary: i) simp_all

lemma indexed_map: "indexed mk i (map f xs) = indexed (\<lambda>x. mk (f x)) i xs"
  by (induction xs arbitrary: i) simp_all

lemma indexed_empty_iff [simp]: "indexed mk i xs = [] \<longleftrightarrow> xs = []"
  by (cases xs) simp_all

lemma set_indexed: "p \<in> set (indexed mk i xs) \<Longrightarrow> \<exists>x j. x \<in> set xs \<and> p = mk x j"
proof (induction xs arbitrary: i)
  case Nil
  then show ?case by simp
next
  case (Cons a xs)
  from Cons.prems have "p = mk a i \<or> p \<in> set (indexed mk (Suc i) xs)" by simp
  then show ?case
  proof
    assume "p = mk a i"
    then show ?thesis by auto
  next
    assume "p \<in> set (indexed mk (Suc i) xs)"
    from Cons.IH [OF this] show ?thesis by auto
  qed
qed

lemma planned_simps [simp]:
  "pages (planned st ps evs) = pages st @ ps"
  "trace (planned st ps evs) = trace st @ evs"
  "mainData (planned st ps evs) = mainData st"
  "engine (planned st ps evs) = engine st"
  "files (planned st ps evs) = files st"
  "updatedFiles (planned st ps evs) = updatedFiles st"
  "watchChangedFiles (planned st ps evs) = watchChangedFiles st"
  "isWatching (planned st ps evs) = isWatching st"
  "searchIndex (planned st ps evs) = searchIndex st"
  "persistedIndex (planned st ps evs) = persistedIndex st"
  "written (planned st ps evs) = written st"
  "unhandledRejectionListeners (planned st ps evs) = unhandledRejectionListeners st"
  "uncaughtExceptionListeners (planned st ps evs) = uncaughtExceptionListeners st"
  "generationPromise (planned st ps evs) = generationPromise st"
  "exited (planned st ps evs) = exited st"
  by (simp_all add: planned_def)

lemma planned_steps:
  "addPage p (planned st ps evs) = planned st (ps @ [p]) evs"
  "logger l msg (planned st ps evs) = planned st ps (evs @ [Log l msg])"
  "emit e (planned st ps evs) = planned st ps (evs @ [e])"
  "planned (planned st ps evs) ps' evs' = planned st (ps @ ps') (evs @ evs')"
  by (simp_all add: planned_def addPage_def logger_def emit_def)

lemma planned_start:
  "addPage p st = planned st [p] []"
  "logger l msg st = planned st [] [Log l msg]"
  "emit e st = planned st [] [e]"
  by (simp_all add: planned_def addPage_def logger_def emit_def)

lemma planned_mainData:
  "(planned st ps evs)\<lparr>mainData := md\<rparr> = planned (st\<lparr>mainData := md\<rparr>) ps evs"
  by (simp add: planned_def)

lemma withReadme_fields [simp]:
  "c_name (withReadme env c) = c_name c" "c_id (withReadme env c) = c_id c"
  "c_file (withReadme env c) = c_file c" "templateUrl (withReadme env c) = templateUrl c"
  "templateData (withReadme env c) = templateData c"
  by (simp_all add: withReadme_def)

lemma componentPage_withReadme [simp]: "componentPage (withReadme env c) i = componentPage c i"
  by (simp add: componentPage_def)

lemma templatePathOf_withReadme [simp]: "templatePathOf env (withReadme env c) = templatePathOf env c"
  by (simp add: templatePathOf_def)

lemma handleTemplateurl_eq:
  "handleTemplateurl env c st =
     (if \<not> existsSync env (templatePathOf env c)
      then (Pending, c, logger Error (''Cannot read template for '' @ c_name c) st)
      else (case fileGet env (templatePathOf env c) of
              Inr data \<Rightarrow> (Resolved, c\<lparr>templateData := Some data\<rparr>, st)
            | Inl err \<Rightarrow> (Rejected [], c, logger Error err st)))"
  by (simp add: handleTemplateurl_def templatePathOf_def Let_def)

lemma loopComponents_head:
  "loopComponents env i (c # cs) (planned st ps evs) =
     (if templateResolves env c
      then (case loopComponents env (Suc i) cs
                   (planned st (ps @ [componentPage c i]) (evs @ componentEvents env c)) of
              (r, cs', st5) \<Rightarrow> (r, preparedComponent env c # cs', st5))
      else (Pending, withReadme env c # cs,
            planned st (ps @ [componentPage c i])
              (evs @ componentEvents env c @ templateErrors env c)))"
proof -
  let ?c1 = "withReadme env c"
  let ?st1 = "if hasNeighbourReadmeFile env (c_file c)
              then logger Info ('' '' @ c_name c @ '' has a README file, include it'') (planned st ps evs)
              else planned st ps evs"
  have split: "(if hasNeighbourReadmeFile env (c_file c)
             then (c\<lparr>c_readme := Some (marked env (readNeighbourReadmeFile env (c_file c)))\<rparr>,
                   logger Info ('' '' @ c_name c @ '' has a README file, include it'') (planned st ps evs))
             else (c, planned st ps evs)) = (?c1, ?st1)"
    by (simp add: withReadme_def)
  show ?thesis
  proof (cases "templateUrl c = []")
    case True
    then show ?thesis
      unfolding loopComponents.simps split
      by (simp add: Let_def templateResolves_def preparedComponent_def componentEvents_def
          planned_steps)
  next
    case False
    show ?thesis
    proof (cases "existsSync env (templatePathOf env c)")
      case ex: False
      with False show ?thesis
        unfolding loopComponents.simps split
        by (simp add: Let_def templateResolves_def componentEvents_def templateErrors_def
            handleTemplateurl_eq planned_steps)
    next
      case ex: True
      show ?thesis
      proof (cases "fileGet env (templatePathOf env c)")
        case (Inl err)
        with False ex show ?thesis
          unfolding loopComponents.simps split
          by (simp add: Let_def templateResolves_def componentEvents_def templateErrors_def
              handleTemplateurl_eq planned_steps)
      next
        case (Inr data)
        with False ex show ?thesis
          unfolding loopComponents.simps split
          by (simp add: Let_def templateResolves_def componentEvents_def preparedComponent_def
              handleTemplateurl_eq planned_steps)
      qed
    qed
  qed
qed

lemma loopComponents_past:
  assumes "\<forall>c\<in>set cs1. templateResolves env c"
  shows "loopComponents env i (cs1 @ rest) (planned st ps evs) =
           (case loopComponents env (i + length cs1) rest
                   (planned st (ps @ indexed componentPage i cs1)
                      (evs @ concat (map (componentEvents env) cs1))) of
              (r, cs', st') \<Rightarrow> (r, map (preparedComponent env) cs1 @ cs', st'))"
  using assms
proof (induction cs1 arbitrary: i ps evs)
  case Nil
  show ?case by simp
next
  case (Cons c cs1)
  from Cons.prems have c: "templateResolves env c" and rest: "\<forall>x\<in>set cs1. templateResolves env x"
    by simp_all
  show ?case
    unfolding append_Cons loopComponents_head Cons.IH [OF rest]
    using c by (simp split: prod.split)
qed

lemma loopComponents_all:
  assumes "\<forall>c\<in>set cs. templateResolves env c"
  shows "loopComponents env i cs (planned st ps evs) =
           (Resolved, map (preparedComponent env) cs,
            planned st (ps @ indexed componentPage i cs) (evs @ concat (map (componentEvents env) cs)))"
  using loopComponents_past [OF assms, of i "[]" st ps evs] by simp

lemma loopComponents_stall:
  assumes "\<forall>x\<in>set cs1. templateResolves env x" "\<not> templateResolves env c"
  shows "loopComponents env i (cs1 @ c # cs2) (planned st ps evs) =
           (Pending, map (preparedComponent env) cs1 @ withReadme env c # cs2,
            planned st (ps @ indexed componentPage i (cs1 @ [c]))
              (evs @ concat (map (componentEvents env) cs1) @ componentEvents env c
                 @ templateErrors env c))"
  unfolding loopComponents_past [OF assms(1)] loopComponents_head
  using assms(2) by (simp add: indexed_append)

lemma loopComponents_outcome:
  "fst (loopComponents env i cs (planned st ps evs)) = Resolved \<longleftrightarrow> (\<forall>c\<in>set cs. templateResolves env c)"
proof (induction cs arbitrary: i ps evs)
  case Nil
  show ?case by simp
next
  case (Cons c cs)
  show ?case
    unfolding loopComponents_head by (simp add: split_beta Cons.IH)
qed


lemma emit_fields [simp]:
  "pages (emit e st) = pages st"
  "mainData (emit e st) = mainData st"
  "engine (emit e st) = engine st"
  "files (emit e st) = files st"
  "updatedFiles (emit e st) = updatedFiles st"
  "watchChangedFiles (emit e st) = watchChangedFiles st"
  "isWatching (emit e st) = isWatching st"
  "searchIndex (emit e st) = searchIndex st"
  "persistedIndex (emit e st) = persistedIndex st"
  "written (emit e st) = written st"
  "unhandledRejectionListeners (emit e st) = unhandledRejectionListeners st"
  "uncaughtExceptionListeners (emit e st) = uncaughtExceptionListeners st"
  "generationPromise (emit e st) = generationPromise st"
  "exited (emit e st) = exited st"
  by (simp_all add: emit_def)

lemma logger_fields [simp]:
  "pages (logger l msg st) = pages st"
  "mainData (logger l msg st) = mainData st"
  "engine (logger l msg st) = engine st"
  "files (logger l msg st) = files st"
  "updatedFiles (logger l msg st) = updatedFiles st"
  "watchChangedFiles (logger l msg st) = watchChangedFiles st"
  "isWatching (logger l msg st) = isWatching st"
  "searchIndex (logger l msg st) = searchIndex st"
  "persistedIndex (logger l msg st) = persistedIndex st"
  "written (logger l msg st) = written st"
  "unhandledRejectionListeners (logger l msg st) = unhandledRejectionListeners st"
  "uncaughtExceptionListeners (logger l msg st) = uncaughtExceptionListeners st"
  "generationPromise (logger l msg st) = generationPromise st"
  "exited (logger l msg st) = exited st"
  by (simp_all add: logger_def)

lemma addPage_fields [simp]:
  "mainData (addPage p st) = mainData st"
  "engine (addPage p st) = engine st"
  "files (addPage p st) = files st"
  "updatedFiles (addPage p st) = updatedFiles st"
  "watchChangedFiles (addPage p st) = watchChangedFiles st"
  "isWatching (addPage p st) = isWatching st"
  "searchIndex (addPage p st) = searchIndex st"
  "persistedIndex (addPage p st) = persistedIndex st"
  "written (addPage p st) = written st"
  "unhandledRejectionListeners (addPage p st) = unhandledRejectionListeners st"
  "uncaughtExceptionListeners (addPage p st) = uncaughtExceptionListeners st"
  "generationPromise (addPage p st) = generationPromise st"
  "exited (addPage p st) = exited st"
  "trace (addPage p st) = trace st"
  by (simp_all add: addPage_def)

lemma prepares_refl [simp]: "prepares st st"
  by (simp add: prepares_def)

lemma prepares_trans: "prepares st st1 \<Longrightarrow> prepares st1 st2 \<Longrightarrow> prepares st st2"
  by (auto simp: prepares_def intro: appends_trans)

lemma prepares_planned:
  "list_all (inStages {Logging, Preparation, Fatal}) evs \<Longrightarrow> prepares st (planned (st\<lparr>mainData := md\<rparr>) ps evs)"
  by (auto simp: prepares_def appends_def planned_def)

lemma prepares_planned':
  "list_all (inStages {Logging, Preparation, Fatal}) evs \<Longrightarrow> prepares st (planned st ps evs)"
  by (auto simp: prepares_def appends_def planned_def)

lemma prepares_mainData [simp]: "prepares st (st'\<lparr>mainData := md\<rparr>) = prepares st st'"
  by (simp add: prepares_def)

lemma prepares_logger: "prepares st st' \<Longrightarrow> prepares st (logger l msg st')"
  by (simp add: prepares_def appends_logger)

lemma prepares_addAdditionalPage: "prepares st st' \<Longrightarrow> prepares st (addAdditionalPage p st')"
  by (simp add: addAdditionalPage_def)

lemma prepares_addPage: "prepares st st' \<Longrightarrow> prepares st (addPage p st')"
  by (simp add: prepares_def addPage_def)

lemma prepares_unhandledRejection: "prepares st st' \<Longrightarrow> prepares st (unhandledRejection st')"
  by (simp add: prepares_def appends_unhandledRejection unhandledRejection_frame)
     (simp add: unhandledRejection_def unhandledRejectionListener_def processExit_def logger_def
        emit_def Let_def)

lemma readmeLogs_stage:
  "list_all (inStages {Logging, Preparation, Fatal}) (readmeLogs env fileOf nameOf xs)"
  by (induction xs) (simp_all add: readmeLogs_def)

lemma readmeLogs_simps [simp]:
  "readmeLogs env fileOf nameOf [] = []"
  "readmeLogs env fileOf nameOf (x # xs) =
     (if hasNeighbourReadmeFile env (fileOf x)
      then [Log Info ('' '' @ nameOf x @ '' has a README file, include it'')] else [])
     @ readmeLogs env fileOf nameOf xs"
  by (simp_all add: readmeLogs_def)

lemma loopItems_planned:
  "loopItems env fileOf nameOf setReadme mk i xs (planned st ps evs) =
     (map (attachReadme env fileOf setReadme) xs,
      planned st (ps @ indexed (\<lambda>x. mk (attachReadme env fileOf setReadme x)) i xs)
        (evs @ readmeLogs env fileOf nameOf xs))"
proof (induction xs arbitrary: i ps evs)
  case Nil
  show ?case by simp
next
  case (Cons x xs)
  show ?case
    by (simp add: Cons.IH attachReadme_def planned_steps)
qed

lemma modulePage_attach [simp]:
  "modulePage (attachReadme env m_file setModuleReadme (filterModule eng m)) i = modulePage m i"
  by (simp add: modulePage_def attachReadme_def setModuleReadme_def filterModule_def)

lemma itemPage_attach [simp]:
  "itemPage section ctx ref (attachReadme env e_file setEntryReadme e) i = itemPage section ctx ref e i"
  by (simp add: itemPage_def attachReadme_def setEntryReadme_def)

lemma filterModule_fields [simp]:
  "m_file (filterModule eng m) = m_file m" "m_name (filterModule eng m) = m_name m"
  by (simp_all add: filterModule_def)

lemma prepareModules_planned:
  "prepareModules env someModules st =
     (let ms0 = (case someModules of Some ms \<Rightarrow> ms | None \<Rightarrow> getModules (engine st))
      in (Resolved,
          planned (st\<lparr>mainData := (mainData st)\<lparr>modules :=
                     map (\<lambda>m. attachReadme env m_file setModuleReadme (filterModule (engine st) m)) ms0\<rparr>\<rparr>)
            (modulesRootPage # modulePages ms0)
            (Log Info ''Prepare modules'' # readmeLogs env m_file m_name (map (filterModule (engine st)) ms0))))"
proof -
  let ?ms0 = "case someModules of Some ms \<Rightarrow> ms | None \<Rightarrow> getModules (engine st)"
  let ?st1 = "st\<lparr>mainData := (mainData st)\<lparr>modules := map (filterModule (engine st)) ?ms0\<rparr>\<rparr>"
  have st2: "addPage modulesRootPage
               ((logger Info ''Prepare modules'' st)\<lparr>mainData := (mainData (logger Info ''Prepare modules'' st))
                  \<lparr>modules := map (filterModule (engine (logger Info ''Prepare modules'' st)))
                      (case someModules of Some ms \<Rightarrow> ms | None \<Rightarrow> getModules (engine (logger Info ''Prepare modules'' st)))\<rparr>\<rparr>)
             = planned ?st1 [modulesRootPage] [Log Info ''Prepare modules'']"
    by (cases someModules) (simp_all add: planned_def addPage_def logger_def emit_def)
  have pg: "indexed (\<lambda>x. modulePage (attachReadme env m_file setModuleReadme x)) 0
              (map (filterModule (engine st)) ?ms0) = indexed modulePage 0 ?ms0"
    unfolding indexed_map by (rule indexed_cong) simp
  have pg0: "modulePages ?ms0 = indexed modulePage 0 ?ms0" by (simp add: modulePages_def)
  show ?thesis
    unfolding prepareModules_def Let_def st2
    by (simp add: loopItems_planned planned_mainData pg0 pg comp_def)
qed

lemma logger_mainData_planned:
  "(logger l msg st)\<lparr>mainData := md\<rparr> = planned (st\<lparr>mainData := md\<rparr>) [] [Log l msg]"
  by (simp add: planned_def logger_def emit_def)

lemma indexed_itemPage_attach:
  "indexed (\<lambda>x. itemPage section ctx ref (attachReadme env e_file setEntryReadme x)) i xs
     = indexed (itemPage section ctx ref) i xs"
  by (rule indexed_cong) simp

lemma loopEntries_planned:
  "loopEntries env section ctx ref xs (planned st ps evs) =
     (map (attachReadme env e_file setEntryReadme) xs,
      planned st (ps @ entryPages section ctx ref xs) (evs @ readmeLogs env e_file e_name xs))"
  by (simp add: loopEntries_def loopItems_planned indexed_itemPage_attach entryPages_def)

lemma preparePipes_planned:
  "preparePipes env some st =
     (let xs0 = (case some of Some xs \<Rightarrow> xs | None \<Rightarrow> getPipes (engine st))
      in (Resolved,
          planned (st\<lparr>mainData := (mainData st)\<lparr>pipes := map (attachReadme env e_file setEntryReadme) xs0\<rparr>\<rparr>)
            (entryPages ''pipes'' ''pipe'' PipeRef xs0)
            (Log Info ''Prepare pipes'' # readmeLogs env e_file e_name xs0)))"
  by (cases some)
     (simp_all add: preparePipes_def Let_def logger_mainData_planned loopEntries_planned planned_mainData)

lemma prepareClasses_planned:
  "prepareClasses env some st =
     (let xs0 = (case some of Some xs \<Rightarrow> xs | None \<Rightarrow> getClasses (engine st))
      in (Resolved,
          planned (st\<lparr>mainData := (mainData st)\<lparr>classes := map (attachReadme env e_file setEntryReadme) xs0\<rparr>\<rparr>)
            (entryPages ''classes'' ''class'' ClassRef xs0)
            (Log Info ''Prepare classes'' # readmeLogs env e_file e_name xs0)))"
  by (cases some)
     (simp_all add: prepareClasses_def Let_def logger_mainData_planned loopEntries_planned planned_mainData)

lemma prepareInterfaces_planned:
  "prepareInterfaces env some st =
     (let xs0 = (case some of Some xs \<Rightarrow> xs | None \<Rightarrow> getInterfaces (engine st))
      in (Resolved,
          planned (st\<lparr>mainData := (mainData st)\<lparr>interfaces := map (attachReadme env e_file setEntryReadme) xs0\<rparr>\<rparr>)
            (entryPages ''interfaces'' ''interface'' InterfaceRef xs0)
            (Log Info ''Prepare interfaces'' # readmeLogs env e_file e_name xs0)))"
  by (cases some)
     (simp_all add: prepareInterfaces_def Let_def logger_mainData_planned loopEntries_planned planned_mainData)

lemma prepareDirectives_planned:
  "prepareDirectives env some st =
     (let xs0 = (case some of Some xs \<Rightarrow> xs | None \<Rightarrow> getDirectives (engine st))
      in (Resolved,
          planned (st\<lparr>mainData := (mainData st)\<lparr>directives := map (attachReadme env e_file setEntryReadme) xs0\<rparr>\<rparr>)
            (entryPages ''directives'' ''directive'' DirectiveRef xs0)
            (Log Info ''Prepare directives'' # readmeLogs env e_file e_name xs0)))"
  by (cases some)
     (simp_all add: prepareDirectives_def Let_def logger_mainData_planned loopEntries_planned planned_mainData)

lemma prepareInjectables_planned:
  "prepareInjectables env some st =
     (let xs0 = (case some of Some xs \<Rightarrow> xs | None \<Rightarrow> getInjectables (engine st))
      in (Resolved,
          planned (st\<lparr>mainData := (mainData st)\<lparr>injectables := map (attachReadme env e_file setEntryReadme) xs0\<rparr>\<rparr>)
            (entryPages ''injectables'' ''injectable'' InjectableRef xs0)
            (Log Info ''Prepare injectables'' # readmeLogs env e_file e_name xs0)))"
  by (cases some)
     (simp_all add: prepareInjectables_def Let_def logger_mainData_planned loopEntries_planned planned_mainData)

lemma prepareMiscellaneous_planned:
  "prepareMiscellaneous env some st =
     (let misc = (case some of Some m \<Rightarrow> m | None \<Rightarrow> getMiscellaneous (engine st))
      in (Resolved,
          planned (st\<lparr>mainData := (mainData st)\<lparr>md_miscellaneous := misc\<rparr>\<rparr>)
            (miscPages misc) [Log Info ''Prepare miscellaneous'']))"
  by (cases some)
     (simp_all add: prepareMiscellaneous_def Let_def logger_mainData_planned planned_steps miscPages_def)

lemma prepareRoutes_planned:
  "\<exists>evs. list_all (inStages {Logging, Preparation, Fatal}) evs \<and>
         snd (prepareRoutes env st) =
           planned (st\<lparr>mainData := (mainData st)\<lparr>routes := getRoutes (engine st)\<rparr>\<rparr>) [routesRootPage] evs"
proof (cases "exportFormat (mainData st) = defaultExportFormat env")
  case False
  then show ?thesis
    by (intro exI [of _ "[Log Info ''Process routes'']"])
       (simp add: prepareRoutes_def Let_def logger_mainData_planned planned_steps)
next
  case True
  show ?thesis
  proof (cases "generateRoutesIndex env (md_output (mainData st)) (getRoutes (engine st))")
    case None
    with True show ?thesis
      by (intro exI [of _ "[Log Info ''Process routes'', RoutesIndex, Log Info '' Routes index generated'']"])
         (simp add: prepareRoutes_def Let_def logger_mainData_planned planned_steps)
  next
    case (Some e)
    with True show ?thesis
      by (intro exI [of _ "[Log Info ''Process routes'', RoutesIndex, Log Error e]"])
         (simp add: prepareRoutes_def Let_def logger_mainData_planned planned_steps)
  qed
qed

lemma prepareCoverage_planned:
  "prepareCoverage env st =
     (coverageCalculate env, planned st [] [Log Info ''Process documentation coverage report''])"
  by (simp add: prepareCoverage_def planned_start)

lemma prepareComponents_planned:
  "prepareComponents env some st =
     (let cs0 = (case some of Some xs \<Rightarrow> xs | None \<Rightarrow> getComponents (engine st))
      in case loopComponents env 0 cs0
                (planned (st\<lparr>mainData := (mainData st)\<lparr>components := cs0\<rparr>\<rparr>) []
                   [Log Info ''Prepare components'']) of
           (r, cs, st2) \<Rightarrow> (r, st2\<lparr>mainData := (mainData st2)\<lparr>components := cs\<rparr>\<rparr>))"
  by (cases some)
     (simp_all add: prepareComponents_def Let_def logger_mainData_planned split_beta)


lemma newEvents_planned [simp]: "newEvents st (planned (st\<lparr>mainData := md\<rparr>) ps evs) = evs"
  by (simp add: newEvents_def planned_def)

lemma templateErrors_nonempty: "\<not> templateResolves env c \<Longrightarrow> templateErrors env c \<noteq> []"
  by (auto simp: templateResolves_def templateErrors_def split: sum.splits)

text \<open>Steps and the pages they plan.\<close>

lemma plans_prepareModules:
  "plans (prepareModules env None) (\<lambda>e. modulesRootPage # modulePages (getModules e))"
  by (simp add: plans_def prepareModules_planned Let_def)

lemma plans_prepareComponents:
  "plans (prepareComponents env None) (\<lambda>e. componentPages (getComponents e))"
proof -
  have "engine (snd (prepareComponents env None st)) = engine st \<and>
        (fst (prepareComponents env None st) = Resolved \<longrightarrow>
           pages (snd (prepareComponents env None st)) = pages st @ componentPages (getComponents (engine st)))"
    for st
  proof (cases "\<forall>c\<in>set (getComponents (engine st)). templateResolves env c")
    case True
    show ?thesis
      unfolding prepareComponents_planned Let_def
      by (simp add: loopComponents_all [OF True] componentPages_def)
  next
    case False
    then obtain cs1 c cs2 where split: "getComponents (engine st) = cs1 @ c # cs2"
      and ok: "\<forall>x\<in>set cs1. templateResolves env x" and ko: "\<not> templateResolves env c"
      using split_list_first_prop [of "getComponents (engine st)" "\<lambda>c. \<not> templateResolves env c"]
      by auto
    show ?thesis
      unfolding prepareComponents_planned Let_def
      by (simp add: split loopComponents_stall [OF ok ko])
  qed
  then show ?thesis by (simp add: plans_def)
qed

lemma plans_entries:
  "plans (prepareDirectives env None) (\<lambda>e. entryPages ''directives'' ''directive'' DirectiveRef (getDirectives e))"
  "plans (prepareInjectables env None) (\<lambda>e. entryPages ''injectables'' ''injectable'' InjectableRef (getInjectables e))"
  "plans (preparePipes env None) (\<lambda>e. entryPages ''pipes'' ''pipe'' PipeRef (getPipes e))"
  "plans (prepareClasses env None) (\<lambda>e. entryPages ''classes'' ''class'' ClassRef (getClasses e))"
  "plans (prepareInterfaces env None) (\<lambda>e. entryPages ''interfaces'' ''interface'' InterfaceRef (getInterfaces e))"
  by (simp_all add: plans_def prepareDirectives_planned prepareInjectables_planned
      preparePipes_planned prepareClasses_planned prepareInterfaces_planned Let_def)

lemma plans_prepareMiscellaneous:
  "plans (prepareMiscellaneous env None) (\<lambda>e. miscPages (getMiscellaneous e))"
  by (simp add: plans_def prepareMiscellaneous_planned Let_def)

lemma plans_prepareRoutes: "plans (prepareRoutes env) (\<lambda>e. [routesRootPage])"
proof -
  have "engine (snd (prepareRoutes env st)) = engine st \<and>
        pages (snd (prepareRoutes env st)) = pages st @ [routesRootPage]" for st
    using prepareRoutes_planned [of env st] by auto
  then show ?thesis by (simp add: plans_def)
qed

lemma plans_prepareCoverage: "plans (prepareCoverage env) (\<lambda>e. [])"
  by (simp add: plans_def prepareCoverage_planned)

text \<open>The external includes leave the page list alone: they add to \<open>additionalPages\<close>.\<close>

lemma unhandledRejection_pages [simp]:
  "pages (unhandledRejection st) = pages st" "engine (unhandledRejection st) = engine st"
  by (simp_all add: unhandledRejection_def unhandledRejectionListener_def processExit_def Let_def)

lemma addAdditionalPage_fields [simp]:
  "pages (addAdditionalPage p st) = pages st" "engine (addAdditionalPage p st) = engine st"
  "md_includes (mainData (addAdditionalPage p st)) = md_includes (mainData st)"
  "includesFolder (mainData (addAdditionalPage p st)) = includesFolder (mainData st)"
  by (simp_all add: addAdditionalPage_def)

lemma loopChild_pages:
  "pages (snd (loopChild env t cs st)) = pages st \<and> engine (snd (loopChild env t cs st)) = engine st"
  by (induction cs arbitrary: st) (simp_all split: sum.split)

lemma loopSummary_pages:
  "pages (snd (loopSummary env ss st)) = pages st \<and> engine (snd (loopSummary env ss st)) = engine st"
proof (induction ss arbitrary: st)
  case Nil
  show ?case by simp
next
  case (Cons s ss)
  show ?case
  proof (cases "getTraditionalMarkdown env (md_includes (mainData st) @ sep env @ s_file s)")
    case (Inl e)
    then show ?thesis by simp
  next
    case (Inr markedData)
    let ?st1 = "addAdditionalPage
                  (additionalPage (s_title s) (cleanNameWithoutSpaceAndToLowerCase env (s_title s))
                     (includesFolder (mainData st)) markedData 1) st"
    show ?thesis
    proof (cases "s_children s = []")
      case True
      with Inr show ?thesis by (simp add: Let_def Cons.IH)
    next
      case False
      obtain r st2 where lc: "loopChild env (s_title s) (s_children s) ?st1 = (r, st2)"
        by (cases "loopChild env (s_title s) (s_children s) ?st1")
      from loopChild_pages [of env "s_title s" "s_children s" ?st1] lc
      have st2: "pages st2 = pages st" "engine st2 = engine st" by simp_all
      show ?thesis
        using Inr False lc st2 by (cases r) (simp_all add: Let_def Cons.IH)
    qed
  qed
qed

lemma plans_prepareExternalIncludes: "plans (prepareExternalIncludes env) (\<lambda>e. [])"
  by (simp add: plans_def prepareExternalIncludes_def Let_def loopSummary_pages
      split: sum.split option.split)

lemma promiseSequential_append:
  "promiseSequential (as @ bs) st =
     (case promiseSequential as st of
        (Resolved, st1) \<Rightarrow> promiseSequential bs st1
      | (Rejected e, st1) \<Rightarrow> (Rejected e, st1)
      | (Pending, st1) \<Rightarrow> (Pending, st1))"
  by (induction as arbitrary: st) (simp_all split: prod.split outcome.split)

lemma plansD:
  "plans a P \<Longrightarrow> a st = (r, st') \<Longrightarrow>
     engine st' = engine st \<and> (r = Resolved \<longrightarrow> pages st' = pages st @ P (engine st))"
  unfolding plans_def by (drule spec [of _ st]) simp

lemma plansI:
  assumes "\<And>st r st'. a st = (r, st') \<Longrightarrow>
             engine st' = engine st \<and> (r = Resolved \<longrightarrow> pages st' = pages st @ P (engine st))"
  shows "plans a P"
  unfolding plans_def
proof
  fix st
  obtain r st' where eq: "a st = (r, st')" by (cases "a st")
  from assms [OF eq] show "engine (snd (a st)) = engine st \<and>
        (fst (a st) = Resolved \<longrightarrow> pages (snd (a st)) = pages st @ P (engine st))"
    by (simp add: eq)
qed

lemma plans_seq_nil: "plans (promiseSequential []) (\<lambda>e. [])"
  by (simp add: plans_def)

lemma plans_seq_single:
  assumes "plans a P"
  shows "plans (promiseSequential [a]) P"
proof (rule plansI)
  fix st r st'
  assume run: "promiseSequential [a] st = (r, st')"
  obtain r0 st0 where eq: "a st = (r0, st0)" by (cases "a st")
  from run eq have "r = r0" "st' = st0" by (cases r0; simp)+
  with plansD [OF assms eq]
  show "engine st' = engine st \<and> (r = Resolved \<longrightarrow> pages st' = pages st @ P (engine st))"
    by simp
qed

lemma plans_seq_if:
  "plans a P \<Longrightarrow> plans (promiseSequential (if c then [a] else [])) (\<lambda>e. if c then P e else [])"
  by (simp add: plans_seq_single plans_seq_nil)

lemma plans_seq_append:
  assumes "plans (promiseSequential as) P" "plans (promiseSequential bs) Q"
  shows "plans (promiseSequential (as @ bs)) (\<lambda>e. P e @ Q e)"
proof (rule plansI)
  fix st r st'
  assume run: "promiseSequential (as @ bs) st = (r, st')"
  obtain r1 st1 where eq1: "promiseSequential as st = (r1, st1)"
    by (cases "promiseSequential as st")
  note d1 = plansD [OF assms(1) eq1]
  show "engine st' = engine st \<and> (r = Resolved \<longrightarrow> pages st' = pages st @ P (engine st) @ Q (engine st))"
  proof (cases r1)
    case Resolved
    with run eq1 have eq2: "promiseSequential bs st1 = (r, st')"
      by (simp add: promiseSequential_append)
    from plansD [OF assms(2) eq2] d1 Resolved show ?thesis by simp
  next
    case (Rejected e)
    with run eq1 have "r = Rejected e" "st' = st1" by (simp_all add: promiseSequential_append)
    with d1 show ?thesis by simp
  next
    case Pending
    with run eq1 have "r = Pending" "st' = st1" by (simp_all add: promiseSequential_append)
    with d1 show ?thesis by simp
  qed
qed


lemma entryPages_Nil [simp]: "entryPages section ctx ref [] = []"
  by (simp add: entryPages_def)

lemma if_entryPages:
  "(if xs \<noteq> [] then entryPages section ctx ref xs else []) = entryPages section ctx ref xs"
  by simp

lemma if_miscPages: "(if hasMiscellaneous misc then miscPages misc else []) = miscPages misc"
  by (simp add: hasMiscellaneous_def miscPages_def)

lemma plans_everything:
  "plans (promiseSequential (everythingActions env st))
     (\<lambda>e. (modulesRootPage # modulePages (getModules e))
         @ componentPages (getComponents e)
         @ (if getDirectives (engine st) \<noteq> []
            then entryPages ''directives'' ''directive'' DirectiveRef (getDirectives e) else [])
         @ (if getInjectables (engine st) \<noteq> []
            then entryPages ''injectables'' ''injectable'' InjectableRef (getInjectables e) else [])
         @ (if hasRoutes (engine st) then [routesRootPage] else [])
         @ (if getPipes (engine st) \<noteq> []
            then entryPages ''pipes'' ''pipe'' PipeRef (getPipes e) else [])
         @ (if getClasses (engine st) \<noteq> []
            then entryPages ''classes'' ''class'' ClassRef (getClasses e) else [])
         @ (if getInterfaces (engine st) \<noteq> []
            then entryPages ''interfaces'' ''interface'' InterfaceRef (getInterfaces e) else [])
         @ (if hasMiscellaneous (getMiscellaneous (engine st))
            then miscPages (getMiscellaneous e) else [])
         @ (if \<not> disableCoverage (mainData st) then [] else [])
         @ (if md_includes (mainData st) \<noteq> [] then [] else []))"
proof -
  have eq: "everythingActions env st =
     [prepareModules env None] @ [prepareComponents env None]
     @ (if getDirectives (engine st) \<noteq> [] then [prepareDirectives env None] else [])
     @ (if getInjectables (engine st) \<noteq> [] then [prepareInjectables env None] else [])
     @ (if hasRoutes (engine st) then [prepareRoutes env] else [])
     @ (if getPipes (engine st) \<noteq> [] then [preparePipes env None] else [])
     @ (if getClasses (engine st) \<noteq> [] then [prepareClasses env None] else [])
     @ (if getInterfaces (engine st) \<noteq> [] then [prepareInterfaces env None] else [])
     @ (if hasMiscellaneous (getMiscellaneous (engine st))
        then [prepareMiscellaneous env None] else [])
     @ (if \<not> disableCoverage (mainData st) then [prepareCoverage env] else [])
     @ (if md_includes (mainData st) \<noteq> [] then [prepareExternalIncludes env] else [])"
    by (simp add: everythingActions_def)
  show ?thesis
    unfolding eq
    by (intro plans_seq_append plans_seq_single plans_seq_if plans_prepareModules
        plans_prepareComponents plans_entries plans_prepareRoutes plans_prepareMiscellaneous
        plans_prepareCoverage plans_prepareExternalIncludes)
qed

lemma prepareEverything_pages:
  assumes "fst (promiseSequential (everythingActions env st) st) = Resolved"
  shows "pages (snd (promiseSequential (everythingActions env st) st)) = pages st @ plannedPages (engine st)"
proof -
  obtain r st' where eq: "promiseSequential (everythingActions env st) st = (r, st')"
    by (cases "promiseSequential (everythingActions env st) st")
  with assms have r: "r = Resolved" by simp
  from plansD [OF plans_everything eq] r
  show ?thesis
    by (simp add: eq plannedPages_def if_entryPages if_miscPages)
qed

text \<open>What the planned pages of a collection are made of.\<close>

lemma page_fields [simp]:
  "p_path (modulePage m i) = Some ''modules''" "p_pageType (modulePage m i) = Some INTERNAL"
  "p_path (componentPage c i) = Some ''components''" "p_pageType (componentPage c i) = Some INTERNAL"
  "p_path (itemPage section ctx ref e i) = Some section"
  "p_pageType (itemPage section ctx ref e i) = Some INTERNAL"
  "p_path (miscPage g) = Some ''miscellaneous''" "p_pageType (miscPage g) = Some INTERNAL"
  "p_name (miscPage g) = g"
  "p_path modulesRootPage = None" "p_pageType modulesRootPage = Some ROOT"
  "p_path routesRootPage = None" "p_pageType routesRootPage = Some ROOT"
  by (simp_all add: modulePage_def componentPage_def itemPage_def miscPage_def modulesRootPage_def
      routesRootPage_def)

lemma filter_indexed_none: "(\<And>x j. \<not> P (mk x j)) \<Longrightarrow> filter P (indexed mk i xs) = []"
  by (induction xs arbitrary: i) simp_all

lemma ex_indexed: "(\<And>x j. P (mk x j) = q) \<Longrightarrow> (\<exists>p\<in>set (indexed mk i xs). P p) \<longleftrightarrow> xs \<noteq> [] \<and> q"
  by (induction xs arbitrary: i) auto

lemma ex_pages_path [simp]:
  "(\<exists>p\<in>set (modulePages ms). p_path p = Some s) \<longleftrightarrow> ms \<noteq> [] \<and> s = ''modules''"
  "(\<exists>p\<in>set (componentPages cs). p_path p = Some s) \<longleftrightarrow> cs \<noteq> [] \<and> s = ''components''"
  "(\<exists>p\<in>set (entryPages section ctx ref es). p_path p = Some s) \<longleftrightarrow> es \<noteq> [] \<and> s = section"
proof -
  show "(\<exists>p\<in>set (modulePages ms). p_path p = Some s) \<longleftrightarrow> ms \<noteq> [] \<and> s = ''modules''"
    unfolding modulePages_def by (subst ex_indexed [where q = "s = ''modules''"]) auto
  show "(\<exists>p\<in>set (componentPages cs). p_path p = Some s) \<longleftrightarrow> cs \<noteq> [] \<and> s = ''components''"
    unfolding componentPages_def by (subst ex_indexed [where q = "s = ''components''"]) auto
  show "(\<exists>p\<in>set (entryPages section ctx ref es). p_path p = Some s) \<longleftrightarrow> es \<noteq> [] \<and> s = section"
    unfolding entryPages_def by (subst ex_indexed [where q = "s = section"]) auto
qed

lemma ex_miscPages_path [simp]:
  "(\<exists>p\<in>set (miscPages misc). p_path p = Some s) \<longleftrightarrow> hasMiscellaneous misc \<and> s = ''miscellaneous''"
  by (auto simp: miscPages_def hasMiscellaneous_def)

lemma filter_root_pages [simp]:
  "filter (\<lambda>p. p_pageType p = Some ROOT) (modulePages ms) = []"
  "filter (\<lambda>p. p_pageType p = Some ROOT) (componentPages cs) = []"
  "filter (\<lambda>p. p_pageType p = Some ROOT) (entryPages section ctx ref es) = []"
  "filter (\<lambda>p. p_pageType p = Some ROOT) (miscPages misc) = []"
  by (simp_all add: modulePages_def componentPages_def entryPages_def filter_indexed_none
      miscPages_def)

lemma plannedPages_roots:
  "filter (\<lambda>p. p_pageType p = Some ROOT) (plannedPages eng)
     = modulesRootPage # (if hasRoutes eng then [routesRootPage] else [])"
  by (simp add: plannedPages_def)

lemma bex_append: "(\<exists>p\<in>set (xs @ ys). P p) \<longleftrightarrow> (\<exists>p\<in>set xs. P p) \<or> (\<exists>p\<in>set ys. P p)"
  by auto

lemma plannedPages_items:
  "(\<exists>p\<in>set (plannedPages eng). p_path p = Some ''modules'') \<longleftrightarrow> getModules eng \<noteq> []"
  "(\<exists>p\<in>set (plannedPages eng). p_path p = Some ''components'') \<longleftrightarrow> getComponents eng \<noteq> []"
  "(\<exists>p\<in>set (plannedPages eng). p_path p = Some ''directives'') \<longleftrightarrow> getDirectives eng \<noteq> []"
  "(\<exists>p\<in>set (plannedPages eng). p_path p = Some ''injectables'') \<longleftrightarrow> getInjectables eng \<noteq> []"
  "(\<exists>p\<in>set (plannedPages eng). p_path p = Some ''pipes'') \<longleftrightarrow> getPipes eng \<noteq> []"
  "(\<exists>p\<in>set (plannedPages eng). p_path p = Some ''classes'') \<longleftrightarrow> getClasses eng \<noteq> []"
  "(\<exists>p\<in>set (plannedPages eng). p_path p = Some ''interfaces'') \<longleftrightarrow> getInterfaces eng \<noteq> []"
  "(\<exists>p\<in>set (plannedPages eng). p_path p = Some ''miscellaneous'')
     \<longleftrightarrow> hasMiscellaneous (getMiscellaneous eng)"
  unfolding plannedPages_def bex_append bex_simps set_simps
  by simp_all

section \<open>The pages planned by a full build\<close>

lemma prepareComponents_stall_state:
  assumes cs: "(case someComponents of Some xs \<Rightarrow> xs | None \<Rightarrow> getComponents (engine st)) = cs1 @ c # cs2"
      and ok: "\<forall>x\<in>set cs1. templateResolves env x"
      and ko: "\<not> templateResolves env c"
  shows "prepareComponents env someComponents st =
           (Pending,
            planned (st\<lparr>mainData := (mainData st)\<lparr>components :=
                          map (preparedComponent env) cs1 @ withReadme env c # cs2\<rparr>\<rparr>)
              (componentPages (cs1 @ [c]))
              (Log Info ''Prepare components'' # concat (map (componentEvents env) cs1)
                 @ componentEvents env c @ templateErrors env c))"
  unfolding prepareComponents_planned Let_def cs loopComponents_stall [OF ok ko]
  by (simp add: componentPages_def planned_mainData)

lemma smallProject_actions:
  "everythingActions exampleEnv smallProject =
     [prepareModules exampleEnv None, prepareComponents exampleEnv None, prepareRoutes exampleEnv,
      preparePipes exampleEnv None]"
  by (simp add: everythingActions_def smallProject_def exampleApp_def emptyEngine_def
      exampleMainData_def hasRoutes_def hasMiscellaneous_def datePipe_def)

lemma prepareComponents_cases:
  obtains (all) md evs where
      "prepareComponents env some st =
         (Resolved, planned (st\<lparr>mainData := (mainData st)\<lparr>components := md\<rparr>\<rparr>)
                      (componentPages (case some of Some xs \<Rightarrow> xs | None \<Rightarrow> getComponents (engine st))) evs)"
      "list_all (inStages {Logging, Preparation, Fatal}) evs"
      "\<forall>c\<in>set (case some of Some xs \<Rightarrow> xs | None \<Rightarrow> getComponents (engine st)). templateResolves env c"
  | (stall) md evs cs1 c cs2 where
      "(case some of Some xs \<Rightarrow> xs | None \<Rightarrow> getComponents (engine st)) = cs1 @ c # cs2"
      "prepareComponents env some st =
         (Pending, planned (st\<lparr>mainData := (mainData st)\<lparr>components := md\<rparr>\<rparr>)
                     (componentPages (cs1 @ [c])) evs)"
      "list_all (inStages {Logging, Preparation, Fatal}) evs"
proof -
  let ?cs0 = "case some of Some xs \<Rightarrow> xs | None \<Rightarrow> getComponents (engine st)"
  have ok_all: "list_all (inStages {Logging, Preparation, Fatal})
                  (Log Info ''Prepare components'' # concat (map (componentEvents env) cs))" for cs
    by (auto simp: list_all_iff componentEvents_def split: if_splits)
  have ok_stall: "list_all (inStages {Logging, Preparation, Fatal})
                    (Log Info ''Prepare components'' # concat (map (componentEvents env) cs)
                       @ componentEvents env c @ templateErrors env c)" for cs c
    by (auto simp: list_all_iff componentEvents_def templateErrors_def split: if_splits sum.splits)
  show ?thesis
  proof (cases "\<forall>c\<in>set ?cs0. templateResolves env c")
    case True
    have "prepareComponents env some st =
         (Resolved, planned (st\<lparr>mainData := (mainData st)\<lparr>components := map (preparedComponent env) ?cs0\<rparr>\<rparr>)
                      (componentPages ?cs0)
                      (Log Info ''Prepare components'' # concat (map (componentEvents env) ?cs0)))"
      unfolding prepareComponents_planned Let_def
      by (simp add: loopComponents_all [OF True] componentPages_def planned_mainData)
    then show ?thesis using ok_all True by (rule all)
  next
    case False
    then obtain cs1 c cs2 where split: "?cs0 = cs1 @ c # cs2"
      and ok: "\<forall>x\<in>set cs1. templateResolves env x" and ko: "\<not> templateResolves env c"
      using split_list_first_prop [of ?cs0 "\<lambda>c. \<not> templateResolves env c"] by auto
    have "prepareComponents env some st =
         (Pending, planned (st\<lparr>mainData := (mainData st)\<lparr>components :=
                              map (preparedComponent env) cs1 @ withReadme env c # cs2\<rparr>\<rparr>)
                     (componentPages (cs1 @ [c]))
                     (Log Info ''Prepare components'' # concat (map (componentEvents env) cs1)
                        @ componentEvents env c @ templateErrors env c))"
      unfolding prepareComponents_planned Let_def split
      by (simp add: loopComponents_stall [OF ok ko] componentPages_def planned_mainData)
    from split this ok_stall show ?thesis by (rule stall)
  qed
qed

lemma prepareComponents_exportFormat:
  "exportFormat (mainData (snd (prepareComponents env some st))) = exportFormat (mainData st)"
  by (cases rule: prepareComponents_cases [of env some st]) simp_all

lemma prepareModules_exportFormat:
  "exportFormat (mainData (snd (prepareModules env some st))) = exportFormat (mainData st)"
  by (simp add: prepareModules_planned Let_def)

lemma promiseSequential_step:
  "fst (a st) = Resolved \<Longrightarrow> promiseSequential (a # as) st = promiseSequential as (snd (a st))"
  by (cases "a st") auto

lemma prepareModules_resolved: "fst (prepareModules env some st) = Resolved"
  by (simp add: prepareModules_planned Let_def)

lemma prepareModules_engine_same: "engine (snd (prepareModules env some st)) = engine st"
  by (simp add: prepareModules_planned Let_def)

lemma preparePipes_resolved: "fst (preparePipes env some st) = Resolved"
  by (simp add: preparePipes_planned Let_def)

lemma prepareComponents_resolved:
  assumes "\<forall>c\<in>set (case some of Some xs \<Rightarrow> xs | None \<Rightarrow> getComponents (engine st)). templateResolves env c"
  shows "fst (prepareComponents env some st) = Resolved"
  unfolding prepareComponents_planned Let_def
  by (simp add: loopComponents_all [OF assms])

lemma prepareRoutes_resolved:
  assumes "generateRoutesIndex env (md_output (mainData st)) (getRoutes (engine st)) = None"
  shows "fst (prepareRoutes env st) = Resolved"
  using assms by (simp add: prepareRoutes_def Let_def logger_def emit_def addPage_def)

lemma smallProject_resolved:
  "fst (promiseSequential (everythingActions exampleEnv smallProject) smallProject) = Resolved"
proof -
  let ?s1 = "snd (prepareModules exampleEnv None smallProject)"
  let ?s2 = "snd (prepareComponents exampleEnv None ?s1)"
  let ?s3 = "snd (prepareRoutes exampleEnv ?s2)"
  have g: "getComponents (engine ?s1) = []"
    by (simp add: prepareModules_engine_same) (simp add: smallProject_def emptyEngine_def)
  have c: "fst (prepareComponents exampleEnv None ?s1) = Resolved"
    by (rule prepareComponents_resolved) (simp add: g)
  have r: "fst (prepareRoutes exampleEnv ?s2) = Resolved"
    by (rule prepareRoutes_resolved) (simp add: exampleEnv_def)
  show ?thesis
    unfolding smallProject_actions
      promiseSequential_step [of "prepareModules exampleEnv None", OF prepareModules_resolved]
      promiseSequential_step [of "prepareComponents exampleEnv None", OF c]
      promiseSequential_step [of "prepareRoutes exampleEnv", OF r]
      promiseSequential_step [of "preparePipes exampleEnv None", OF preparePipes_resolved]
    by simp
qed

lemma exampleApp_actions:
  "everythingActions exampleEnv exampleApp =
     [prepareModules exampleEnv None, prepareComponents exampleEnv None]"
  by (simp add: everythingActions_def exampleApp_def emptyEngine_def exampleMainData_def
      hasRoutes_def hasMiscellaneous_def)

lemma exampleApp_resolved:
  "fst (promiseSequential (everythingActions exampleEnv exampleApp) exampleApp) = Resolved"
proof -
  let ?s1 = "snd (prepareModules exampleEnv None exampleApp)"
  have g: "getComponents (engine ?s1) = []"
    by (simp add: prepareModules_engine_same) (simp add: exampleApp_def emptyEngine_def)
  have c: "fst (prepareComponents exampleEnv None ?s1) = Resolved"
    by (rule prepareComponents_resolved) (simp add: g)
  show ?thesis
    unfolding exampleApp_actions
      promiseSequential_step [of "prepareModules exampleEnv None", OF prepareModules_resolved]
      promiseSequential_step [of "prepareComponents exampleEnv None", OF c]
    by simp
qed

lemma homeComponent_fails: "\<not> templateResolves exampleEnv homeComponent"
  by (simp add: templateResolves_def homeComponent_def exampleEnv_def)

text \<open>
  C6 (amended).  Take the first component of the list whose template cannot be resolved:
  every component before it has no \<open>templateUrl\<close> or a template file that exists and is
  read, and its own template file is missing or unreadable.  Its page is planned, after the
  pages of the components before it; the component is left with the template data it had;
  one or two errors are logged, and they are the last thing that happens: the promise of
  \<open>prepareComponents\<close> never settles and no page is planned for a component after it.
\<close>

theorem prepareComponents_template_failure:
  assumes cs: "(case someComponents of Some xs \<Rightarrow> xs | None \<Rightarrow> getComponents (engine st)) = cs1 @ c # cs2"
      and ok: "\<forall>x\<in>set cs1. templateResolves env x"
      and ko: "\<not> templateResolves env c"
  shows "fst (prepareComponents env someComponents st) = Pending \<and>
         pages (snd (prepareComponents env someComponents st)) = pages st @ componentPages (cs1 @ [c]) \<and>
         components (mainData (snd (prepareComponents env someComponents st)))
           = map (preparedComponent env) cs1 @ withReadme env c # cs2 \<and>
         templateData (withReadme env c) = templateData c \<and>
         newEvents st (snd (prepareComponents env someComponents st))
           = Log Info ''Prepare components'' # concat (map (componentEvents env) cs1)
               @ componentEvents env c @ templateErrors env c \<and>
         templateErrors env c \<noteq> [] \<and>
         list_all (\<lambda>e. \<exists>msg. e = Log Error msg) (templateErrors env c)"
proof -
  have e: "list_all (\<lambda>e. \<exists>msg. e = Log Error msg) (templateErrors env c)"
    by (simp add: templateErrors_def split: sum.split)
  have w: "templateData (withReadme env c) = templateData c"
    by (simp add: withReadme_fields)
  show ?thesis
    unfolding prepareComponents_stall_state [OF cs ok ko]
    using templateErrors_nonempty [OF ko] e w
    by (simp add: planned_mainData)
qed

theorem prepareComponents_template_failure_witness:
  "\<not> templateResolves exampleEnv homeComponent \<and>
   fst (prepareComponents exampleEnv None twoComponents) = Pending \<and>
   pages (snd (prepareComponents exampleEnv None twoComponents)) = [componentPage homeComponent 0] \<and>
   templateData (components (mainData (snd (prepareComponents exampleEnv None twoComponents))) ! 0) = None \<and>
   last (newEvents twoComponents (snd (prepareComponents exampleEnv None twoComponents)))
     = Log Error ''Cannot read template for HomeComponent''"
proof -
  have cs: "(case None of Some xs \<Rightarrow> xs | None \<Rightarrow> getComponents (engine twoComponents))
              = [] @ homeComponent # [aboutComponent]"
    by (simp add: twoComponents_def)
  have pg: "pages twoComponents = []" by (simp add: twoComponents_def exampleApp_def)
  have te: "templateErrors exampleEnv homeComponent = [Log Error ''Cannot read template for HomeComponent'']"
    by (simp add: templateErrors_def exampleEnv_def homeComponent_def)
  have td: "templateData homeComponent = None" by (simp add: homeComponent_def)
  from prepareComponents_template_failure [OF cs _ homeComponent_fails] homeComponent_fails
  show ?thesis
    by (simp add: pg te td componentPages_def)
qed

text \<open>
  C6 as stated fails: the template file of the first of two components is missing; the
  preparation of the components never completes, and the second component, which has no
  template, gets no page.
\<close>

theorem prepareComponents_stops_at_missing_template:
  "getComponents (engine twoComponents) = [homeComponent, aboutComponent] \<and>
   \<not> existsSync exampleEnv (templatePathOf exampleEnv homeComponent) \<and>
   fst (prepareComponents exampleEnv None twoComponents) = Pending \<and>
   pages (snd (prepareComponents exampleEnv None twoComponents)) = [componentPage homeComponent 0]"
proof -
  have cs: "(case None of Some xs \<Rightarrow> xs | None \<Rightarrow> getComponents (engine twoComponents))
              = [] @ homeComponent # [aboutComponent]"
    by (simp add: twoComponents_def)
  have pg: "pages twoComponents = []" by (simp add: twoComponents_def exampleApp_def)
  have ok: "\<forall>x\<in>set []. templateResolves exampleEnv x" by simp
  have ex: "\<not> existsSync exampleEnv (templatePathOf exampleEnv homeComponent)"
    by (simp add: exampleEnv_def)
  have gc: "getComponents (engine twoComponents) = [homeComponent, aboutComponent]"
    by (simp add: twoComponents_def)
  show ?thesis
    unfolding prepareComponents_stall_state [OF cs ok homeComponent_fails]
    using ex gc by (simp add: pg componentPages_def)
qed




section \<open>The preparation steps leave the rest of the state alone\<close>

lemma preparationI: "(\<And>st. prepares st (snd (a st))) \<Longrightarrow> preparation a"
  by (simp add: preparation_def)

lemma preparationD: "preparation a \<Longrightarrow> prepares st (snd (a st))"
  by (simp add: preparation_def)

lemma preparation_prepareModules: "preparation (prepareModules env some)"
  by (rule preparationI)
     (simp add: prepareModules_planned Let_def prepares_planned readmeLogs_stage)

lemma preparation_entries:
  "preparation (prepareDirectives env some)"
  "preparation (prepareInjectables env some)"
  "preparation (preparePipes env some)"
  "preparation (prepareClasses env some)"
  "preparation (prepareInterfaces env some)"
  by (rule preparationI,
      simp add: prepareDirectives_planned prepareInjectables_planned preparePipes_planned
        prepareClasses_planned prepareInterfaces_planned Let_def prepares_planned readmeLogs_stage)+

lemma preparation_prepareMiscellaneous: "preparation (prepareMiscellaneous env some)"
  by (rule preparationI) (simp add: prepareMiscellaneous_planned Let_def prepares_planned)

lemma preparation_prepareCoverage: "preparation (prepareCoverage env)"
  by (rule preparationI) (simp add: prepareCoverage_planned prepares_planned')

lemma preparation_prepareRoutes: "preparation (prepareRoutes env)"
proof (rule preparationI)
  fix st
  from prepareRoutes_planned [of env st] obtain evs where
    "list_all (inStages {Logging, Preparation, Fatal}) evs"
    "snd (prepareRoutes env st) =
       planned (st\<lparr>mainData := (mainData st)\<lparr>routes := getRoutes (engine st)\<rparr>\<rparr>) [routesRootPage] evs"
    by blast
  then show "prepares st (snd (prepareRoutes env st))" by (simp add: prepares_planned)
qed

lemma preparation_prepareComponents: "preparation (prepareComponents env some)"
proof (rule preparationI)
  fix st
  show "prepares st (snd (prepareComponents env some st))"
    by (cases rule: prepareComponents_cases [of env some st]) (simp_all add: prepares_planned)
qed

lemma prepares_loopChild:
  "prepares st st' \<Longrightarrow> prepares st (snd (loopChild env t cs st'))"
  by (induction cs arbitrary: st')
     (simp_all add: prepares_logger prepares_addAdditionalPage split: sum.split)

lemma prepares_loopSummary:
  "prepares st st' \<Longrightarrow> prepares st (snd (loopSummary env ss st'))"
proof (induction ss arbitrary: st')
  case Nil
  then show ?case by simp
next
  case (Cons s ss)
  show ?case
  proof (cases "getTraditionalMarkdown env (md_includes (mainData st') @ sep env @ s_file s)")
    case (Inl e)
    then show ?thesis using Cons.prems by (simp add: prepares_logger)
  next
    case (Inr markedData)
    let ?st1 = "addAdditionalPage
                  (additionalPage (s_title s) (cleanNameWithoutSpaceAndToLowerCase env (s_title s))
                     (includesFolder (mainData st')) markedData 1) st'"
    have p1: "prepares st ?st1" using Cons.prems by (rule prepares_addAdditionalPage)
    show ?thesis
    proof (cases "s_children s = []")
      case True
      with Inr Cons.IH [OF p1] show ?thesis by (simp add: Let_def)
    next
      case False
      obtain r st2 where lc: "loopChild env (s_title s) (s_children s) ?st1 = (r, st2)"
        by (cases "loopChild env (s_title s) (s_children s) ?st1")
      from prepares_loopChild [OF p1, of env "s_title s" "s_children s"] lc
      have p2: "prepares st st2" by simp
      show ?thesis
        using Inr False lc p2 by (cases r) (simp_all add: Let_def Cons.IH [OF p2])
    qed
  qed
qed

lemma preparation_prepareExternalIncludes: "preparation (prepareExternalIncludes env)"
  by (rule preparationI)
     (simp add: prepareExternalIncludes_def Let_def prepares_loopSummary prepares_logger
        prepares_unhandledRejection split: sum.split option.split)

lemma prepares_loopMarkdowns:
  "prepares st st' \<Longrightarrow> prepares st (loopMarkdowns env ns st')"
proof (induction ns arbitrary: st')
  case Nil
  then show ?case by simp
next
  case (Cons n ns)
  obtain nm upper where n: "n = (nm, upper)" by (cases n)
  show ?case
    unfolding n
    by (cases "getTraditionalMarkdown env upper")
       (simp_all add: Let_def Cons.IH Cons.prems prepares_logger prepares_addPage)
qed

lemma preparation_processMarkdowns: "preparation (processMarkdowns env)"
  by (rule preparationI) (simp add: processMarkdowns_def prepares_loopMarkdowns prepares_logger)

lemma prepares_promiseSequential:
  "list_all preparation as \<Longrightarrow> prepares st st' \<Longrightarrow> prepares st (snd (promiseSequential as st'))"
proof (induction as arbitrary: st')
  case Nil
  then show ?case by simp
next
  case (Cons a as)
  obtain r st1 where a: "a st' = (r, st1)" by (cases "a st'")
  from Cons.prems have "prepares st' (snd (a st'))" by (simp add: preparationD)
  with a Cons.prems(2) have p1: "prepares st st1" by (auto intro: prepares_trans)
  from Cons.prems(1) have as: "list_all preparation as" by simp
  show ?case
    using a p1 by (cases r) (simp_all add: Cons.IH [OF as p1])
qed

lemma preparation_justAFewActions: "list_all preparation (justAFewActions env dd st)"
  by (simp add: justAFewActions_def preparation_prepareModules preparation_entries
      preparation_prepareMiscellaneous preparation_prepareCoverage preparation_prepareRoutes
      preparation_prepareComponents)

lemma preparation_everythingActions: "list_all preparation (everythingActions env st)"
  by (simp add: everythingActions_def preparation_prepareModules preparation_entries
      preparation_prepareMiscellaneous preparation_prepareCoverage preparation_prepareRoutes
      preparation_prepareComponents preparation_prepareExternalIncludes)

section \<open>Watch rebuilds and the changed files\<close>


text \<open>Events of the graph stage, after its synchronous part.\<close>

lemma appends_loopGraphs:
  assumes "{Logging, GraphStage} \<subseteq> S"
  shows "appends (inStages S) st st' \<Longrightarrow> appends (inStages S) st (snd (snd (loopGraphs env ms st')))"
proof (induction ms arbitrary: st')
  case Nil
  then show ?case by simp
next
  case (Cons m ms)
  from assms have s: "Logging \<in> S" "GraphStage \<in> S" by auto
  note step = Cons.IH appends_logger appends_emit
  show ?case
    using Cons.prems s
    by (auto simp: Let_def split_beta intro!: step split: option.split sum.split)
qed

lemma appends_mainGraphSettle:
  assumes "{Logging, GraphStage} \<subseteq> S" "appends (inStages S) st st'"
  shows "appends (inStages S) st (mainGraphSettle env st')"
proof -
  from mainGraphSettle_eq [of env st'] obtain T mg where
    eq: "mainGraphSettle env st' =
           st'\<lparr>mainData := (mainData st')\<lparr>disableMainGraph :=
                                 (disableMainGraph (mainData st') \<or> mainGraphFails env (mainData st')),
                               mainGraph := mg\<rparr>,
                trace := trace st' @ T\<rparr>"
    and T: "list_all (inStages {Logging, GraphStage}) T"
    by blast
  from T assms(1) have "list_all (inStages S) T"
    by (auto simp: list_all_iff intro: inStages_mono)
  with assms(2) show ?thesis
    unfolding eq by (auto simp: appends_def)
qed

lemma appends_graphLoopThenPages:
  assumes "insert GraphStage laterStages \<subseteq> S" "appends (inStages S) st st'"
  shows "appends (inStages S) st (graphLoopThenPages env st')"
proof -
  from assms(1) have s: "{Logging, GraphStage} \<subseteq> S" "laterStages \<subseteq> S" "Fatal \<in> S" "Logging \<in> S"
    by (auto simp: laterStages_def)
  obtain r ms st1 where l: "loopGraphs env (modules (mainData st')) st' = (r, ms, st1)"
    by (cases "loopGraphs env (modules (mainData st')) st'")
  from appends_loopGraphs [OF s(1) assms(2), of env "modules (mainData st')"] l
  have a1: "appends (inStages S) st st1" by simp
  then have a2: "appends (inStages S) st (st1\<lparr>mainData := (mainData st1)\<lparr>modules := ms\<rparr>\<rparr>)" by simp
  show ?thesis
    using l a2 s
    by (cases r) (simp_all add: graphLoopThenPages_def graphLoop_def appends_processPages
        appends_unhandledRejection)
qed

lemma appends_processGraphsSettle:
  assumes "insert GraphStage laterStages \<subseteq> S" "appends (inStages S) st st'"
  shows "appends (inStages S) st (processGraphsSettle env pend st')"
proof -
  from assms(1) have s: "{Logging, GraphStage} \<subseteq> S" "laterStages \<subseteq> S"
    by (auto simp: laterStages_def)
  show ?thesis
    by (cases pend)
       (simp_all add: processGraphsSettle_def appends_processPagesSettle [OF s(2) assms(2)]
          appends_graphLoopThenPages [OF assms(1)] appends_mainGraphSettle [OF s(1) assms(2)])
qed

lemma appends_processGraphsStart:
  "appends (inStages {Logging, RenderStart, GraphStage}) st (snd (processGraphsStart env st))"
proof (cases "disableGraph (mainData st)")
  case True
  have "appends (inStages {Logging, RenderStart}) (logger Info ''Graph generation disabled'' st)
          (snd (processPagesStart env (logger Info ''Graph generation disabled'' st)))"
    by (rule appends_processPagesStart)
  then have "appends (inStages {Logging, RenderStart, GraphStage}) (logger Info ''Graph generation disabled'' st)
          (snd (processPagesStart env (logger Info ''Graph generation disabled'' st)))"
    by (rule appends_stages_mono) auto
  moreover have "appends (inStages {Logging, RenderStart, GraphStage}) st (logger Info ''Graph generation disabled'' st)"
    by (simp add: appends_logger)
  ultimately show ?thesis
    using True by (simp add: processGraphsStart_def split_beta) (rule appends_trans)
next
  case False
  then show ?thesis
    by (simp add: processGraphsStart_enabled appends_def mainRenderEvent_def)
qed

lemma prepares_pages [simp]: "prepares st (st'\<lparr>pages := ps\<rparr>) = prepares st st'"
  by (simp add: prepares_def)

lemma not_clear:
  assumes "list_all (inStages S) A" "Watching \<notin> S"
  shows "\<forall>e\<in>set A. e \<noteq> ClearUpdatedFiles"
  using assms by (auto simp: list_all_iff inStages_def)

lemma clearsBetween_kept:
  assumes a: "appends (inStages {Logging, Preparation, Fatal}) st st'"
      and u: "updatedFiles st' = updatedFiles st" "watchChangedFiles st' = watchChangedFiles st"
  shows "clearsBetween st st'"
proof -
  from appends_newEvents [OF a] have T: "list_all (inStages {Logging, Preparation, Fatal}) (newEvents st st')"
    by simp
  from not_clear [OF T] have nc: "\<forall>e\<in>set (newEvents st st'). e \<noteq> ClearUpdatedFiles" by simp
  then have tw: "takeWhile (\<lambda>e. e \<noteq> ClearUpdatedFiles) (newEvents st st') = newEvents st st'"
    and dw: "dropWhile (\<lambda>e. e \<noteq> ClearUpdatedFiles) (newEvents st st') = []"
    by simp_all
  from T have "\<forall>e\<in>set (newEvents st st'). stageOf e \<notin> {RenderSettle, IndexPersist, Finalization}"
    by (auto simp: list_all_iff inStages_def)
  then show ?thesis
    unfolding clearsBetween_def tw dw using u by simp
qed

lemma clearsBetween_cleared:
  assumes tr: "trace st' = trace st @ A @ ClearUpdatedFiles # B"
      and A: "list_all (inStages {Logging, Preparation, Fatal, RenderStart, GraphStage}) A"
      and B: "list_all (inStages (insert GraphStage laterStages)) B"
  shows "clearsBetween st st'"
proof -
  have new: "newEvents st st' = A @ ClearUpdatedFiles # B"
    by (rule newEvents_ext) (simp add: tr)
  from not_clear [OF A] have nc: "\<forall>e\<in>set A. e \<noteq> ClearUpdatedFiles" by simp
  then have tw: "takeWhile (\<lambda>e. e \<noteq> ClearUpdatedFiles) (A @ ClearUpdatedFiles # B) = A"
    by (simp add: takeWhile_append2)
  from nc have dw: "dropWhile (\<lambda>e. e \<noteq> ClearUpdatedFiles) (A @ ClearUpdatedFiles # B) = ClearUpdatedFiles # B"
    by (simp add: dropWhile_append2)
  from A have a: "\<forall>e\<in>set A. stageOf e \<notin> {RenderSettle, IndexPersist, Finalization}"
    by (auto simp: list_all_iff inStages_def)
  from B have b: "\<forall>e\<in>set (ClearUpdatedFiles # B). stageOf e \<noteq> Preparation"
    by (auto simp: list_all_iff inStages_def laterStages_def)
  show ?thesis
    unfolding clearsBetween_def new tw dw using a b by simp
qed

lemma startThenClear:
  assumes a0: "appends (inStages {Logging, Preparation, Fatal}) st st1"
      and a1: "appends (inStages {Logging, RenderStart, GraphStage}) st1 st2"
      and a3: "appends (inStages (insert GraphStage laterStages)) (clearUpdatedFiles st2) st'"
  shows "clearsBetween st st'"
proof -
  from a0 obtain T0 where T0: "trace st1 = trace st @ T0" "list_all (inStages {Logging, Preparation, Fatal}) T0"
    by (auto simp: appends_def)
  from a1 obtain T1 where T1: "trace st2 = trace st1 @ T1" "list_all (inStages {Logging, RenderStart, GraphStage}) T1"
    by (auto simp: appends_def)
  from a3 obtain T3 where T3: "trace st' = trace (clearUpdatedFiles st2) @ T3"
    "list_all (inStages (insert GraphStage laterStages)) T3"
    by (auto simp: appends_def)
  have tr: "trace st' = trace st @ (T0 @ T1) @ ClearUpdatedFiles # T3"
    by (simp add: T3 T1 T0 clearUpdatedFiles_def emit_def)
  have A: "list_all (inStages {Logging, Preparation, Fatal, RenderStart, GraphStage}) (T0 @ T1)"
    using T0(2) T1(2) by (auto simp: list_all_iff inStages_def)
  show ?thesis by (rule clearsBetween_cleared [OF tr A T3(2)])
qed

lemma clearsBetween_pagesThenClear:
  assumes as: "list_all preparation actions"
      and a0: "appends (inStages {Logging, Preparation, Fatal}) st st0"
      and u: "updatedFiles st0 = updatedFiles st" "watchChangedFiles st0 = watchChangedFiles st"
  shows "clearsBetween st (pagesThenClear env actions st0)"
proof -
  obtain r st1 where ps: "promiseSequential actions st0 = (r, st1)"
    by (cases "promiseSequential actions st0")
  have "prepares st0 (snd (promiseSequential actions st0))"
    by (rule prepares_promiseSequential [OF as prepares_refl])
  with ps have p: "prepares st0 st1" by simp
  then have a1: "appends (inStages {Logging, Preparation, Fatal}) st st1"
    and u1: "updatedFiles st1 = updatedFiles st" "watchChangedFiles st1 = watchChangedFiles st"
    using a0 u by (auto simp: prepares_def intro: appends_trans)
  show ?thesis
  proof (cases r)
    case Resolved
    let ?st2 = "snd (processPagesStart env st1)"
    have s: "appends (inStages {Logging, RenderStart, GraphStage}) st1 ?st2"
      by (rule appends_stages_mono [OF appends_processPagesStart]) auto
    have e: "appends (inStages (insert GraphStage laterStages)) (clearUpdatedFiles ?st2)
               (processPagesSettle env (fst (processPagesStart env st1)) (clearUpdatedFiles ?st2))"
      by (rule appends_processPagesSettle) auto
    show ?thesis
      using startThenClear [OF a1 s e] ps Resolved
      by (simp add: pagesThenClear_def split_beta)
  next
    case (Rejected msg)
    have "clearsBetween st (logger Error msg st1)"
      by (rule clearsBetween_kept) (simp_all add: appends_logger a1 u1)
    then show ?thesis using ps Rejected by (simp add: pagesThenClear_def)
  next
    case Pending
    have "clearsBetween st st1" by (rule clearsBetween_kept [OF a1 u1])
    then show ?thesis using ps Pending by (simp add: pagesThenClear_def)
  qed
qed

lemma clearsBetween_rebuildRootMarkdowns: "clearsBetween st (rebuildRootMarkdowns env st)"
  unfolding rebuildRootMarkdowns_def Let_def
  by (rule clearsBetween_pagesThenClear) (simp_all add: preparation_processMarkdowns appends_logger)

lemma clearsBetween_rebuildExternalDocumentation:
  "clearsBetween st (rebuildExternalDocumentation env st)"
  unfolding rebuildExternalDocumentation_def Let_def
  by (rule clearsBetween_pagesThenClear)
     (simp_all add: preparation_prepareExternalIncludes appends_logger resetAdditionalPages_def)

lemma clearsBetween_getMicroDependenciesData:
  "clearsBetween st (getMicroDependenciesData env st)"
proof -
  let ?dd = "crawl env (Some (updatedFiles st))"
  let ?stE = "(logger Info ''Get diff dependencies data'' st)\<lparr>engine := engineUpdate env (engine st) ?dd\<rparr>"
  let ?st0 = "resetPages ?stE"
  have gm: "getMicroDependenciesData env st = prepareJustAFewThings env ?dd ?stE"
    by (simp add: getMicroDependenciesData_def Let_def)
  have a0: "appends (inStages {Logging, Preparation, Fatal}) st ?st0"
    by (simp add: resetPages_def appends_logger)
  have u: "updatedFiles ?st0 = updatedFiles st" "watchChangedFiles ?st0 = watchChangedFiles st"
    by (simp_all add: resetPages_def)
  obtain r st1 where ps: "promiseSequential (justAFewActions env ?dd ?st0) ?st0 = (r, st1)"
    by (cases "promiseSequential (justAFewActions env ?dd ?st0) ?st0")
  have "prepares ?st0 (snd (promiseSequential (justAFewActions env ?dd ?st0) ?st0))"
    by (rule prepares_promiseSequential [OF preparation_justAFewActions prepares_refl])
  with ps have p: "prepares ?st0 st1" by simp
  then have a1: "appends (inStages {Logging, Preparation, Fatal}) st st1"
    and u1: "updatedFiles st1 = updatedFiles st" "watchChangedFiles st1 = watchChangedFiles st"
    using a0 u by (auto simp: prepares_def intro: appends_trans)
  show ?thesis
  proof (cases r)
    case Resolved
    let ?st2 = "snd (processGraphsStart env st1)"
    have e: "appends (inStages (insert GraphStage laterStages)) (clearUpdatedFiles ?st2)
               (processGraphsSettle env (fst (processGraphsStart env st1)) (clearUpdatedFiles ?st2))"
      by (rule appends_processGraphsSettle) simp_all
    show ?thesis
      unfolding gm prepareJustAFewThings_def Let_def ps
      using startThenClear [OF a1 appends_processGraphsStart e] Resolved by (simp add: split_beta)
  next
    case (Rejected msg)
    have "clearsBetween st (logger Error msg st1)"
      by (rule clearsBetween_kept) (simp_all add: appends_logger a1 u1)
    then show ?thesis
      unfolding gm prepareJustAFewThings_def Let_def ps using Rejected by simp
  next
    case Pending
    have "clearsBetween st st1" by (rule clearsBetween_kept [OF a1 u1])
    then show ?thesis
      unfolding gm prepareJustAFewThings_def Let_def ps using Pending by simp
  qed
qed

lemma pagesThenClear_settles:
  assumes ps: "promiseSequential actions st0 = (Resolved, st1)"
      and w: "\<forall>p\<in>set (pages st1). \<not> writeFails env (mainData st1) p"
      and g: "generateSearchIndexJson env (md_output (mainData st1)) = None"
      and alive: "exited st1 = None"
  shows "\<exists>B. trace (pagesThenClear env actions st0) =
               trace st1 @ (Log Info ''Process pages''
                            # concat (map (pageStartEvents (mainData st1)) (pages st1)))
               @ ClearUpdatedFiles # B \<and>
             PersistIndex True \<in> set B \<and>
             (\<forall>p\<in>set (pages st1). WriteSettled (finalPathOf (mainData st1) p) True \<in> set B)"
proof -
  let ?jobs = "map (jobOf env (mainData st1)) (pages st1)"
  let ?st2 = "snd (processPagesStart env st1)"
  let ?st3 = "clearUpdatedFiles ?st2"
  let ?stS = "snd (settleWrites env MainPages False ?jobs ?st3)"
  have jobs: "fst (processPagesStart env st1) = ?jobs" by (simp add: processPagesStart_eq)
  have tr3: "trace ?st3 = trace st1 @ (Log Info ''Process pages''
                            # concat (map (pageStartEvents (mainData st1)) (pages st1)))
               @ [ClearUpdatedFiles]"
    by (simp add: processPagesStart_eq clearUpdatedFiles_def emit_def)
  have md3: "mainData ?st3 = mainData st1" and alive3: "exited ?st3 = None"
    using alive by (simp_all add: processPagesStart_eq clearUpdatedFiles_def emit_def)
  have ok: "\<not> fst (settleWrites env MainPages False ?jobs ?st3)"
    using w by (auto simp: settleWrites_failed writeFails_def jobOf_def)
  have mdS: "mainData ?stS = mainData st1" by (simp add: settleWrites_frame md3)
  have aS: "appends (inStages {Logging, RenderSettle}) ?st3 ?stS" by (rule appends_settleWrites_main)
  let ?stP = "persistIndex ?stS"
  have run: "pagesThenClear env actions st0 =
               (if additionalPages (mainData ?stP) \<noteq> []
                then processAdditionalPages env ?stP else finalize env ?stP)"
    using ok g
    by (simp add: pagesThenClear_def ps split_beta jobs processPagesSettle_def mdS Let_def
        split: prod.split)
  have aF: "appends (inStages laterStages) ?stP (pagesThenClear env actions st0)"
    unfolding run
    by (simp add: appends_processAdditionalPages appends_finalize laterStages_def)
  from aS obtain TS where TS: "trace ?stS = trace ?st3 @ TS" by (auto simp: appends_def)
  from aF obtain TF where TF: "trace (pagesThenClear env actions st0) = trace ?stP @ TF"
    by (auto simp: appends_def)
  have trP: "trace ?stP = trace ?stS @ [PersistIndex True]"
    by (simp add: persistIndex_def emit_def)
  have each: "WriteSettled (finalPathOf (mainData st1) p) True \<in> set TS" if "p \<in> set (pages st1)" for p
  proof -
    from that have j: "jobOf env (mainData st1) p \<in> set ?jobs" by simp
    from that w have fw: "fileWrite env (job_path (jobOf env (mainData st1) p)) (job_html (jobOf env (mainData st1) p))"
      by (auto simp: writeFails_def jobOf_def)
    from settleWrites_main_each [OF alive3 j, of env False] fw
    have "WriteSettled (job_path (jobOf env (mainData st1) p)) True \<in> set (newEvents ?st3 ?stS)"
      by simp
    moreover have "newEvents ?st3 ?stS = TS" by (rule newEvents_ext [OF TS])
    ultimately show ?thesis by (simp add: jobOf_def)
  qed
  have "trace (pagesThenClear env actions st0) =
          trace st1 @ (Log Info ''Process pages''
                            # concat (map (pageStartEvents (mainData st1)) (pages st1)))
               @ ClearUpdatedFiles # (TS @ PersistIndex True # TF)"
    by (simp add: TF trP TS tr3)
  moreover have "PersistIndex True \<in> set (TS @ PersistIndex True # TF)" by simp
  moreover have "\<forall>p\<in>set (pages st1). WriteSettled (finalPathOf (mainData st1) p) True \<in> set (TS @ PersistIndex True # TF)"
    using each by simp
  ultimately show ?thesis by blast
qed

lemma docsChanged_run:
  "\<exists>B. trace (rebuildExternalDocumentation exampleEnv docsChanged) =
          [Log Info ''Rebuild external documentation'', Log Info ''Process pages'',
           Log Info ''Process page modules'', IndexPage ''out/modules.html'',
           WriteStart ''out/modules.html'', Log Info ''Process page routes'',
           IndexPage ''out/routes.html'', WriteStart ''out/routes.html'']
          @ ClearUpdatedFiles # B \<and>
        PersistIndex True \<in> set B \<and> WriteSettled ''out/modules.html'' True \<in> set B \<and>
        WriteSettled ''out/routes.html'' True \<in> set B"
proof -
  let ?st1 = "resetAdditionalPages (logger Info ''Rebuild external documentation'' docsChanged)"
  have inc: "md_includes (mainData ?st1) = []"
    by (simp add: resetAdditionalPages_def docsChanged_def twoPages_def exampleApp_def exampleMainData_def)
  have run: "rebuildExternalDocumentation exampleEnv docsChanged = pagesThenClear exampleEnv [] ?st1"
    using inc by (simp add: rebuildExternalDocumentation_def Let_def)
  have ps: "promiseSequential [] ?st1 = (Resolved, ?st1)" by simp
  have pg: "pages ?st1 = [modulesRootPage, routesRootPage]"
    by (simp add: resetAdditionalPages_def docsChanged_def twoPages_def)
  have out: "md_output (mainData ?st1) = ''out/''"
    by (simp add: resetAdditionalPages_def docsChanged_def twoPages_def exampleApp_def exampleMainData_def)
  have fp: "finalPathOf (mainData ?st1) modulesRootPage = ''out/modules.html''"
    "finalPathOf (mainData ?st1) routesRootPage = ''out/routes.html''"
    by (simp_all add: finalPathOf_def out modulesRootPage_def routesRootPage_def)
  have w: "\<forall>p\<in>set (pages ?st1). \<not> writeFails exampleEnv (mainData ?st1) p"
    by (simp add: writeFails_def exampleEnv_def)
  have g: "generateSearchIndexJson exampleEnv (md_output (mainData ?st1)) = None"
    by (simp add: exampleEnv_def)
  have alive: "exited ?st1 = None"
    by (simp add: resetAdditionalPages_def docsChanged_def twoPages_def exampleApp_def)
  have tr: "trace ?st1 = [Log Info ''Rebuild external documentation'']"
    by (simp add: resetAdditionalPages_def logger_def emit_def docsChanged_def twoPages_def exampleApp_def)
  from pagesThenClear_settles [OF ps w g alive] show ?thesis
    unfolding run by (simp add: pg fp tr pageStartEvents_def rootPage_names)
qed




end
